(* ===== verification/Prelude.thy ===== *)
theory Prelude
  imports Main "HOL-Library.Word"
begin

text \<open>
  Vocabulary shared by every theory of the library: the faults a C++ operation can end
  in, the sequencing of operations that may fault, checked access to a
  \<^verbatim>\<open>std::vector\<close>, the decimal rendering of \<^verbatim>\<open>sprintf("%d")\<close> and of
  \<^verbatim>\<open>boost::lexical_cast\<close>, and the interaction trees that stand for an external library
  that calls back into the program.
\<close>

section \<open>Faults and sequencing\<close>

text \<open>
  An operation of the program that can run into undefined behaviour, a failing
  \<^verbatim>\<open>assert\<close> or an exception returns \<open>Inl\<close> of the fault; everything else is \<open>Inr\<close>.
\<close>

datatype fault =
    Null_pointer       \<comment> \<open>dereference of an empty smart pointer\<close>
  | Uninitialised      \<comment> \<open>read of a member no constructor has written\<close>
  | Out_of_bounds      \<comment> \<open>index past the end of an array or a vector\<close>
  | Buffer_overflow    \<comment> \<open>write past the end of a character array\<close>
  | Dangling_pointer   \<comment> \<open>use of an object after its delete\<close>
  | Assertion          \<comment> \<open>a failing assert\<close>
  | Exception string   \<comment> \<open>an exception thrown by a library the code calls\<close>

type_synonym 'a res = "fault + 'a"

definition bindE :: "'e + 'a \<Rightarrow> ('a \<Rightarrow> 'e + 'b) \<Rightarrow> 'e + 'b" where
  "bindE m f = (case m of Inl e \<Rightarrow> Inl e | Inr a \<Rightarrow> f a)"

named_theorems step_simps \<open>unfolding rules of the handlers and callbacks\<close>

lemma bindE_Inl [simp]: "bindE (Inl e) f = Inl e"
  and bindE_Inr [simp]: "bindE (Inr a) f = f a"
  by (simp_all add: bindE_def)

lemma bindE_eq_Inr_iff [simp]: "bindE m f = Inr b \<longleftrightarrow> (\<exists>a. m = Inr a \<and> f a = Inr b)"
  by (cases m) auto

lemma bindE_assoc: "bindE (bindE m f) g = bindE m (\<lambda>a. bindE (f a) g)"
  by (cases m) auto

lemma bindE_cong: "m = m' \<Longrightarrow> (\<And>a. m' = Inr a \<Longrightarrow> f a = g a) \<Longrightarrow> bindE m f = bindE m' g"
  by (cases m') auto

text \<open>A smart pointer is an option; using an empty one is a fault.\<close>

definition deref :: "'a option \<Rightarrow> 'a res" where
  "deref p = (case p of None \<Rightarrow> Inl Null_pointer | Some a \<Rightarrow> Inr a)"

lemma deref_simps [simp]: "deref None = Inl Null_pointer" "deref (Some a) = Inr a"
  by (simp_all add: deref_def)

lemma deref_eq_Inr_iff [simp]: "deref p = Inr a \<longleftrightarrow> p = Some a"
  by (cases p) auto

text \<open>So is a member that a constructor leaves without a value.\<close>

definition initialised :: "'a option \<Rightarrow> 'a res" where
  "initialised v = (case v of None \<Rightarrow> Inl Uninitialised | Some a \<Rightarrow> Inr a)"

lemma initialised_simps [simp]:
  "initialised None = Inl Uninitialised" "initialised (Some a) = Inr a"
  by (simp_all add: initialised_def)

lemma initialised_eq_Inr_iff [simp]: "initialised v = Inr a \<longleftrightarrow> v = Some a"
  by (cases v) auto

section \<open>Vectors and strings\<close>

definition vec_at :: "'a list \<Rightarrow> nat \<Rightarrow> 'a res" where
  "vec_at xs i = (if i < length xs then Inr (xs ! i) else Inl Out_of_bounds)"

lemma vec_at_in [simp]: "i < length xs \<Longrightarrow> vec_at xs i = Inr (xs ! i)"
  by (simp add: vec_at_def)

lemma vec_at_eq_Inr_iff: "vec_at xs i = Inr x \<longleftrightarrow> i < length xs \<and> x = xs ! i"
  by (auto simp: vec_at_def)

text \<open>\<^verbatim>\<open>std::vector::resize\<close>: shrink, or grow by value-initialised elements.\<close>

definition vec_resize :: "'a \<Rightarrow> nat \<Rightarrow> 'a list \<Rightarrow> 'a list" where
  "vec_resize d n xs = take n xs @ replicate (n - length xs) d"

lemma length_vec_resize [simp]: "length (vec_resize d n xs) = n"
  by (simp add: vec_resize_def)

lemma take_vec_resize: "k \<le> n \<Longrightarrow> take k (vec_resize d n xs) = vec_resize d k xs"
  by (simp add: vec_resize_def min_def diff_le_mono)

definition NUL :: char where "NUL = CHR 0x00"
definition CR :: char where "CR = CHR 0x0D"
definition LF :: char where "LF = CHR 0x0A"

definition crlf :: string where "crlf = [CR, LF]"

lemma CR_neq [simp]: "CR \<noteq> CHR '':''" "CR \<noteq> CHR '' ''" "CHR '':'' \<noteq> CR" "CHR '' '' \<noteq> CR"
  by (simp_all add: CR_def)

section \<open>Decimal numerals\<close>

definition digit :: "nat \<Rightarrow> char" where
  "digit d = ''0123456789'' ! d"

fun show_nat :: "nat \<Rightarrow> string" where
  "show_nat n = (if n < 10 then [digit n] else show_nat (n div 10) @ [digit (n mod 10)])"

declare show_nat.simps [simp del]

definition show_int :: "int \<Rightarrow> string" where
  "show_int i = (if i < 0 then CHR ''-'' # show_nat (nat (- i)) else show_nat (nat i))"

definition digit_value :: "char \<Rightarrow> nat option" where
  "digit_value c = map_of (zip ''0123456789'' [0..<10]) c"

text \<open>The reference reader of an unsigned decimal numeral.\<close>

definition read_digit :: "nat option \<Rightarrow> char \<Rightarrow> nat option" where
  "read_digit acc c =
     (case (acc, digit_value c) of (Some n, Some d) \<Rightarrow> Some (10 * n + d) | _ \<Rightarrow> None)"

definition read_nat :: "string \<Rightarrow> nat option" where
  "read_nat s = (if s = [] then None else foldl read_digit (Some 0) s)"

lemma less_10_cases: "(d::nat) < 10 \<Longrightarrow> d \<in> {0, 1, 2, 3, 4, 5, 6, 7, 8, 9}"
  by auto

lemma digit_value_digit [simp]: "d < 10 \<Longrightarrow> digit_value (digit d) = Some d"
  by (drule less_10_cases) (auto simp: digit_value_def digit_def upt_rec)

lemma digit_neq_minus: "d < 10 \<Longrightarrow> digit d \<noteq> CHR ''-''"
  by (drule less_10_cases) (auto simp: digit_def)

lemma digit_neq_CR: "d < 10 \<Longrightarrow> digit d \<noteq> CR"
  by (drule less_10_cases) (auto simp: digit_def CR_def)

lemma show_nat_neq_Nil [simp]: "show_nat n \<noteq> []"
  by (subst show_nat.simps) simp

lemma read_digit_digit [simp]: "d < 10 \<Longrightarrow> read_digit (Some n) (digit d) = Some (10 * n + d)"
  by (simp add: read_digit_def)

lemma foldl_read_digit_show_nat: "foldl read_digit (Some 0) (show_nat n) = Some n"
proof (induction n rule: show_nat.induct)
  case (1 n)
  show ?case
  proof (cases "n < 10")
    case True
    then show ?thesis by (simp add: show_nat.simps [of n])
  next
    case False
    with "1.IH" have "foldl read_digit (Some 0) (show_nat (n div 10)) = Some (n div 10)"
      by simp
    with False show ?thesis
      by (simp add: show_nat.simps [of n])
  qed
qed

lemma read_nat_show_nat [simp]: "read_nat (show_nat n) = Some n"
  by (simp add: read_nat_def foldl_read_digit_show_nat)

lemma show_nat_inject [simp]: "show_nat m = show_nat n \<longleftrightarrow> m = n"
  by (metis option.inject read_nat_show_nat)

lemma set_show_nat: "set (show_nat n) \<subseteq> digit ` {0..<10}"
proof (induction n rule: show_nat.induct)
  case (1 n)
  then show ?case by (cases "n < 10") (auto simp: show_nat.simps [of n])
qed

lemma CR_notin_show_nat [simp]: "CR \<notin> set (show_nat n)"
  using set_show_nat [of n] digit_neq_CR by fastforce

lemma CR_notin_show_int [simp]: "CR \<notin> set (show_int i)"
  by (simp add: show_int_def) (simp add: CR_def)

lemma colon_notin_show_nat: "CHR '':'' \<notin> set (show_nat n)"
proof
  assume "CHR '':'' \<in> set (show_nat n)"
  then obtain d where "d < 10" "CHR '':'' = digit d" using set_show_nat [of n] by auto
  then show False by (auto simp: digit_def dest!: less_10_cases)
qed

lemma foldl_read_digit_None: "foldl read_digit None s = None"
  by (induction s) (simp_all add: read_digit_def)

lemma read_nat_show_int: "read_nat (show_int i) = (if i < 0 then None else Some (nat i))"
proof -
  have "read_digit (Some 0) (CHR ''-'') = None" by (simp add: read_digit_def digit_value_def upt_rec)
  then have "read_nat (CHR ''-'' # s) = None" for s
    by (simp add: read_nat_def foldl_read_digit_None)
  then show ?thesis by (simp add: show_int_def)
qed

lemma show_int_nonneg_inject: "0 \<le> j \<Longrightarrow> show_int i = show_int j \<longleftrightarrow> i = j"
  using read_nat_show_int [of i] read_nat_show_int [of j] by (auto split: if_splits)

text \<open>The C cast \<^verbatim>\<open>(int)n\<close> of a \<^verbatim>\<open>size_t\<close>: the low 32 bits, read in two's complement.\<close>

definition c_int :: "nat \<Rightarrow> int" where
  "c_int n = sint (word_of_nat n :: 32 word)"

lemma c_int_small: "n < 2 ^ 31 \<Longrightarrow> c_int n = int n"
  by (simp add: c_int_def signed_of_nat signed_take_bit_int_eq_self)

lemma c_int_range: "- (2 ^ 31) \<le> c_int n \<and> c_int n < 2 ^ 31"
  using sint_ge [of "word_of_nat n :: 32 word"] sint_lt [of "word_of_nat n :: 32 word"]
  by (simp add: c_int_def)

section \<open>Interaction trees\<close>

text \<open>
  An external routine that calls back into the program (\<^verbatim>\<open>http_parser_execute\<close> with its
  settings, libcurl with its callbacks) is a parameter of the model whose value is a
  tree: it ends with a result, or it makes a callback and goes on according to the
  value the callback returns. Such a tree is any deterministic, finite behaviour of the
  routine; nothing about which callbacks it makes is fixed here.
\<close>

datatype ('ev, 'r, 'a) run = Done 'a | Call 'ev "'r \<Rightarrow> ('ev, 'r, 'a) run"

primrec run_with ::
  "('ev \<Rightarrow> 's \<Rightarrow> ('r \<times> 's) res) \<Rightarrow> ('ev, 'r, 'a) run \<Rightarrow> 's \<Rightarrow> ('a \<times> 's) res" where
  "run_with cb (Done a) s = Inr (a, s)"
| "run_with cb (Call ev k) s = bindE (cb ev s) (\<lambda>(r, s'). run_with cb (k r) s')"

text \<open>The tree that makes a fixed list of callbacks whatever they return.\<close>

fun calls :: "'ev list \<Rightarrow> 'a \<Rightarrow> ('ev, 'r, 'a) run" where
  "calls [] a = Done a"
| "calls (ev # evs) a = Call ev (\<lambda>_. calls evs a)"

text \<open>An invariant of every callback is an invariant of the whole run.\<close>

lemma run_with_invariant:
  assumes cb: "\<And>ev s r s'. P s \<Longrightarrow> cb ev s = Inr (r, s') \<Longrightarrow> P s'"
    and "P s" and "run_with cb t s = Inr (a, s')"
  shows "P s'"
  using assms(2,3)
proof (induction t arbitrary: s)
  case (Done x)
  then show ?case by simp
next
  case (Call ev k)
  then show ?case using cb by fastforce
qed

end
