(* ===== verification/Spinlock.thy ===== *)
theory Spinlock
  imports Prelude
begin

text \<open>
  \<^verbatim>\<open>csi::spinlock\<close> (\<^verbatim>\<open>spinlock.h\<close>, \<^verbatim>\<open>spinlock.cpp\<close>) and what it protects: the static counts
  of connections and call contexts, and the counter of a registered handler. Threads
  interleave at the granularity of one load, one store or one attempt on the lock. The
  lock of Boost underneath is a parameter; \<open>spin_law\<close> is what its documentation
  promises: an attempt succeeds exactly when the lock is free, and leaves it taken.
\<close>

section \<open>The lock\<close>

record 'l spin_ops =
  sl_init :: 'l
  sl_try_lock :: "'l \<Rightarrow> bool \<times> 'l"
  sl_unlock :: "'l \<Rightarrow> 'l"

definition spin_law :: "'l spin_ops \<Rightarrow> bool" where
  "spin_law B \<longleftrightarrow> fst (sl_try_lock B (sl_init B))
     \<and> (\<forall>l. \<not> fst (sl_try_lock B (snd (sl_try_lock B l))))
     \<and> (\<forall>l. fst (sl_try_lock B (sl_unlock B l)))"

definition flag_ops :: "bool spin_ops" where
  "flag_ops = \<lparr>sl_init = False, sl_try_lock = (\<lambda>l. (\<not> l, True)), sl_unlock = (\<lambda>l. False)\<rparr>"

lemma spin_law_flag [simp]: "spin_law flag_ops"
  by (simp add: spin_law_def flag_ops_def)

text \<open>The class hands everything to the lock it holds, which starts as a copy of \<^verbatim>\<open>initializer\<close>.\<close>

definition spinlock_new :: "'l spin_ops \<Rightarrow> 'l" where
  "spinlock_new B = sl_init B"

definition spinlock_try_lock :: "'l spin_ops \<Rightarrow> 'l \<Rightarrow> bool \<times> 'l" where
  "spinlock_try_lock B l = sl_try_lock B l"

text \<open>\<^verbatim>\<open>lock\<close> attempts until it succeeds: \<open>None\<close> when it never does.\<close>

partial_function (option) spinlock_lock :: "'l spin_ops \<Rightarrow> 'l \<Rightarrow> 'l option" where
  "spinlock_lock B l =
     (let a = sl_try_lock B l in if fst a then Some (snd a) else spinlock_lock B (snd a))"

definition spinlock_unlock :: "'l spin_ops \<Rightarrow> 'l \<Rightarrow> 'l" where
  "spinlock_unlock B l = sl_unlock B l"

text \<open>\<^verbatim>\<open>scoped_lock\<close>: lock, run the rest of the block, unlock on the way out.\<close>

definition scoped_lock :: "'l spin_ops \<Rightarrow> ('l \<times> 's \<Rightarrow> ('l \<times> 's) option) \<Rightarrow> 'l \<times> 's \<Rightarrow> ('l \<times> 's) option" where
  "scoped_lock B body x =
     (case spinlock_lock B (fst x) of None \<Rightarrow> None
      | Some l \<Rightarrow> (case body (l, snd x) of None \<Rightarrow> None
                   | Some (l', s) \<Rightarrow> Some (spinlock_unlock B l', s)))"

definition locked :: "'l spin_ops \<Rightarrow> 'l \<Rightarrow> bool" where
  "locked B l \<longleftrightarrow> \<not> fst (sl_try_lock B l)"

lemma spin_lawD:
  assumes "spin_law B"
  shows "\<not> locked B (sl_init B)" and "locked B (snd (sl_try_lock B l))" and "\<not> locked B (sl_unlock B l)"
  using assms by (auto simp: spin_law_def locked_def)

lemma lock_free: "\<not> locked B l \<Longrightarrow> spinlock_lock B l = Some (snd (sl_try_lock B l))"
  by (subst spinlock_lock.simps) (simp add: locked_def)

lemma lock_returns_free:
  assumes "spin_law B" and "spinlock_lock B l = Some l'"
  shows "\<not> locked B l"
proof -
  have "spin_law B \<longrightarrow> \<not> locked B l"
  proof (rule spinlock_lock.raw_induct [OF _ assms(2)], rule impI)
    fix lock :: "'a spin_ops \<Rightarrow> 'a \<Rightarrow> 'a option" and B l l'
    assume IH: "\<And>B l y. lock B l = Some y \<Longrightarrow> spin_law B \<longrightarrow> \<not> locked B l"
      and run: "(let a = sl_try_lock B l in if fst a then Some (snd a) else lock B (snd a)) = Some l'"
      and law: "spin_law B"
    show "\<not> locked B l"
    proof (cases "fst (sl_try_lock B l)")
      case True
      then show ?thesis by (simp add: locked_def)
    next
      case False
      with run have "lock B (snd (sl_try_lock B l)) = Some l'" by (simp add: Let_def)
      with IH law spin_lawD(2) [OF law, of l] show ?thesis by blast
    qed
  qed
  with assms(1) show ?thesis by blast
qed

lemma lock_stuck: "spin_law B \<Longrightarrow> locked B l \<Longrightarrow> spinlock_lock B l = None"
  using lock_returns_free [of B l] by (cases "spinlock_lock B l") auto

text \<open>
  C36. A lock that is free is taken at the first attempt and freed at the end of the block,
  whatever the block computes; a block that takes the same lock again inside never
  returns. A request handler runs under the lock of its registration
  (\<^verbatim>\<open>handler_data::call\<close>), so a handler that leads to a call of its own registration on
  the same thread hangs.
\<close>

theorem scoped_lock_not_reentrant:
  assumes "spin_law B" and "\<not> locked B l"
  shows "scoped_lock B (\<lambda>(l, s). Some (l, f s)) (l, s)
           = Some (spinlock_unlock B (snd (spinlock_try_lock B l)), f s)
    \<and> \<not> locked B (spinlock_unlock B (snd (spinlock_try_lock B l)))
    \<and> scoped_lock B (scoped_lock B body) (l, s) = None"
  using assms lock_free [OF assms(2)] spin_lawD [OF assms(1)] lock_stuck [OF assms(1)]
  by (simp add: scoped_lock_def spinlock_unlock_def spinlock_try_lock_def)

theorem scoped_lock_not_reentrant_witness:
  "scoped_lock flag_ops (\<lambda>(l, s). Some (l, s + 1)) (False, 3 :: nat) = Some (False, 4)
   \<and> scoped_lock flag_ops (scoped_lock flag_ops (\<lambda>(l, s). Some (l, s + 1))) (False, 3 :: nat) = None"
  using scoped_lock_not_reentrant [of flag_ops False "\<lambda>s. s + 1" "3 :: nat" "\<lambda>(l, s). Some (l, s + 1)"]
  by (simp add: locked_def) (simp add: flag_ops_def spinlock_unlock_def)

section \<open>The counts under the lock\<close>

text \<open>
  Constructors count up, destructors count down, each by a load and a store between
  \<^verbatim>\<open>lock\<close> and \<^verbatim>\<open>unlock\<close>. \<open>finished\<close> records the stores made, newest first.
\<close>

datatype count_op = Up | Down

primrec step_count :: "count_op \<Rightarrow> 64 word \<Rightarrow> 64 word" where
  "step_count Up v = v + 1"
| "step_count Down v = v - 1"

datatype pc = Idle | Spinning count_op | Entered count_op | Loaded count_op "64 word" | Stored

record 'l count_state =
  cs_lock :: 'l
  context_count :: "64 word"
  thread :: "nat \<Rightarrow> pc"
  finished :: "count_op list"

definition count_init :: "'l spin_ops \<Rightarrow> 'l count_state" where
  "count_init B = \<lparr>cs_lock = spinlock_new B, context_count = 0, thread = (\<lambda>_. Idle), finished = []\<rparr>"

inductive count_step :: "'l spin_ops \<Rightarrow> 'l count_state \<Rightarrow> 'l count_state \<Rightarrow> bool" for B where
  enter: "thread s i = Idle \<Longrightarrow> count_step B s (s\<lparr>thread := (thread s)(i := Spinning op)\<rparr>)"
| spin: "thread s i = Spinning op \<Longrightarrow> spinlock_try_lock B (cs_lock s) = (False, l) \<Longrightarrow>
     count_step B s (s\<lparr>cs_lock := l\<rparr>)"
| acquire: "thread s i = Spinning op \<Longrightarrow> spinlock_try_lock B (cs_lock s) = (True, l) \<Longrightarrow>
     count_step B s (s\<lparr>cs_lock := l, thread := (thread s)(i := Entered op)\<rparr>)"
| load: "thread s i = Entered op \<Longrightarrow>
     count_step B s (s\<lparr>thread := (thread s)(i := Loaded op (context_count s))\<rparr>)"
| store: "thread s i = Loaded op v \<Longrightarrow>
     count_step B s (s\<lparr>context_count := step_count op v, thread := (thread s)(i := Stored),
                       finished := op # finished s\<rparr>)"
| release: "thread s i = Stored \<Longrightarrow>
     count_step B s (s\<lparr>cs_lock := spinlock_unlock B (cs_lock s), thread := (thread s)(i := Idle)\<rparr>)"

inductive count_reachable :: "'l spin_ops \<Rightarrow> 'l count_state \<Rightarrow> bool" for B where
  init: "count_reachable B (count_init B)"
| step: "count_reachable B s \<Longrightarrow> count_step B s t \<Longrightarrow> count_reachable B t"

fun inside :: "pc \<Rightarrow> bool" where
  "inside Idle = False"
| "inside (Spinning op) = False"
| "inside _ = True"

text \<open>With \<open>w\<close> the thread inside, if any.\<close>

definition owned :: "'l spin_ops \<Rightarrow> nat option \<Rightarrow> 'l count_state \<Rightarrow> bool" where
  "owned B w s \<longleftrightarrow>
     (\<forall>i. inside (thread s i) \<longleftrightarrow> w = Some i) \<and> (locked B (cs_lock s) \<longleftrightarrow> w \<noteq> None)
     \<and> (\<forall>i op v. thread s i = Loaded op v \<longrightarrow> v = context_count s)
     \<and> context_count s = foldr step_count (finished s) 0"

lemma owned_init: "spin_law B \<Longrightarrow> owned B None (count_init B)"
  by (simp add: owned_def count_init_def spinlock_new_def spin_lawD)

lemma owned_inside: "owned B w s \<Longrightarrow> inside (thread s i) \<Longrightarrow> w = Some i"
  by (simp add: owned_def)

lemma owned_other:
  "owned B (Some i) s \<Longrightarrow> j \<noteq> i \<Longrightarrow> thread s j \<noteq> Loaded op v"
  unfolding owned_def by (metis inside.simps(4) option.inject)

lemma owned_step:
  assumes "spin_law B" and "count_step B s t" and "owned B w s"
  shows "\<exists>w'. owned B w' t"
  using assms(2,3)
proof (induction rule: count_step.induct)
  case (enter s i op)
  then have "\<not> inside (thread s i)" by simp
  with enter(2) have "w \<noteq> Some i" unfolding owned_def by blast
  with enter(2) have "owned B w (s\<lparr>thread := (thread s)(i := Spinning op)\<rparr>)"
    by (auto simp: owned_def)
  then show ?case ..
next
  case (spin s i op l)
  then have "locked B (cs_lock s)" "l = snd (sl_try_lock B (cs_lock s))"
    by (simp_all add: locked_def spinlock_try_lock_def)
  with spin spin_lawD(2) [OF assms(1)] have "owned B w (s\<lparr>cs_lock := l\<rparr>)"
    by (auto simp: owned_def)
  then show ?case ..
next
  case (acquire s i op l)
  then have "\<not> locked B (cs_lock s)" and l: "l = snd (sl_try_lock B (cs_lock s))"
    by (simp_all add: locked_def spinlock_try_lock_def)
  with acquire(3) have w: "w = None" by (simp add: owned_def)
  have "owned B (Some i) (s\<lparr>cs_lock := l, thread := (thread s)(i := Entered op)\<rparr>)"
    using acquire(3) l spin_lawD(2) [OF assms(1)] by (auto simp: owned_def w)
  then show ?case ..
next
  case (load s i op)
  then have w: "w = Some i" using owned_inside [of B w s i] by simp
  have "owned B (Some i) (s\<lparr>thread := (thread s)(i := Loaded op (context_count s))\<rparr>)"
    using load(2) by (auto simp: owned_def w)
  then show ?case ..
next
  case (store s i op v)
  then have w: "w = Some i" and v: "v = context_count s"
    using owned_inside [of B w s i] by (auto simp: owned_def)
  have own: "owned B (Some i) s" using store(2) w by simp
  then have other: "thread s j \<noteq> Loaded op' v'" if "j \<noteq> i" for j op' v'
    using owned_other that by blast
  have "inside (((thread s)(i := Stored)) j) \<longleftrightarrow> Some i = Some j" for j
    using own by (simp add: owned_def)
  moreover have "((thread s)(i := Stored)) j \<noteq> Loaded op' v'" for j op' v' using other by simp
  moreover have "locked B (cs_lock s)" "context_count s = foldr step_count (finished s) 0"
    using own by (simp_all add: owned_def)
  ultimately have "owned B (Some i) (s\<lparr>context_count := step_count op v, thread := (thread s)(i := Stored),
      finished := op # finished s\<rparr>)"
    unfolding owned_def v by simp
  then show ?case ..
next
  case (release s i)
  then have w: "w = Some i" using owned_inside [of B w s i] by simp
  have "owned B None (s\<lparr>cs_lock := spinlock_unlock B (cs_lock s), thread := (thread s)(i := Idle)\<rparr>)"
    using release(2) spin_lawD(3) [OF assms(1)] by (auto simp: owned_def w spinlock_unlock_def)
  then show ?case ..
qed

lemma reachable_owned: "count_reachable B s \<Longrightarrow> spin_law B \<Longrightarrow> \<exists>w. owned B w s"
proof (induction rule: count_reachable.induct)
  case init
  then show ?case using owned_init by blast
next
  case (step s t)
  then show ?case using owned_step by blast
qed

lemma foldr_step_count:
  "foldr step_count ops 0 = of_nat (length (filter (\<lambda>x. x = Up) ops)) - of_nat (length (filter (\<lambda>x. x = Down) ops))"
proof (induction ops)
  case (Cons op ops)
  then show ?case by (cases op) simp_all
qed simp

text \<open>Two threads count up at once; one of them has the lock and has loaded the count.\<close>

lemma sample_contention:
  "\<exists>s. count_reachable flag_ops s \<and> thread s 0 = Loaded Up 0 \<and> thread s 1 = Spinning Up"
proof -
  define s1 where "s1 = (count_init flag_ops)\<lparr>thread := (thread (count_init flag_ops))(0 := Spinning Up)\<rparr>"
  define s2 where "s2 = s1\<lparr>thread := (thread s1)(1 := Spinning Up)\<rparr>"
  define s3 where "s3 = s2\<lparr>cs_lock := True, thread := (thread s2)(0 := Entered Up)\<rparr>"
  define s4 where "s4 = s3\<lparr>thread := (thread s3)(0 := Loaded Up (context_count s3))\<rparr>"
  have "count_step flag_ops (count_init flag_ops) s1"
    unfolding s1_def by (rule count_step.enter) (simp add: count_init_def)
  moreover have "count_step flag_ops s1 s2"
    unfolding s2_def by (rule count_step.enter) (simp add: s1_def count_init_def)
  moreover have "count_step flag_ops s2 s3"
    unfolding s3_def
    by (rule count_step.acquire)
      (simp_all add: s2_def s1_def count_init_def spinlock_try_lock_def spinlock_new_def flag_ops_def)
  moreover have "count_step flag_ops s3 s4"
    unfolding s4_def by (rule count_step.load) (simp add: s3_def)
  ultimately have "count_reachable flag_ops s4" by (meson count_reachable.intros)
  moreover have "thread s4 0 = Loaded Up 0" "thread s4 1 = Spinning Up"
    by (simp_all add: s4_def s3_def s2_def s1_def count_init_def)
  ultimately show ?thesis by blast
qed

text \<open>
  C35. However the threads that create and destroy connections interleave, at most one of
  them is between \<^verbatim>\<open>lock\<close> and \<^verbatim>\<open>unlock\<close>, no update is lost, and the count is the number of
  constructions minus the number of destructions, modulo the width of \<^verbatim>\<open>size_t\<close>.
\<close>

theorem context_count_exact:
  assumes "spin_law B" and "count_reachable B s"
  shows "(inside (thread s i) \<and> inside (thread s j) \<longrightarrow> i = j)
    \<and> context_count s = of_nat (length (filter (\<lambda>x. x = Up) (finished s)))
                          - of_nat (length (filter (\<lambda>x. x = Down) (finished s)))"
proof -
  obtain w where w: "owned B w s" using reachable_owned [OF assms(2,1)] by blast
  have "i = j" if "inside (thread s i)" "inside (thread s j)"
    using owned_inside [OF w that(1)] owned_inside [OF w that(2)] by simp
  moreover have "context_count s = foldr step_count (finished s) 0" using w by (simp add: owned_def)
  ultimately show ?thesis unfolding foldr_step_count by blast
qed

theorem context_count_exact_witness:
  "\<exists>s. count_reachable flag_ops s \<and> inside (thread s 0) \<and> \<not> inside (thread s 1)
     \<and> context_count s = of_nat (length (filter (\<lambda>x. x = Up) (finished s)))
                          - of_nat (length (filter (\<lambda>x. x = Down) (finished s)))"
proof -
  obtain s where s: "count_reachable flag_ops s" "thread s 0 = Loaded Up 0" "thread s 1 = Spinning Up"
    using sample_contention by blast
  with context_count_exact [OF spin_law_flag s(1), of 0 1] show ?thesis
    by (intro exI [of _ s]) simp
qed

text \<open>
  The lock is free exactly when no thread is inside, so a spinning thread can always
  take it at its next attempt or waits for a thread that has a step to make: no state is
  a deadlock.
\<close>

theorem spinning_makes_progress:
  assumes "spin_law B" and "count_reachable B s" and "thread s i = Spinning op"
  shows "(\<exists>t. count_step B s t \<and> thread t i = Entered op)
    \<or> (\<exists>j t. inside (thread s j) \<and> count_step B s t \<and> thread t j \<noteq> thread s j)"
proof (cases "locked B (cs_lock s)")
  case False
  then have "spinlock_try_lock B (cs_lock s) = (True, snd (sl_try_lock B (cs_lock s)))"
    by (simp add: locked_def spinlock_try_lock_def prod_eq_iff)
  from count_step.acquire [OF assms(3) this] show ?thesis by fastforce
next
  case True
  with reachable_owned [OF assms(2,1)] obtain j where j: "inside (thread s j)"
    unfolding owned_def by blast
  have "\<exists>t. count_step B s t \<and> thread t j \<noteq> thread s j"
  proof (cases "thread s j")
    case (Entered op')
    with count_step.load [of s j op' B] show ?thesis by fastforce
  next
    case (Loaded op' v)
    with count_step.store [of s j op' v B] show ?thesis by fastforce
  next
    case Stored
    with count_step.release [of s j B] show ?thesis by fastforce
  qed (use j in auto)
  with j show ?thesis by blast
qed

theorem spinning_makes_progress_witness:
  "\<exists>s. count_reachable flag_ops s \<and> thread s 1 = Spinning Up
     \<and> (\<exists>j t. inside (thread s j) \<and> count_step flag_ops s t \<and> thread t j \<noteq> thread s j)"
proof -
  obtain s where s: "count_reachable flag_ops s" "thread s 0 = Loaded Up 0" "thread s 1 = Spinning Up"
    using sample_contention by blast
  have "\<not> (\<exists>t. count_step flag_ops s t \<and> thread t 1 = Entered Up)"
  proof
    assume "\<exists>t. count_step flag_ops s t \<and> thread t 1 = Entered Up"
    then obtain t where t: "count_step flag_ops s t" "thread t 1 = Entered Up" by blast
    obtain w where "owned flag_ops w s" using reachable_owned [OF s(1) spin_law_flag] by blast
    with s(2) have "locked flag_ops (cs_lock s)" using owned_inside [of flag_ops w s 0] by (auto simp: owned_def)
    with t s show False
      by (auto simp: locked_def spinlock_try_lock_def split: if_splits elim!: count_step.cases)
  qed
  with spinning_makes_progress [OF spin_law_flag s(1,3)] s show ?thesis by blast
qed

end
