(* ===== verification/Libraries.thy ===== *)
theory Libraries
  imports Prelude
begin

text \<open>
  The code outside the repository that the program calls, as one record of parameters:
  the string algorithms and the uuid generators of Boost, the in-memory streams of Avro
  and Joyent's \<^verbatim>\<open>http_parser\<close>. Definitions of the later theories take such a record (or
  the one field they use) as an argument. What the documentation of each library
  promises is a predicate on the record (\<open>split_law\<close>, \<open>text_law\<close>, \<open>uuid_law\<close>,
  \<open>avro_law\<close>); theorems that rely on a promise have it as a hypothesis. The theory ends
  with one concrete record that keeps all the promises, on which the witnesses run.
\<close>

section \<open>The parameters\<close>

type_synonym uuid = "128 word"

text \<open>
  The callbacks of \<^verbatim>\<open>http_parser_settings\<close>, each with what the callback reads from its
  arguments and from the parser: the fragment of the input, \<^verbatim>\<open>parser->content_length\<close>
  and \<^verbatim>\<open>parser->method\<close>, and \<^verbatim>\<open>http_should_keep_alive\<close>.
\<close>

datatype parser_event =
    Message_begin
  | Url string
  | Header_field string
  | Header_value string
  | Headers_complete "64 word" nat
  | Body string
  | Message_complete int

text \<open>
  \<^verbatim>\<open>http_parser_url\<close> as far as the program reads it: offset and length of a component
  when its bit is set in \<^verbatim>\<open>field_set\<close>.
\<close>

record url_fields =
  uf_path :: "(nat \<times> nat) option"
  uf_query :: "(nat \<times> nat) option"

record ('os, 'p) libs =
  \<comment> \<open>\<^verbatim>\<open>boost::split(_, s, is_any_of("/"))\<close>\<close>
  lib_split :: "string \<Rightarrow> string list"
  \<comment> \<open>\<^verbatim>\<open>boost::algorithm::to_lower\<close>, \<^verbatim>\<open>boost::iequals\<close>\<close>
  lib_to_lower :: "string \<Rightarrow> string"
  lib_iequals :: "string \<Rightarrow> string \<Rightarrow> bool"
  \<comment> \<open>\<^verbatim>\<open>uuids::string_generator\<close> (\<open>None\<close>: it throws) and \<^verbatim>\<open>to_string(uuid)\<close>\<close>
  lib_uuid_parse :: "string \<Rightarrow> uuid option"
  lib_uuid_show :: "uuid \<Rightarrow> string"
  \<comment> \<open>\<^verbatim>\<open>memoryOutputStream()\<close>, \<^verbatim>\<open>StreamWriter::writeBytes\<close> then \<^verbatim>\<open>flush\<close>, \<^verbatim>\<open>byteCount\<close>,
     and \<^verbatim>\<open>StreamReader::readBytes\<close> on a fresh \<^verbatim>\<open>memoryInputStream\<close> (\<open>None\<close>: it throws)\<close>
  lib_os_new :: "'os"
  lib_os_write :: "'os \<Rightarrow> string \<Rightarrow> 'os"
  lib_os_count :: "'os \<Rightarrow> nat"
  lib_os_read :: "'os \<Rightarrow> nat \<Rightarrow> string option"
  \<comment> \<open>\<^verbatim>\<open>http_parser_parse_url\<close>: the return code and the components\<close>
  lib_parse_url :: "string \<Rightarrow> int \<times> url_fields"
  \<comment> \<open>\<^verbatim>\<open>http_parser_init\<close> and \<^verbatim>\<open>http_parser_execute\<close>: the callbacks made on a block of
     bytes, then the number of bytes parsed\<close>
  lib_parser_init :: "'p"
  lib_execute :: "'p \<Rightarrow> string \<Rightarrow> (parser_event, int, nat \<times> 'p) run"

section \<open>What the libraries promise\<close>

text \<open>
  \<^verbatim>\<open>boost::split\<close> with the default \<^verbatim>\<open>token_compress_off\<close>: the parts contain no separator,
  there is at least one, and joined by the separator they give the string back.
\<close>

fun join_slash :: "string list \<Rightarrow> string" where
  "join_slash [] = []"
| "join_slash [p] = p"
| "join_slash (p # ps) = p @ CHR ''/'' # join_slash ps"

definition split_law :: "(string \<Rightarrow> string list) \<Rightarrow> bool" where
  "split_law split \<longleftrightarrow>
     (\<forall>s. split s \<noteq> [] \<and> join_slash (split s) = s \<and> (\<forall>p \<in> set (split s). CHR ''/'' \<notin> set p))"

definition text_law :: "('os, 'p) libs \<Rightarrow> bool" where
  "text_law L \<longleftrightarrow>
     (\<forall>a b. lib_iequals L a b \<longleftrightarrow> lib_to_lower L a = lib_to_lower L b) \<and>
     (\<forall>a. lib_to_lower L (lib_to_lower L a) = lib_to_lower L a) \<and>
     (\<forall>a. length (lib_to_lower L a) = length a) \<and>
     (\<forall>a. NUL \<in> set (lib_to_lower L a) \<longrightarrow> NUL \<in> set a)"

definition uuid_law :: "('os, 'p) libs \<Rightarrow> bool" where
  "uuid_law L \<longleftrightarrow>
     (\<forall>u. lib_uuid_parse L (lib_uuid_show L u) = Some u \<and> lib_uuid_show L u \<noteq> [])"

text \<open>The bytes a stream holds, as a reader sees them.\<close>

definition os_content :: "('os, 'p) libs \<Rightarrow> 'os \<Rightarrow> string" where
  "os_content L os = (case lib_os_read L os (lib_os_count L os) of Some s \<Rightarrow> s | None \<Rightarrow> [])"

definition avro_law :: "('os, 'p) libs \<Rightarrow> bool" where
  "avro_law L \<longleftrightarrow>
     os_content L (lib_os_new L) = [] \<and>
     (\<forall>os s. os_content L (lib_os_write L os s) = os_content L os @ s) \<and>
     (\<forall>os. lib_os_count L os = length (os_content L os)) \<and>
     (\<forall>os n. lib_os_read L os n =
        (if n \<le> lib_os_count L os then Some (take n (os_content L os)) else None))"

lemma text_lawD:
  assumes "text_law L"
  shows "lib_iequals L a b \<longleftrightarrow> lib_to_lower L a = lib_to_lower L b"
    and "lib_to_lower L (lib_to_lower L a) = lib_to_lower L a"
    and "length (lib_to_lower L a) = length a"
    and "NUL \<in> set (lib_to_lower L a) \<Longrightarrow> NUL \<in> set a"
  using assms by (auto simp: text_law_def)

lemma uuid_lawD:
  assumes "uuid_law L"
  shows "lib_uuid_parse L (lib_uuid_show L u) = Some u" and "lib_uuid_show L u \<noteq> []"
  using assms by (auto simp: uuid_law_def)

lemma avro_lawD:
  assumes "avro_law L"
  shows "os_content L (lib_os_new L) = []"
    and "os_content L (lib_os_write L os s) = os_content L os @ s"
    and "lib_os_count L os = length (os_content L os)"
    and "lib_os_read L os n =
      (if n \<le> length (os_content L os) then Some (take n (os_content L os)) else None)"
  using assms by (auto simp: avro_law_def)

section \<open>Splitting at slashes is determined by its law\<close>

fun split_slash :: "string \<Rightarrow> string list" where
  "split_slash [] = [[]]"
| "split_slash (c # cs) =
     (if c = CHR ''/'' then [] # split_slash cs
      else (case split_slash cs of [] \<Rightarrow> [[c]] | p # ps \<Rightarrow> (c # p) # ps))"

lemma split_slash_neq_Nil [simp]: "split_slash s \<noteq> []"
  by (induction s) (auto split: list.splits)

lemma join_slash_Cons: "ps \<noteq> [] \<Longrightarrow> join_slash (p # ps) = p @ CHR ''/'' # join_slash ps"
  by (cases ps) auto

lemma join_slash_push: "join_slash ((c # p) # ps) = c # join_slash (p # ps)"
  by (cases ps) auto

lemma join_split_slash: "join_slash (split_slash s) = s"
  by (induction s) (auto simp: join_slash_Cons join_slash_push split: list.splits)

lemma slash_notin_split_slash: "p \<in> set (split_slash s) \<Longrightarrow> CHR ''/'' \<notin> set p"
  by (induction s arbitrary: p) (auto split: list.splits if_splits)

lemma split_law_split_slash: "split_law split_slash"
  by (auto simp: split_law_def join_split_slash dest: slash_notin_split_slash)

lemma split_slash_no_slash: "CHR ''/'' \<notin> set p \<Longrightarrow> split_slash p = [p]"
  by (induction p) auto

lemma split_slash_append: "CHR ''/'' \<notin> set p \<Longrightarrow> split_slash (p @ CHR ''/'' # s) = p # split_slash s"
  by (induction p) auto

lemma split_slash_join:
  "ps \<noteq> [] \<Longrightarrow> \<forall>p \<in> set ps. CHR ''/'' \<notin> set p \<Longrightarrow> split_slash (join_slash ps) = ps"
  by (induction ps rule: join_slash.induct) (auto simp: split_slash_no_slash split_slash_append)

text \<open>So a splitter that keeps the promise is this one.\<close>

lemma split_law_unique: "split_law split \<Longrightarrow> split = split_slash"
proof
  fix s
  assume "split_law split"
  then have "split s \<noteq> []" "join_slash (split s) = s" "\<forall>p \<in> set (split s). CHR ''/'' \<notin> set p"
    by (auto simp: split_law_def)
  then show "split s = split_slash s"
    using split_slash_join [of "split s"] by simp
qed

section \<open>A record that keeps the promises\<close>

text \<open>
  Strings are their own streams; the parser is a script: each call of
  \<^verbatim>\<open>http_parser_execute\<close> makes the next list of callbacks and reports the next count.
\<close>

type_synonym script = "(parser_event list \<times> nat) list"

fun script_execute :: "script \<Rightarrow> string \<Rightarrow> (parser_event, int, nat \<times> script) run" where
  "script_execute [] s = Done (0, [])"
| "script_execute ((evs, n) # rest) s = calls evs (n, rest)"

definition ascii_pairs :: "(char \<times> char) list" where
  "ascii_pairs = zip ''ABCDEFGHIJKLMNOPQRSTUVWXYZ'' ''abcdefghijklmnopqrstuvwxyz''"

definition ascii_lower :: "char \<Rightarrow> char" where
  "ascii_lower c = (case map_of ascii_pairs c of Some l \<Rightarrow> l | None \<Rightarrow> c)"

definition ref_libs :: "script \<Rightarrow> (string, script) libs" where
  "ref_libs p =
     \<lparr>lib_split = split_slash,
      lib_to_lower = map ascii_lower,
      lib_iequals = (\<lambda>a b. map ascii_lower a = map ascii_lower b),
      lib_uuid_parse = (\<lambda>s. case s of [] \<Rightarrow> None
         | c # ds \<Rightarrow> if c = CHR ''u'' then map_option word_of_nat (read_nat ds) else None),
      lib_uuid_show = (\<lambda>u. CHR ''u'' # show_nat (unat u)),
      lib_os_new = [],
      lib_os_write = (@),
      lib_os_count = length,
      lib_os_read = (\<lambda>os n. if n \<le> length os then Some (take n os) else None),
      lib_parse_url = (\<lambda>s. (0, \<lparr>uf_path = Some (0, length s), uf_query = None\<rparr>)),
      lib_parser_init = p,
      lib_execute = script_execute\<rparr>"

lemma ascii_lower_lower: "list_all (\<lambda>p. ascii_lower (snd p) = snd p) ascii_pairs"
  by code_simp

lemma ascii_lower_idem [simp]: "ascii_lower (ascii_lower c) = ascii_lower c"
proof (cases "map_of ascii_pairs c")
  case None
  then show ?thesis by (simp add: ascii_lower_def)
next
  case (Some l)
  then have "(c, l) \<in> set ascii_pairs" by (rule map_of_SomeD)
  with ascii_lower_lower have "ascii_lower l = l" by (auto simp: list_all_iff)
  with Some show ?thesis by (simp add: ascii_lower_def)
qed

lemma ascii_lower_NUL: "ascii_lower c = NUL \<Longrightarrow> c = NUL"
proof (cases "map_of ascii_pairs c")
  case (Some l)
  moreover have "list_all (\<lambda>p. snd p \<noteq> NUL) ascii_pairs" by code_simp
  moreover assume "ascii_lower c = NUL"
  ultimately show ?thesis
    by (auto simp: ascii_lower_def list_all_iff dest!: map_of_SomeD)
qed (simp add: ascii_lower_def)

lemma text_law_ref_libs [simp]: "text_law (ref_libs p)"
  by (auto simp: text_law_def ref_libs_def dest: ascii_lower_NUL [OF sym])

lemma uuid_law_ref_libs [simp]: "uuid_law (ref_libs p)"
  by (simp add: uuid_law_def ref_libs_def)

lemma os_content_ref_libs [simp]: "os_content (ref_libs p) os = os"
  by (simp add: os_content_def ref_libs_def)

lemma avro_law_ref_libs [simp]: "avro_law (ref_libs p)"
  by (simp add: avro_law_def) (simp add: ref_libs_def)

lemma split_law_ref_libs [simp]: "split_law (lib_split (ref_libs p))"
  by (simp add: ref_libs_def split_law_split_slash)

end
