(* ===== verification/Http_Types.thy ===== *)
theory Http_Types
  imports Prelude
begin

text \<open>
  The enumerations of \<^verbatim>\<open>csi_http.h\<close> (status codes and methods), their printers of
  \<^verbatim>\<open>csi_http.cpp\<close>, the printer of an endpoint, and \<^verbatim>\<open>header_t\<close>. An enumeration of C++
  holds values outside its enumerators after a cast, as \<^verbatim>\<open>(status_type) http_result\<close> in
  the client and \<^verbatim>\<open>(method_t) parser->method\<close> in the server: \<open>other_status\<close> and
  \<open>other_method\<close> carry those.
\<close>

section \<open>Status codes\<close>

datatype status_type =
    undefined_status
  | continue_with_request | switching_protocols | processing | checkpoint | uri_to_long
  | ok | created | accepted | processed_non_authorative | no_content | reset_content
  | partial_content | multi_status | already_reported | im_used
  | multiple_choices | moved_permanently | moved_temporarily | see_other | not_modified
  | use_proxy | switch_proxy | temporary_redirect | resume_incomplete
  | bad_request | unauthorized | forbidden | not_found | precondition_failed
  | internal_server_error | not_implemented | bad_gateway | service_unavailable
  | other_status int

primrec status_code :: "status_type \<Rightarrow> int" where
  "status_code undefined_status = 0"
| "status_code continue_with_request = 100"
| "status_code switching_protocols = 101"
| "status_code processing = 102"
| "status_code checkpoint = 103"
| "status_code uri_to_long = 122"
| "status_code ok = 200"
| "status_code created = 201"
| "status_code accepted = 202"
| "status_code processed_non_authorative = 203"
| "status_code no_content = 204"
| "status_code reset_content = 205"
| "status_code partial_content = 206"
| "status_code multi_status = 207"
| "status_code already_reported = 208"
| "status_code im_used = 226"
| "status_code multiple_choices = 300"
| "status_code moved_permanently = 301"
| "status_code moved_temporarily = 302"
| "status_code see_other = 303"
| "status_code not_modified = 304"
| "status_code use_proxy = 305"
| "status_code switch_proxy = 306"
| "status_code temporary_redirect = 307"
| "status_code resume_incomplete = 308"
| "status_code bad_request = 400"
| "status_code unauthorized = 401"
| "status_code forbidden = 403"
| "status_code not_found = 404"
| "status_code precondition_failed = 412"
| "status_code internal_server_error = 500"
| "status_code not_implemented = 501"
| "status_code bad_gateway = 502"
| "status_code service_unavailable = 503"
| "status_code (other_status n) = n"

definition status_enumerators :: "status_type list" where
  "status_enumerators =
    [undefined_status, continue_with_request, switching_protocols, processing, checkpoint,
     uri_to_long, ok, created, accepted, processed_non_authorative, no_content,
     reset_content, partial_content, multi_status, already_reported, im_used,
     multiple_choices, moved_permanently, moved_temporarily, see_other, not_modified,
     use_proxy, switch_proxy, temporary_redirect, resume_incomplete, bad_request,
     unauthorized, forbidden, not_found, precondition_failed, internal_server_error,
     not_implemented, bad_gateway, service_unavailable]"

text \<open>The cast of an integer to the enumeration.\<close>

definition status_of_code :: "int \<Rightarrow> status_type" where
  "status_of_code n =
     (case find (\<lambda>s. status_code s = n) status_enumerators of
        Some s \<Rightarrow> s | None \<Rightarrow> other_status n)"

text \<open>A value is canonical when it does not spell an enumerator by its number.\<close>

definition canonical_status :: "status_type \<Rightarrow> bool" where
  "canonical_status s \<longleftrightarrow>
     (\<forall>n. s = other_status n \<longrightarrow> n \<notin> set (map status_code status_enumerators))"

lemma status_code_of_code: "status_code (status_of_code n) = n"
  by (auto simp: status_of_code_def find_Some_iff split: option.split)

lemma other_status_notin_enumerators [simp]: "other_status n \<notin> set status_enumerators"
  by (simp add: status_enumerators_def)

lemma status_of_code_canonical: "canonical_status (status_of_code n)"
proof (cases "find (\<lambda>s. status_code s = n) status_enumerators")
  case None
  then have "\<forall>s \<in> set status_enumerators. status_code s \<noteq> n" by (simp add: find_None_iff)
  with None show ?thesis by (auto simp: status_of_code_def canonical_status_def)
next
  case (Some s)
  then have "s \<in> set status_enumerators" by (auto simp: find_Some_iff)
  with Some show ?thesis by (auto simp: status_of_code_def canonical_status_def)
qed

lemma status_of_code_of_status: "canonical_status s \<Longrightarrow> status_of_code (status_code s) = s"
proof (cases s)
  case (other_status n)
  assume "canonical_status s"
  with other_status have "find (\<lambda>s. status_code s = n) status_enumerators = None"
    by (auto simp: canonical_status_def find_None_iff)
  with other_status show ?thesis by (simp add: status_of_code_def)
qed (simp_all add: status_of_code_def status_enumerators_def)

text \<open>\<^verbatim>\<open>to_string(status_type)\<close>: a name for seventeen of them, the number for the rest.\<close>

fun status_to_string :: "status_type \<Rightarrow> string" where
  "status_to_string ok = ''ok''"
| "status_to_string created = ''created''"
| "status_to_string accepted = ''accepted''"
| "status_to_string no_content = ''no_content''"
| "status_to_string multiple_choices = ''multiple_choices''"
| "status_to_string moved_permanently = ''moved_permanently''"
| "status_to_string moved_temporarily = ''moved_temporarily''"
| "status_to_string not_modified = ''not_modified''"
| "status_to_string bad_request = ''bad_request''"
| "status_to_string unauthorized = ''unauthorized''"
| "status_to_string forbidden = ''forbidden''"
| "status_to_string not_found = ''not_found''"
| "status_to_string precondition_failed = ''precondition_failed''"
| "status_to_string internal_server_error = ''internal_server_error''"
| "status_to_string not_implemented = ''not_implemented''"
| "status_to_string bad_gateway = ''bad_gateway''"
| "status_to_string service_unavailable = ''service_unavailable''"
| "status_to_string s = show_int (status_code s)"

section \<open>Methods\<close>

datatype method_t =
    DELETE_method | GET | HEAD | POST | PUT
  | CONNECT | OPTIONS | TRACE
  | COPY | LOCK | MKCOL | MOVE | PROPFIND | PROPPATCH | SEARCH | UNLOCK
  | REPORT | MKACTIVITY | CHECKOUT | MERGE
  | MSEARCH | NOTIFY | SUBSCRIBE | UNSUBSCRIBE
  | PATCH | PURGE
  | other_method nat

primrec method_code :: "method_t \<Rightarrow> nat" where
  "method_code DELETE_method = 0"
| "method_code GET = 1"
| "method_code HEAD = 2"
| "method_code POST = 3"
| "method_code PUT = 4"
| "method_code CONNECT = 5"
| "method_code OPTIONS = 6"
| "method_code TRACE = 7"
| "method_code COPY = 8"
| "method_code LOCK = 9"
| "method_code MKCOL = 10"
| "method_code MOVE = 11"
| "method_code PROPFIND = 12"
| "method_code PROPPATCH = 13"
| "method_code SEARCH = 14"
| "method_code UNLOCK = 15"
| "method_code REPORT = 16"
| "method_code MKACTIVITY = 17"
| "method_code CHECKOUT = 18"
| "method_code MERGE = 19"
| "method_code MSEARCH = 20"
| "method_code NOTIFY = 21"
| "method_code SUBSCRIBE = 22"
| "method_code UNSUBSCRIBE = 23"
| "method_code PATCH = 24"
| "method_code PURGE = 25"
| "method_code (other_method n) = n"

definition method_enumerators :: "method_t list" where
  "method_enumerators =
    [DELETE_method, GET, HEAD, POST, PUT,
     CONNECT, OPTIONS, TRACE,
     COPY, LOCK, MKCOL, MOVE, PROPFIND, PROPPATCH, SEARCH, UNLOCK,
     REPORT, MKACTIVITY, CHECKOUT, MERGE,
     MSEARCH, NOTIFY, SUBSCRIBE, UNSUBSCRIBE,
     PATCH, PURGE]"

definition method_of_code :: "nat \<Rightarrow> method_t" where
  "method_of_code n =
     (if n < length method_enumerators then method_enumerators ! n else other_method n)"

definition method_strings :: "string list" where
  "method_strings =
    [''DELETE'', ''GET'', ''HEAD'', ''POST'', ''PUT'',
     ''CONNECT'', ''OPTIONS'', ''TRACE'',
     ''COPY'', ''LOCK'', ''MKCOL'', ''MOVE'', ''PROPFIND'', ''PROPPATCH'', ''SEARCH'', ''UNLOCK'',
     ''REPORT'', ''MKACTIVITY'', ''CHECKOUT'', ''MERGE'',
     ''MSEARCH'', ''NOTIFY'', ''SUBSCRIBE'', ''UNSUBSCRIBE'',
     ''PATCH'', ''PURGE'']"

text \<open>\<^verbatim>\<open>to_string(method_t)\<close> indexes the table with the enumeration value, unchecked.\<close>

definition method_to_string :: "method_t \<Rightarrow> string res" where
  "method_to_string e = vec_at method_strings (method_code e)"

lemma length_method_strings [simp]: "length method_strings = 26"
  by (simp add: method_strings_def)

lemma length_method_enumerators [simp]: "length method_enumerators = 26"
  by (simp add: method_enumerators_def)

lemma distinct_method_strings: "distinct method_strings"
  by (simp add: method_strings_def)

lemma map_method_code_enumerators: "map method_code method_enumerators = [0..<26]"
  by (simp add: method_enumerators_def upt_rec)

lemma method_code_enumerator: "n < 26 \<Longrightarrow> method_code (method_enumerators ! n) = n"
  using arg_cong [OF map_method_code_enumerators, of "\<lambda>xs. xs ! n"] by simp

lemma method_code_of_code: "method_code (method_of_code n) = n"
  by (simp add: method_of_code_def method_code_enumerator)

lemma method_of_code_POST: "method_of_code 3 = POST"
  by code_simp

lemma method_to_string_of_code:
  "method_to_string (method_of_code n) =
     (if n < 26 then Inr (method_strings ! n) else Inl Out_of_bounds)"
  by (simp add: method_to_string_def method_code_of_code vec_at_def)

section \<open>Endpoints and headers\<close>

text \<open>
  \<^verbatim>\<open>to_string(tcp::endpoint)\<close>: the address as the library prints it, a colon and the
  port. The \<^verbatim>\<open>sprintf\<close> writes into 32 characters; a port takes at most five digits.
\<close>

definition endpoint_to_string :: "string \<times> 16 word \<Rightarrow> string" where
  "endpoint_to_string ep = fst ep @ '':'' @ show_nat (unat (snd ep))"

record header_t =
  name :: string
  val :: string

abbreviation empty_header :: header_t where
  "empty_header \<equiv> \<lparr>name = [], val = []\<rparr>"

end
