(* ===== verification/Request.thy ===== *)
theory Request
  imports Libraries Http_Types
begin

text \<open>
  \<^verbatim>\<open>csi::http::request_t\<close> (\<^verbatim>\<open>server/request.h\<close>, \<^verbatim>\<open>server/request.cpp\<close>): the state of one
  request, the lookup of a header, and the two lazily computed identifications of a
  request, \<^verbatim>\<open>request_id\<close> (a string) and \<^verbatim>\<open>request_uuid\<close>. Both update \<^verbatim>\<open>mutable\<close> members, so
  they return the request too; the value the random generator would produce is the
  argument \<open>rnd\<close>.
\<close>

section \<open>The code\<close>

text \<open>\<^verbatim>\<open>_method\<close> is written by no constructor and not by \<^verbatim>\<open>reset\<close>: \<open>None\<close> until headers arrive.\<close>

record 'os request_t =
  r_method :: "method_t option"
  r_url :: string
  r_query :: string
  r_id :: string
  r_uuid :: uuid
  r_headers :: "header_t list"
  r_content_length :: "64 word"
  r_rx :: 'os

definition request_reset :: "('os, 'p) libs \<Rightarrow> 'os request_t \<Rightarrow> 'os request_t" where
  "request_reset L r =
     r\<lparr>r_uuid := 0, r_id := [], r_content_length := 0, r_url := [], r_query := [],
       r_headers := [], r_rx := lib_os_new L\<rparr>"

definition request_new :: "('os, 'p) libs \<Rightarrow> 'os request_t" where
  "request_new L =
     \<lparr>r_method = None, r_url = [], r_query = [], r_id = [], r_uuid = 0, r_headers = [],
      r_content_length = 0, r_rx = lib_os_new L\<rparr>"

definition request_content_length :: "('os, 'p) libs \<Rightarrow> 'os request_t \<Rightarrow> nat res" where
  "request_content_length L r =
     (if r_content_length r > 0 \<and> lib_os_count L (r_rx r) \<noteq> unat (r_content_length r)
      then Inl Assertion else Inr (lib_os_count L (r_rx r)))"

fun find_header :: "('os, 'p) libs \<Rightarrow> string \<Rightarrow> header_t list \<Rightarrow> string" where
  "find_header L h [] = []"
| "find_header L h (i # is) = (if lib_iequals L h (name i) then val i else find_header L h is)"

definition get_header :: "('os, 'p) libs \<Rightarrow> string \<Rightarrow> 'os request_t \<Rightarrow> string" where
  "get_header L h r = find_header L h (r_headers r)"

definition request_id ::
  "('os, 'p) libs \<Rightarrow> uuid \<Rightarrow> string \<Rightarrow> 'os request_t \<Rightarrow> string \<times> 'os request_t" where
  "request_id L rnd request_id_header r =
     (if r_id r \<noteq> [] then (r_id r, r)
      else
        let r1 = r\<lparr>r_id := get_header L request_id_header r\<rparr> in
        if r_id r1 \<noteq> [] then
          (case lib_uuid_parse L (r_id r1) of
             Some u \<Rightarrow> (r_id r1, r1\<lparr>r_uuid := u\<rparr>)
           | None \<Rightarrow> (r_id r1, r1\<lparr>r_uuid := 0\<rparr>))
        else
          let r2 = r1\<lparr>r_uuid := rnd\<rparr>; r3 = r2\<lparr>r_id := lib_uuid_show L (r_uuid r2)\<rparr>
          in (r_id r3, r3))"

definition request_uuid ::
  "('os, 'p) libs \<Rightarrow> uuid \<Rightarrow> string \<Rightarrow> 'os request_t \<Rightarrow> uuid \<times> 'os request_t" where
  "request_uuid L rnd request_id_header r =
     (if r_uuid r \<noteq> 0 then (r_uuid r, r)
      else
        let r1 = r\<lparr>r_id := get_header L request_id_header r\<rparr>;
            fresh = r1\<lparr>r_uuid := rnd, r_id := lib_uuid_show L rnd\<rparr> in
        if r_id r1 \<noteq> [] then
          (case lib_uuid_parse L (r_id r1) of
             Some u \<Rightarrow> (u, r1\<lparr>r_uuid := u\<rparr>)
           | None \<Rightarrow> (rnd, fresh))
        else (rnd, fresh))"

text \<open>The name both use when the caller gives none, as every caller in the program does.\<close>

definition default_request_id_header :: string where
  "default_request_id_header = ''request_id''"

section \<open>Identification\<close>

text \<open>A uuid that is set is the one the identification string spells.\<close>

definition id_consistent :: "('os, 'p) libs \<Rightarrow> 'os request_t \<Rightarrow> bool" where
  "id_consistent L r \<longleftrightarrow> (r_uuid r \<noteq> 0 \<longrightarrow> lib_uuid_parse L (r_id r) = Some (r_uuid r))"

lemma id_consistent_reset [simp]: "id_consistent L (request_reset L r)"
  by (simp add: id_consistent_def request_reset_def)

lemma id_consistent_new [simp]: "id_consistent L (request_new L)"
  by (simp add: id_consistent_def request_new_def)

lemma find_header_lower:
  "text_law L \<Longrightarrow> find_header L (lib_to_lower L h) hs = find_header L h hs"
  by (induction hs) (simp_all add: text_lawD)

lemma find_header_case_insensitive:
  "text_law L \<Longrightarrow> lib_to_lower L h = lib_to_lower L h' \<Longrightarrow> find_header L h hs = find_header L h' hs"
  by (induction hs) (simp_all add: text_lawD)

lemma request_id_nonempty:
  "uuid_law L \<Longrightarrow> fst (request_id L rnd h r) \<noteq> []"
  by (auto simp: request_id_def Let_def uuid_lawD split: option.split)

lemma request_id_stored: "r_id (snd (request_id L rnd h r)) = fst (request_id L rnd h r)"
  by (auto simp: request_id_def Let_def split: option.split)

lemma request_id_stable: "r_id r \<noteq> [] \<Longrightarrow> request_id L rnd h r = (r_id r, r)"
  by (simp add: request_id_def)

lemma request_id_consistent:
  "uuid_law L \<Longrightarrow> id_consistent L r \<Longrightarrow> id_consistent L (snd (request_id L rnd h r))"
  by (auto simp: request_id_def Let_def id_consistent_def uuid_lawD split: option.split)

text \<open>Neither touches anything but the identification.\<close>

lemma request_id_frame [simp]:
  "r_method (snd (request_id L rnd h r)) = r_method r"
  "r_url (snd (request_id L rnd h r)) = r_url r"
  "r_query (snd (request_id L rnd h r)) = r_query r"
  "r_headers (snd (request_id L rnd h r)) = r_headers r"
  "r_content_length (snd (request_id L rnd h r)) = r_content_length r"
  "r_rx (snd (request_id L rnd h r)) = r_rx r"
  by (auto simp: request_id_def Let_def split: option.split)

lemma request_uuid_frame [simp]:
  "r_method (snd (request_uuid L rnd h r)) = r_method r"
  "r_url (snd (request_uuid L rnd h r)) = r_url r"
  "r_query (snd (request_uuid L rnd h r)) = r_query r"
  "r_headers (snd (request_uuid L rnd h r)) = r_headers r"
  "r_content_length (snd (request_uuid L rnd h r)) = r_content_length r"
  "r_rx (snd (request_uuid L rnd h r)) = r_rx r"
  by (auto simp: request_uuid_def Let_def split: option.split)

lemma request_uuid_parses:
  "uuid_law L \<Longrightarrow> id_consistent L r \<Longrightarrow>
   lib_uuid_parse L (r_id (snd (request_uuid L rnd h r))) = Some (fst (request_uuid L rnd h r))"
  by (auto simp: request_uuid_def Let_def id_consistent_def uuid_lawD split: option.split)

lemma request_uuid_stored: "r_uuid (snd (request_uuid L rnd h r)) = fst (request_uuid L rnd h r)"
  by (auto simp: request_uuid_def Let_def split: option.split)

section \<open>Properties\<close>

text \<open>
  \<^verbatim>\<open>request_id\<close> settles the identification of a request: whatever header name and
  random value later calls are given, they return the same non-empty string and change
  nothing. The string is the client's header when there is one, and the print of the
  random uuid when there is none; the uuid stays consistent with it.
\<close>

theorem request_id_settles:
  assumes "uuid_law L" and "id_consistent L r" and "r_id r = []"
    and "request_id L rnd h r = (i, r')"
  shows "i \<noteq> [] \<and> i = (if get_header L h r \<noteq> [] then get_header L h r else lib_uuid_show L rnd)
       \<and> request_id L rnd' h' r' = (i, r') \<and> id_consistent L r'"
proof -
  have r': "r' = snd (request_id L rnd h r)" and i: "i = fst (request_id L rnd h r)"
    using assms(4) by simp_all
  have "i \<noteq> []" unfolding i using assms(1) by (rule request_id_nonempty)
  moreover have "r_id r' = i" unfolding r' i by (rule request_id_stored)
  moreover have "id_consistent L r'"
    unfolding r' using assms(1,2) by (rule request_id_consistent)
  moreover have "i = (if get_header L h r \<noteq> [] then get_header L h r else lib_uuid_show L rnd)"
    using assms(3) unfolding i
    by (auto simp: request_id_def Let_def split: option.split)
  ultimately show ?thesis by (simp add: request_id_stable)
qed

theorem request_id_settles_witness:
  "let L = ref_libs []; r = (request_new L)\<lparr>r_headers := [\<lparr>name = ''request_id'', val = ''abc''\<rparr>]\<rparr>;
       r' = r\<lparr>r_id := ''abc'', r_uuid := 0\<rparr>
   in request_id L 5 ''Request_ID'' r = (''abc'', r') \<and> request_id L 6 ''x'' r' = (''abc'', r')"
proof -
  define L where "L = ref_libs []"
  define r where "r = (request_new L)\<lparr>r_headers := [\<lparr>name = ''request_id'', val = ''abc''\<rparr>]\<rparr>"
  define r' where "r' = r\<lparr>r_id := ''abc'', r_uuid := 0\<rparr>"
  have 1: "request_id L 5 ''Request_ID'' r = (''abc'', r')"
    by (simp add: L_def r_def r'_def request_id_def get_header_def ref_libs_def request_new_def
        ascii_lower_def ascii_pairs_def)
  have "id_consistent L r" and "r_id r = []"
    by (simp_all add: r_def id_consistent_def request_new_def)
  from request_id_settles [OF _ this 1, of 6 "''x''"] 1 show ?thesis
    by (simp add: L_def [symmetric] r_def [symmetric] r'_def [symmetric] Let_def)
      (simp add: L_def)
qed

text \<open>
  After \<^verbatim>\<open>request_uuid\<close> the identification string spells the uuid it returned, also
  when the client had sent a string that is no uuid, which is then replaced; the string
  \<^verbatim>\<open>request_id\<close> returns afterwards is that spelling, and a second call of
  \<^verbatim>\<open>request_uuid\<close> on a uuid that is not nil returns it again.
\<close>

theorem request_uuid_forces_uuid:
  assumes "uuid_law L" and "id_consistent L r"
    and "request_uuid L rnd h r = (u, r')" and "lib_uuid_parse L [] = None"
  shows "lib_uuid_parse L (fst (request_id L rnd' h' r')) = Some u
       \<and> (u \<noteq> 0 \<longrightarrow> request_uuid L rnd' h' r' = (u, r')) \<and> id_consistent L r'"
proof -
  have r': "r' = snd (request_uuid L rnd h r)" and u: "u = fst (request_uuid L rnd h r)"
    using assms(3) by simp_all
  have spells: "lib_uuid_parse L (r_id r') = Some u"
    unfolding r' u using assms(1,2) by (rule request_uuid_parses)
  have stored: "r_uuid r' = u" unfolding r' u by (rule request_uuid_stored)
  from spells assms(4) have "r_id r' \<noteq> []" by auto
  with spells stored show ?thesis
    by (simp add: request_id_stable id_consistent_def request_uuid_def)
qed

theorem request_uuid_forces_uuid_witness:
  "let L = ref_libs []; r = (request_new L)\<lparr>r_headers := [\<lparr>name = ''request_id'', val = ''abc''\<rparr>]\<rparr>
   in lib_uuid_parse L (fst (request_id L 6 ''x'' (snd (request_uuid L 5 ''request_id'' r)))) = Some 5"
proof -
  define L where "L = ref_libs []"
  define r where "r = (request_new L)\<lparr>r_headers := [\<lparr>name = ''request_id'', val = ''abc''\<rparr>]\<rparr>"
  have "id_consistent L r" by (simp add: r_def id_consistent_def request_new_def)
  moreover have "uuid_law L" "lib_uuid_parse L [] = None" by (simp_all add: L_def) (simp add: ref_libs_def)
  moreover have "request_uuid L 5 ''request_id'' r = (5, snd (request_uuid L 5 ''request_id'' r))"
    by (simp add: L_def r_def request_uuid_def get_header_def ref_libs_def request_new_def Let_def)
  ultimately show ?thesis
    using request_uuid_forces_uuid [of L r 5 "''request_id''" 5 _ 6 "''x''"]
    by (simp add: L_def [symmetric] r_def [symmetric] Let_def)
qed

end
