(* ===== verification/Reply.thy ===== *)
theory Reply
  imports Libraries Http_Types
begin

text \<open>
  \<^verbatim>\<open>csi::http::reply_t\<close> (\<^verbatim>\<open>server/reply.h\<close>, \<^verbatim>\<open>server/reply.cpp\<close>): building a reply and turning
  it into the buffers that go on the wire; a reader of such messages, and the proof that
  it recovers status line, headers and content.
\<close>

section \<open>Status lines and stock replies\<close>

definition http_version_v1_1 :: string where "http_version_v1_1 = ''HTTP/1.1 ''"

fun status_buffer :: "status_type \<Rightarrow> string" where
  "status_buffer ok = ''200 OK'' @ crlf"
| "status_buffer created = ''201 Created'' @ crlf"
| "status_buffer accepted = ''202 Accepted'' @ crlf"
| "status_buffer no_content = ''204 No Content'' @ crlf"
| "status_buffer multiple_choices = ''300 Multiple Choices'' @ crlf"
| "status_buffer moved_permanently = ''301 Moved Permanently'' @ crlf"
| "status_buffer moved_temporarily = ''302 Moved Temporarily'' @ crlf"
| "status_buffer not_modified = ''304 Not Modified'' @ crlf"
| "status_buffer bad_request = ''400 Bad Request'' @ crlf"
| "status_buffer unauthorized = ''401 Unauthorized'' @ crlf"
| "status_buffer forbidden = ''403 Forbidden'' @ crlf"
| "status_buffer not_found = ''404 Not Found'' @ crlf"
| "status_buffer precondition_failed = ''412 Precondition Failed'' @ crlf"
| "status_buffer internal_server_error = ''500 Internal Server Error'' @ crlf"
| "status_buffer not_implemented = ''501 Not Implemented'' @ crlf"
| "status_buffer bad_gateway = ''502 Bad Gateway'' @ crlf"
| "status_buffer service_unavailable = ''503 Service Unavailable'' @ crlf"
| "status_buffer s = ''500 Internal Server Error'' @ crlf"

text \<open>\<^verbatim>\<open>stock_replies\<close>; the only caller is commented out.\<close>

definition stock_page :: "string \<Rightarrow> string \<Rightarrow> string" where
  "stock_page title line =
     ''<html>'' @ ''<head><title>'' @ title @ ''</title></head>''
     @ ''<body><h1>'' @ line @ ''</h1></body>'' @ ''</html>''"

fun stock_reply :: "status_type \<Rightarrow> string" where
  "stock_reply ok = ''''"
| "stock_reply created = stock_page ''Created'' ''201 Created''"
| "stock_reply accepted = stock_page ''Accepted'' ''202 Accepted''"
| "stock_reply no_content = stock_page ''No Content'' ''204 Content''"
| "stock_reply multiple_choices = stock_page ''Multiple Choices'' ''300 Multiple Choices''"
| "stock_reply moved_permanently = stock_page ''Moved Permanently'' ''301 Moved Permanently''"
| "stock_reply moved_temporarily = stock_page ''Moved Temporarily'' ''302 Moved Temporarily''"
| "stock_reply not_modified = stock_page ''Not Modified'' ''304 Not Modified''"
| "stock_reply bad_request = stock_page ''Bad Request'' ''400 Bad Request''"
| "stock_reply unauthorized = stock_page ''Unauthorized'' ''401 Unauthorized''"
| "stock_reply forbidden = stock_page ''Forbidden'' ''403 Forbidden''"
| "stock_reply not_found = stock_page ''Not Found'' ''404 Not Found''"
| "stock_reply precondition_failed = stock_page ''Precondition Failed'' ''412 Precondition Failed''"
| "stock_reply internal_server_error = stock_page ''Internal Server Error'' ''500 Internal Server Error''"
| "stock_reply not_implemented = stock_page ''Not Implemented'' ''501 Not Implemented''"
| "stock_reply bad_gateway = stock_page ''Bad Gateway'' ''502 Bad Gateway''"
| "stock_reply service_unavailable = stock_page ''Service Unavailable'' ''503 Service Unavailable''"
| "stock_reply s = stock_page ''Internal Server Error'' ''500 Internal Server Error''"

section \<open>reply_t\<close>

text \<open>
  No constructor initialises the members: both buffers start as empty pointers and the
  status has no value.
\<close>

record 'os reply_t =
  p_headers :: "header_t list"
  p_avro_tx :: "'os option"
  p_boost_tx :: "string option"
  p_status :: "status_type option"

definition reply_new :: "'os reply_t" where
  "reply_new = \<lparr>p_headers = [], p_avro_tx = None, p_boost_tx = None, p_status = None\<rparr>"

definition reply_status :: "'os reply_t \<Rightarrow> status_type res" where
  "reply_status r = initialised (p_status r)"

definition reply_content_length :: "('os, 'p) libs \<Rightarrow> 'os reply_t \<Rightarrow> nat res" where
  "reply_content_length L r = bindE (deref (p_avro_tx r)) (\<lambda>os. Inr (lib_os_count L os))"

text \<open>What a handler does to the stream \<^verbatim>\<open>content()\<close> hands out: append bytes and flush.\<close>

definition reply_content_write :: "('os, 'p) libs \<Rightarrow> string \<Rightarrow> 'os reply_t \<Rightarrow> 'os reply_t res" where
  "reply_content_write L s r =
     bindE (deref (p_avro_tx r)) (\<lambda>os. Inr (r\<lparr>p_avro_tx := Some (lib_os_write L os s)\<rparr>))"

definition reply_create ::
  "('os, 'p) libs \<Rightarrow> status_type \<Rightarrow> string \<Rightarrow> nat \<Rightarrow> 'os reply_t \<Rightarrow> 'os reply_t res" where
  "reply_create L s content_type extra_headers r =
     (let r = r\<lparr>p_status := Some s\<rparr> in
      bindE (reply_content_length L r) (\<lambda>sz.
        if sz = 0 then
          (let hs = vec_resize empty_header (1 + extra_headers) (p_headers r) in
           Inr (r\<lparr>p_headers := hs[extra_headers + 0 := \<lparr>name = ''Content-Length'', val = ''0''\<rparr>]\<rparr>))
        else
          (let content_length = show_int (c_int sz);
               hs = vec_resize empty_header (2 + extra_headers) (p_headers r) in
           Inr (r\<lparr>p_headers := hs[extra_headers + 0 := \<lparr>name = ''Content-Length'', val = content_length\<rparr>,
                                  extra_headers + 1 := \<lparr>name = ''Content-Type'', val = content_type\<rparr>]\<rparr>))))"

definition default_content_type :: string where "default_content_type = ''text/html''"

definition reply_add :: "header_t \<Rightarrow> 'os reply_t \<Rightarrow> 'os reply_t" where
  "reply_add h r = r\<lparr>p_headers := p_headers r @ [h]\<rparr>"

definition reply_reset :: "('os, 'p) libs \<Rightarrow> 'os reply_t \<Rightarrow> 'os reply_t" where
  "reply_reset L r = r\<lparr>p_headers := [], p_avro_tx := Some (lib_os_new L), p_boost_tx := None\<rparr>"

definition name_value_separator :: string where "name_value_separator = '': ''"

definition header_buffers :: "header_t \<Rightarrow> string list" where
  "header_buffers h = [name h, name_value_separator, val h, crlf]"

definition to_buffers :: "('os, 'p) libs \<Rightarrow> 'os reply_t \<Rightarrow> (string list \<times> 'os reply_t) res" where
  "to_buffers L r =
     bindE (reply_status r) (\<lambda>s.
       let buffers = [http_version_v1_1, status_buffer s] @ concat (map header_buffers (p_headers r))
                     @ [crlf] in
       bindE (reply_content_length L r) (\<lambda>sz.
         if sz \<noteq> 0 then
           bindE (deref (p_avro_tx r)) (\<lambda>os.
             case lib_os_read L os sz of
               None \<Rightarrow> Inl (Exception ''EOF reached'')
             | Some bytes \<Rightarrow> Inr (buffers @ [bytes], r\<lparr>p_boost_tx := Some bytes\<rparr>))
         else Inr (buffers, r)))"

lemmas reply_defs = reply_create_def reply_content_length_def reply_status_def reply_add_def
  reply_reset_def Let_def

section \<open>Creating a reply\<close>

lemma vec_resize_update:
  "k < n \<Longrightarrow> (vec_resize d n xs)[k := x] = vec_resize d k xs @ x # drop (Suc k) (vec_resize d n xs)"
  by (simp add: upd_conv_take_nth_drop take_vec_resize)

lemma vec_resize_update_last: "(vec_resize d (Suc k) xs)[k := x] = vec_resize d k xs @ [x]"
  by (simp add: vec_resize_update)

lemma vec_resize_update_last2:
  "(vec_resize d (Suc (Suc k)) xs)[k := x, Suc k := y] = vec_resize d k xs @ [x, y]"
proof -
  have "length (drop (Suc k) (vec_resize d (Suc (Suc k)) xs)) = Suc 0" by simp
  then obtain z where "drop (Suc k) (vec_resize d (Suc (Suc k)) xs) = [z]"
    by (metis length_0_conv length_Suc_conv)
  then have "(vec_resize d (Suc (Suc k)) xs)[k := x] = vec_resize d k xs @ [x, z]"
    by (simp add: vec_resize_update)
  then show ?thesis by (simp add: list_update_append)
qed

text \<open>The headers \<open>create\<close> leaves: those reserved in front, then the content headers.\<close>

definition content_headers :: "string \<Rightarrow> nat \<Rightarrow> header_t list" where
  "content_headers content_type n =
     (if n = 0 then [\<lparr>name = ''Content-Length'', val = ''0''\<rparr>]
      else [\<lparr>name = ''Content-Length'', val = show_int (c_int n)\<rparr>,
            \<lparr>name = ''Content-Type'', val = content_type\<rparr>])"

lemma reply_create_eq:
  "p_avro_tx r = Some os \<Longrightarrow>
   reply_create L s ct extra r = Inr (r\<lparr>p_status := Some s,
     p_headers := vec_resize empty_header extra (p_headers r) @ content_headers ct (lib_os_count L os)\<rparr>)"
  by (simp add: reply_defs content_headers_def vec_resize_update_last vec_resize_update_last2)

lemma reply_create_no_stream: "p_avro_tx r = None \<Longrightarrow> reply_create L s ct extra r = Inl Null_pointer"
  by (simp add: reply_defs)

lemma to_buffers_eq:
  assumes "avro_law L" "p_avro_tx r = Some os" "p_status r = Some s"
  shows "to_buffers L r =
     Inr ([http_version_v1_1, status_buffer s] @ concat (map header_buffers (p_headers r)) @ [crlf]
            @ (if os_content L os = [] then [] else [os_content L os]),
          if os_content L os = [] then r else r\<lparr>p_boost_tx := Some (os_content L os)\<rparr>)"
  using assms by (simp add: to_buffers_def reply_defs avro_lawD)

section \<open>Reading a reply back\<close>

fun take_line :: "string \<Rightarrow> (string \<times> string) option" where
  "take_line (c # d # cs) =
     (if c = CR \<and> d = LF then Some ([], cs) else map_option (apfst (Cons c)) (take_line (d # cs)))"
| "take_line _ = None"

fun split_header :: "string \<Rightarrow> header_t option" where
  "split_header (c # d # cs) =
     (if c = CHR '':'' \<and> d = CHR '' '' then Some \<lparr>name = [], val = cs\<rparr>
      else map_option (\<lambda>h. h\<lparr>name := c # name h\<rparr>) (split_header (d # cs)))"
| "split_header _ = None"

lemma take_line_shorter: "take_line s = Some (l, r) \<Longrightarrow> length r < length s"
  by (induction s arbitrary: l rule: take_line.induct) (auto split: if_splits)

function read_headers :: "string \<Rightarrow> (header_t list \<times> string) option" where
  "read_headers s =
     (case take_line s of None \<Rightarrow> None
      | Some (l, r) \<Rightarrow>
          if l = [] then Some ([], r)
          else (case split_header l of None \<Rightarrow> None
                | Some h \<Rightarrow> map_option (apfst (Cons h)) (read_headers r)))"
  by pat_completeness auto
termination
  by (relation "measure length") (auto dest: take_line_shorter)

declare read_headers.simps [simp del]

definition read_reply :: "string \<Rightarrow> (string \<times> header_t list \<times> string) option" where
  "read_reply s =
     (if take 9 s \<noteq> ''HTTP/1.1 '' then None
      else (case take_line (drop 9 s) of None \<Rightarrow> None
            | Some (status, r) \<Rightarrow>
                (case read_headers r of None \<Rightarrow> None | Some (hs, body) \<Rightarrow> Some (status, hs, body))))"

definition wf_header :: "header_t \<Rightarrow> bool" where
  "wf_header h \<longleftrightarrow> CR \<notin> set (name h) \<and> CHR '':'' \<notin> set (name h) \<and> CR \<notin> set (val h)"

lemma take_line_append: "CR \<notin> set s \<Longrightarrow> take_line (s @ CR # LF # r) = Some (s, r)"
proof (induction s)
  case (Cons c s)
  then show ?case by (cases s) auto
qed simp

lemma split_header_append:
  "CHR '':'' \<notin> set n \<Longrightarrow> split_header (n @ CHR '':'' # CHR '' '' # v) = Some \<lparr>name = n, val = v\<rparr>"
proof (induction n)
  case (Cons c n)
  then show ?case by (cases n) auto
qed simp

lemma read_headers_step:
  "take_line s = Some (l, r) \<Longrightarrow> l \<noteq> [] \<Longrightarrow> split_header l = Some h \<Longrightarrow>
   read_headers s = map_option (apfst (Cons h)) (read_headers r)"
  by (simp add: read_headers.simps [of s])

lemma read_headers_append:
  "\<forall>h \<in> set hs. wf_header h \<Longrightarrow>
   read_headers (concat (concat (map header_buffers hs)) @ crlf @ body) = Some (hs, body)"
proof (induction hs)
  case Nil
  show ?case by (simp add: read_headers.simps [of "_ # _"] crlf_def)
next
  case (Cons h hs)
  let ?rest = "concat (concat (map header_buffers hs)) @ crlf @ body"
  let ?line = "name h @ name_value_separator @ val h"
  have "take_line (?line @ CR # LF # ?rest) = Some (?line, ?rest)"
    using Cons.prems by (intro take_line_append) (auto simp: wf_header_def name_value_separator_def)
  moreover have "split_header ?line = Some h"
    using Cons.prems split_header_append [of "name h" "val h"]
    by (auto simp: wf_header_def name_value_separator_def)
  moreover have "?line \<noteq> []" by (simp add: name_value_separator_def)
  moreover have "read_headers ?rest = Some (hs, body)"
    using Cons by simp
  moreover have "concat (concat (map header_buffers (h # hs))) @ crlf @ body = ?line @ CR # LF # ?rest"
    by (simp add: header_buffers_def crlf_def)
  ultimately show ?case using read_headers_step by simp
qed

text \<open>The text of the status line.\<close>

definition status_text :: "status_type \<Rightarrow> string" where
  "status_text s = take (length (status_buffer s) - 2) (status_buffer s)"

lemma status_buffer_text: "status_buffer s = status_text s @ crlf \<and> CR \<notin> set (status_text s)"
  by (cases s rule: status_buffer.cases) (simp_all add: status_text_def crlf_def CR_def)

lemma read_reply_buffers:
  assumes "\<forall>h \<in> set hs. wf_header h"
  shows "read_reply (concat ([http_version_v1_1, status_buffer s]
           @ concat (map header_buffers hs) @ [crlf] @ (if b = [] then [] else [b])))
         = Some (status_text s, hs, b)"
proof -
  let ?rest = "concat (concat (map header_buffers hs)) @ crlf @ b"
  have "concat ([http_version_v1_1, status_buffer s]
           @ concat (map header_buffers hs) @ [crlf] @ (if b = [] then [] else [b]))
      = ''HTTP/1.1 '' @ status_text s @ CR # LF # ?rest"
    using status_buffer_text [of s] by (simp add: http_version_v1_1_def crlf_def)
  moreover have "take_line (status_text s @ CR # LF # ?rest) = Some (status_text s, ?rest)"
    using status_buffer_text [of s] by (intro take_line_append) simp
  ultimately show ?thesis
    using read_headers_append [OF assms, of b] by (simp add: read_reply_def)
qed

lemma wf_header_content_length: "wf_header \<lparr>name = ''Content-Length'', val = show_int i\<rparr>"
  by (simp add: wf_header_def) (simp add: CR_def)

section \<open>Properties\<close>

lemma p_headers_fold_add: "fold reply_add hs r = r\<lparr>p_headers := p_headers r @ hs\<rparr>"
  by (induction hs arbitrary: r) (simp_all add: reply_add_def)

lemma wf_content_headers: "CR \<notin> set ct \<Longrightarrow> \<forall>h \<in> set (content_headers ct n). wf_header h"
  by (simp add: content_headers_def wf_header_content_length) (simp add: wf_header_def CR_def)

text \<open>
  C1. What goes on the wire says what the handler meant: a reply that is reset, given
  the content \<open>b\<close>, created and given further headers is turned into buffers without a
  fault, and a reader of their concatenation gets the status text, the content headers
  followed by the further headers, in order, and the content, byte for byte.
\<close>

theorem reply_roundtrip:
  assumes "avro_law L" and "CR \<notin> set ct" and "\<forall>h \<in> set hs. wf_header h"
  shows "\<exists>bufs r'.
      bindE (reply_content_write L b (reply_reset L r)) (\<lambda>r1.
        bindE (reply_create L s ct 0 r1) (\<lambda>r2. to_buffers L (fold reply_add hs r2))) = Inr (bufs, r')
      \<and> read_reply (concat bufs) = Some (status_text s, content_headers ct (length b) @ hs, b)"
proof -
  define os where "os = lib_os_write L (lib_os_new L) b"
  define r1 where "r1 = (reply_reset L r)\<lparr>p_avro_tx := Some os\<rparr>"
  define r2 where "r2 = r1\<lparr>p_status := Some s, p_headers := content_headers ct (length b)\<rparr>"
  have content: "os_content L os = b" using assms(1) by (simp add: os_def avro_lawD)
  have "reply_content_write L b (reply_reset L r) = Inr r1"
    by (simp add: reply_content_write_def reply_reset_def r1_def os_def)
  moreover have "reply_create L s ct 0 r1 = Inr r2"
    using assms(1) content
    by (subst reply_create_eq [of _ os]) (simp_all add: r1_def r2_def avro_lawD vec_resize_def)
  moreover have "\<forall>h \<in> set (content_headers ct (length b) @ hs). wf_header h"
    using assms(2,3) wf_content_headers by auto
  moreover have "p_avro_tx (fold reply_add hs r2) = Some os" "p_status (fold reply_add hs r2) = Some s"
    "p_headers (fold reply_add hs r2) = content_headers ct (length b) @ hs"
    by (simp_all add: p_headers_fold_add r2_def r1_def)
  ultimately show ?thesis
    using to_buffers_eq [OF assms(1), of "fold reply_add hs r2" os s] content
      read_reply_buffers [of "content_headers ct (length b) @ hs" s b]
    by (cases "b = []") simp_all
qed

theorem reply_roundtrip_witness:
  "\<exists>bufs r'.
      bindE (reply_content_write (ref_libs []) ''hi'' (reply_reset (ref_libs []) reply_new)) (\<lambda>r1.
        bindE (reply_create (ref_libs []) ok ''text/html'' 0 r1) (\<lambda>r2.
          to_buffers (ref_libs []) (fold reply_add [\<lparr>name = ''Connection'', val = ''close''\<rparr>] r2))) = Inr (bufs, r')
      \<and> read_reply (concat bufs) = Some (status_text ok,
          content_headers ''text/html'' (length ''hi'') @ [\<lparr>name = ''Connection'', val = ''close''\<rparr>], ''hi'')"
  by (rule reply_roundtrip [OF avro_law_ref_libs]) (simp_all add: wf_header_def CR_def)

text \<open>
  \<^verbatim>\<open>create\<close> puts the content length after the reserved headers; the value is the
  number of content bytes exactly when that is below two to the 31st, because the size
  is cast to \<^verbatim>\<open>int\<close> before it is printed. Larger contents are announced with a negative
  or a too small number.
\<close>

theorem content_length_header:
  assumes "avro_law L" and "p_avro_tx r = Some os"
  shows "\<exists>r' v. reply_create L s ct extra r = Inr r'
      \<and> p_headers r' ! extra = \<lparr>name = ''Content-Length'', val = v\<rparr>
      \<and> (read_nat v = Some (length (os_content L os)) \<longleftrightarrow> length (os_content L os) < 2 ^ 31)"
proof -
  let ?n = "length (os_content L os)"
  let ?v = "if ?n = 0 then ''0'' else show_int (c_int ?n)"
  have "content_headers ct ?n ! 0 = \<lparr>name = ''Content-Length'', val = ?v\<rparr>"
    by (simp add: content_headers_def)
  moreover have "reply_create L s ct extra r = Inr (r\<lparr>p_status := Some s,
      p_headers := vec_resize empty_header extra (p_headers r) @ content_headers ct ?n\<rparr>)"
    using reply_create_eq [OF assms(2), of L] by (simp add: avro_lawD [OF assms(1)])
  moreover have "read_nat ?v = Some ?n \<longleftrightarrow> ?n < 2 ^ 31"
  proof (cases "?n = 0")
    case True
    then show ?thesis
      using read_nat_show_nat [of 0] by (simp add: show_nat.simps [of 0] digit_def)
  next
    case False
    then show ?thesis
      using c_int_small [of ?n] c_int_range [of ?n] by (auto simp: read_nat_show_int)
  qed
  ultimately show ?thesis by (fastforce simp: nth_append)
qed

theorem content_length_header_witness:
  "\<exists>r' v. reply_create (ref_libs []) ok ''text/html'' 1 (reply_new\<lparr>p_avro_tx := Some ''hello''\<rparr>) = Inr r'
      \<and> p_headers r' ! 1 = \<lparr>name = ''Content-Length'', val = v\<rparr>
      \<and> (read_nat v = Some (length (os_content (ref_libs []) ''hello'')) \<longleftrightarrow>
          length (os_content (ref_libs []) ''hello'') < 2 ^ 31)"
  by (rule content_length_header [OF avro_law_ref_libs]) (simp add: reply_new_def)

text \<open>
  The status line starts with the number of the reply's status for the seventeen
  statuses the table knows, and for no other: every other status, the remaining
  enumerators of \<^verbatim>\<open>status_type\<close> included, goes out as 500.
\<close>

definition status_table :: "status_type list" where
  "status_table =
    [ok, created, accepted, no_content, multiple_choices, moved_permanently, moved_temporarily,
     not_modified, bad_request, unauthorized, forbidden, not_found, precondition_failed,
     internal_server_error, not_implemented, bad_gateway, service_unavailable]"

lemma status_table_lines:
  "list_all (\<lambda>s. take 3 (status_text s) = show_int (status_code s)) status_table"
  by code_simp

theorem status_line_number:
  assumes "canonical_status s"
  shows "(take 3 (status_text s) = show_int (status_code s) \<longleftrightarrow> s \<in> set status_table)
       \<and> (s \<notin> set status_table \<longrightarrow> status_buffer s = status_buffer internal_server_error)"
proof (cases "s \<in> set status_table")
  case True
  then have "take 3 (status_text s) = show_int (status_code s)"
    using status_table_lines by (simp add: list_all_iff)
  with True show ?thesis by simp
next
  case False
  then have line: "status_buffer s = status_buffer internal_server_error"
    by (cases s rule: status_buffer.cases) (simp_all add: status_table_def)
  have "status_code s \<noteq> 500"
  proof
    assume "status_code s = 500"
    then have "s = internal_server_error"
      using status_of_code_of_status [OF assms]
      by (simp add: status_of_code_def status_enumerators_def)
    with False show False by (simp add: status_table_def)
  qed
  then have "show_int (status_code s) \<noteq> show_int 500" by (simp add: show_int_nonneg_inject)
  moreover have "take 3 (status_text s) = show_int 500"
  proof -
    have "internal_server_error \<in> set status_table" by (simp add: status_table_def)
    with status_table_lines show ?thesis by (auto simp: list_all_iff status_text_def line)
  qed
  ultimately show ?thesis using False line by simp
qed

theorem status_line_number_witness:
  "see_other \<notin> set status_table \<and> status_buffer see_other = status_buffer internal_server_error
   \<and> take 3 (status_text see_other) \<noteq> show_int (status_code see_other)"
proof -
  have "canonical_status see_other" by (simp add: canonical_status_def)
  from status_line_number [OF this] show ?thesis by (simp add: status_table_def)
qed

end
