(* ===== verification/Header_Buffer.thy ===== *)
theory Header_Buffer
  imports Libraries
begin

text \<open>
  The two character arrays in which \<^verbatim>\<open>connection\<close> collects the name and the value of the
  header being parsed (\<^verbatim>\<open>_current_header_key\<close>, \<^verbatim>\<open>_current_header_val\<close> of
  \<^verbatim>\<open>server/connection.h\<close> and the statements of \<^verbatim>\<open>server/connection.cpp\<close> that write them),
  at the level of the memory: \<^verbatim>\<open>MAX_HEADER_SIZE\<close> characters and a length that is kept
  apart. The interface \<open>string_buffer\<close> says when that memory behaves as a growing string,
  and what happens when the string no longer fits.
\<close>

section \<open>The memory\<close>

definition MAX_HEADER_SIZE :: nat where "MAX_HEADER_SIZE = 4096"

text \<open>The length has no value before \<^verbatim>\<open>on_message_begin\<close>; the characters are arbitrary.\<close>

record cbuf =
  cb_mem :: "char list"
  cb_len :: "nat option"

text \<open>\<^verbatim>\<open>buf[0] = 0\<close> together with \<^verbatim>\<open>len = 0\<close>.\<close>

definition cbuf_clear :: "cbuf \<Rightarrow> cbuf" where
  "cbuf_clear b = b\<lparr>cb_mem := (cb_mem b)[0 := NUL], cb_len := Some 0\<rparr>"

text \<open>
  What \<^verbatim>\<open>strncpy(dst, at, len)\<close> writes: the characters up to the first NUL, then NULs up
  to \<open>len\<close> characters.
\<close>

definition strncpy_bytes :: "string \<Rightarrow> string" where
  "strncpy_bytes s =
     (let t = takeWhile (\<lambda>c. c \<noteq> NUL) s in t @ replicate (length s - length t) NUL)"

definition write_at :: "nat \<Rightarrow> string \<Rightarrow> char list \<Rightarrow> char list res" where
  "write_at off s m =
     (if off + length s \<le> length m then Inr (take off m @ s @ drop (off + length s) m)
      else Inl Buffer_overflow)"

text \<open>
  \<^verbatim>\<open>strncpy(&buf[len], at, n); len += n; buf[len] = 0;\<close> as both header callbacks have it,
  with a fault where the code writes past the array.
\<close>

definition cbuf_append :: "string \<Rightarrow> cbuf \<Rightarrow> cbuf res" where
  "cbuf_append s b =
     bindE (initialised (cb_len b)) (\<lambda>n.
       bindE (write_at n (strncpy_bytes s) (cb_mem b)) (\<lambda>m.
         bindE (write_at (n + length s) [NUL] m) (\<lambda>m'.
           Inr (b\<lparr>cb_mem := m', cb_len := Some (n + length s)\<rparr>))))"

text \<open>The array read as a C string.\<close>

definition cbuf_str :: "cbuf \<Rightarrow> string" where
  "cbuf_str b = takeWhile (\<lambda>c. c \<noteq> NUL) (cb_mem b)"

text \<open>\<^verbatim>\<open>boost::algorithm::to_lower\<close> on the array lowers it up to the NUL, in place.\<close>

definition cbuf_to_lower :: "('os, 'p) libs \<Rightarrow> cbuf \<Rightarrow> cbuf" where
  "cbuf_to_lower L b =
     b\<lparr>cb_mem := lib_to_lower L (cbuf_str b) @ drop (length (cbuf_str b)) (cb_mem b)\<rparr>"

section \<open>The contract of a string buffer\<close>

fun append_all :: "(string \<Rightarrow> 'b \<Rightarrow> 'b res) \<Rightarrow> string list \<Rightarrow> 'b \<Rightarrow> 'b res" where
  "append_all app [] b = Inr b"
| "append_all app (s # ss) b = bindE (app s b) (append_all app ss)"

locale string_buffer =
  fixes capacity :: nat
    and alloc :: "'b \<Rightarrow> bool"
    and invar :: "'b \<Rightarrow> bool"
    and str :: "'b \<Rightarrow> string"
    and clear :: "'b \<Rightarrow> 'b"
    and app :: "string \<Rightarrow> 'b \<Rightarrow> 'b res"
  assumes clear_invar: "alloc b \<Longrightarrow> invar (clear b)"
    and clear_str: "alloc b \<Longrightarrow> str (clear b) = []"
    and invar_alloc: "invar b \<Longrightarrow> alloc b"
    and app_fits: "invar b \<Longrightarrow> NUL \<notin> set s \<Longrightarrow> length (str b) + length s < capacity \<Longrightarrow>
      \<exists>b'. app s b = Inr b' \<and> invar b' \<and> str b' = str b @ s"
    and app_overflows: "invar b \<Longrightarrow> NUL \<notin> set s \<Longrightarrow> capacity \<le> length (str b) + length s \<Longrightarrow>
      app s b = Inl Buffer_overflow"
begin

text \<open>However a string is cut into fragments, appending them all leaves the string.\<close>

lemma append_all_fits:
  "invar b \<Longrightarrow> NUL \<notin> set (concat ss) \<Longrightarrow> length (str b) + length (concat ss) < capacity \<Longrightarrow>
   \<exists>b'. append_all app ss b = Inr b' \<and> invar b' \<and> str b' = str b @ concat ss"
proof (induction ss arbitrary: b)
  case (Cons s ss)
  then obtain b1 where b1: "app s b = Inr b1" "invar b1" "str b1 = str b @ s"
    using app_fits [of b s] by auto
  with Cons.IH [of b1] Cons.prems show ?case by auto
qed simp

lemma append_all_overflows:
  "invar b \<Longrightarrow> NUL \<notin> set (concat ss) \<Longrightarrow> capacity \<le> length (str b) + length (concat ss) \<Longrightarrow>
   length (str b) < capacity \<Longrightarrow> append_all app ss b = Inl Buffer_overflow"
proof (induction ss arbitrary: b)
  case (Cons s ss)
  show ?case
  proof (cases "length (str b) + length s < capacity")
    case True
    then obtain b1 where b1: "app s b = Inr b1" "invar b1" "str b1 = str b @ s"
      using app_fits [of b s] Cons.prems by auto
    with Cons.IH [of b1] Cons.prems True show ?thesis by auto
  next
    case False
    then show ?thesis using app_overflows [of b s] Cons.prems by auto
  qed
qed simp

end

section \<open>The arrays keep the contract\<close>

definition cbuf_alloc :: "cbuf \<Rightarrow> bool" where
  "cbuf_alloc b \<longleftrightarrow> length (cb_mem b) = MAX_HEADER_SIZE"

definition cbuf_invar :: "cbuf \<Rightarrow> bool" where
  "cbuf_invar b \<longleftrightarrow> cbuf_alloc b \<and>
     (\<exists>s r. cb_mem b = s @ NUL # r \<and> NUL \<notin> set s \<and> cb_len b = Some (length s))"

lemma takeWhile_NUL: "NUL \<notin> set s \<Longrightarrow> takeWhile (\<lambda>c. c \<noteq> NUL) (s @ NUL # r) = s"
  by (induction s) auto

lemma takeWhile_no_NUL: "NUL \<notin> set s \<Longrightarrow> takeWhile (\<lambda>c. c \<noteq> NUL) s = s"
  by (induction s) auto

lemma strncpy_bytes_no_NUL: "NUL \<notin> set s \<Longrightarrow> strncpy_bytes s = s"
  by (simp add: strncpy_bytes_def Let_def takeWhile_no_NUL)

lemma length_strncpy_bytes [simp]: "length (strncpy_bytes s) = length s"
proof -
  have "length (takeWhile (\<lambda>c. c \<noteq> NUL) s) \<le> length s" by (rule length_takeWhile_le)
  then show ?thesis by (simp add: strncpy_bytes_def Let_def)
qed

lemma cbuf_str_invar:
  "cbuf_invar b \<Longrightarrow> \<exists>r. cb_mem b = cbuf_str b @ NUL # r \<and> NUL \<notin> set (cbuf_str b)
     \<and> cb_len b = Some (length (cbuf_str b)) \<and> length r = MAX_HEADER_SIZE - Suc (length (cbuf_str b))
     \<and> length (cbuf_str b) < MAX_HEADER_SIZE"
  by (auto simp: cbuf_invar_def cbuf_alloc_def cbuf_str_def takeWhile_NUL)

lemma cbuf_clear_invar: "cbuf_alloc b \<Longrightarrow> cbuf_invar (cbuf_clear b) \<and> cbuf_str (cbuf_clear b) = []"
proof -
  assume "cbuf_alloc b"
  then obtain c r where "cb_mem b = c # r"
    by (cases "cb_mem b") (auto simp: cbuf_alloc_def MAX_HEADER_SIZE_def)
  with \<open>cbuf_alloc b\<close> show ?thesis
    by (auto simp: cbuf_clear_def cbuf_invar_def cbuf_alloc_def cbuf_str_def)
qed

lemma cbuf_append_fits:
  assumes "cbuf_invar b" "NUL \<notin> set s" "length (cbuf_str b) + length s < MAX_HEADER_SIZE"
  shows "\<exists>b'. cbuf_append s b = Inr b' \<and> cbuf_invar b' \<and> cbuf_str b' = cbuf_str b @ s"
proof -
  obtain r where r: "cb_mem b = cbuf_str b @ NUL # r" "NUL \<notin> set (cbuf_str b)"
    "cb_len b = Some (length (cbuf_str b))" "length r = MAX_HEADER_SIZE - Suc (length (cbuf_str b))"
    using cbuf_str_invar [OF assms(1)] by blast
  define r' where "r' = drop (Suc (length s)) (NUL # r)"
  define b' where "b' = b\<lparr>cb_mem := (cbuf_str b @ s) @ NUL # r',
    cb_len := Some (length (cbuf_str b) + length s)\<rparr>"
  have len: "length (cb_mem b) = MAX_HEADER_SIZE" using assms(1) by (simp add: cbuf_invar_def cbuf_alloc_def)
  have 1: "write_at (length (cbuf_str b)) s (cb_mem b) = Inr (cbuf_str b @ s @ drop (length s) (NUL # r))"
    using r(1,4) assms(3) by (simp add: write_at_def)
  have "length s < length (NUL # r)" using r(4) assms(3) by simp
  then have "drop (length s) (NUL # r) = (NUL # r) ! length s # r'"
    unfolding r'_def by (rule Cons_nth_drop_Suc [symmetric])
  then have 2: "write_at (length (cbuf_str b) + length s) [NUL] (cbuf_str b @ s @ drop (length s) (NUL # r))
      = Inr (cb_mem b')"
    by (simp add: write_at_def b'_def)
  have "cbuf_append s b = Inr b'"
    using r(3) 1 2 by (simp add: cbuf_append_def strncpy_bytes_no_NUL [OF assms(2)] b'_def)
  moreover have "cbuf_str b' = cbuf_str b @ s"
    using takeWhile_NUL [of "cbuf_str b @ s" r'] assms(2) r(2) by (simp add: cbuf_str_def b'_def)
  moreover have "cbuf_invar b'"
    using r(2,4) assms(2,3) unfolding cbuf_invar_def cbuf_alloc_def b'_def r'_def
    by (intro conjI exI [of _ "cbuf_str b @ s"] exI [of _ "drop (Suc (length s)) (NUL # r)"]) auto
  ultimately show ?thesis by blast
qed

lemma cbuf_append_overflows:
  assumes "cbuf_invar b" "NUL \<notin> set s" "MAX_HEADER_SIZE \<le> length (cbuf_str b) + length s"
  shows "cbuf_append s b = Inl Buffer_overflow"
proof -
  have "cb_len b = Some (length (cbuf_str b))" using cbuf_str_invar [OF assms(1)] by blast
  moreover have "length (cb_mem b) = MAX_HEADER_SIZE"
    using assms(1) by (simp add: cbuf_invar_def cbuf_alloc_def)
  ultimately show ?thesis
    using assms(3) by (auto simp: cbuf_append_def write_at_def)
qed

interpretation cb: string_buffer MAX_HEADER_SIZE cbuf_alloc cbuf_invar cbuf_str cbuf_clear cbuf_append
  by unfold_locales
    (use cbuf_clear_invar cbuf_append_fits cbuf_append_overflows in \<open>auto simp: cbuf_invar_def\<close>)

lemma cbuf_to_lower:
  assumes "text_law L" and "cbuf_invar b"
  shows "cbuf_str (cbuf_to_lower L b) = lib_to_lower L (cbuf_str b)"
    and "cbuf_alloc (cbuf_to_lower L b)"
proof -
  obtain r where r: "cb_mem b = cbuf_str b @ NUL # r" "NUL \<notin> set (cbuf_str b)"
    using cbuf_str_invar [OF assms(2)] by blast
  from r(1) have "drop (length (cbuf_str b)) (cb_mem b) = NUL # r" by (metis append_eq_conv_conj)
  then have m: "cb_mem (cbuf_to_lower L b) = lib_to_lower L (cbuf_str b) @ NUL # r"
    by (simp add: cbuf_to_lower_def)
  moreover have "NUL \<notin> set (lib_to_lower L (cbuf_str b))"
    using r(2) text_lawD(4) [OF assms(1)] by blast
  ultimately show "cbuf_str (cbuf_to_lower L b) = lib_to_lower L (cbuf_str b)"
    by (simp add: cbuf_str_def [of "cbuf_to_lower L b"] takeWhile_NUL)
  have "length (cb_mem (cbuf_to_lower L b)) = length (cb_mem b)"
    unfolding m by (subst r(1)) (simp add: text_lawD(3) [OF assms(1)])
  then show "cbuf_alloc (cbuf_to_lower L b)"
    using assms(2) by (simp add: cbuf_invar_def cbuf_alloc_def)
qed

section \<open>Properties\<close>

text \<open>
  C25. The fragments of a header name or value, copied one after the other into the
  cleared array, leave exactly their concatenation as its C string when that is shorter
  than the array, and write past the array when it is not: nothing in the callbacks
  checks the length.
\<close>

theorem fragments_in_array:
  assumes "cbuf_alloc b" and "NUL \<notin> set (concat ss)"
  shows "if length (concat ss) < MAX_HEADER_SIZE
         then \<exists>b'. append_all cbuf_append ss (cbuf_clear b) = Inr b' \<and> cbuf_str b' = concat ss
         else append_all cbuf_append ss (cbuf_clear b) = Inl Buffer_overflow"
  using cb.append_all_fits [of "cbuf_clear b" ss] cb.append_all_overflows [of "cbuf_clear b" ss]
    cbuf_clear_invar [OF assms(1)] assms(2)
  by (auto simp: MAX_HEADER_SIZE_def)

theorem fragments_in_array_witness:
  "append_all cbuf_append [replicate 4000 CHR ''x'', replicate 96 CHR ''y'']
     (cbuf_clear \<lparr>cb_mem = replicate MAX_HEADER_SIZE CHR ''z'', cb_len = None\<rparr>) = Inl Buffer_overflow"
  using fragments_in_array [of "\<lparr>cb_mem = replicate MAX_HEADER_SIZE CHR ''z'', cb_len = None\<rparr>"
      "[replicate 4000 CHR ''x'', replicate 96 CHR ''y'']"]
  by (simp add: cbuf_alloc_def MAX_HEADER_SIZE_def NUL_def)

end
