(* ===== verification/Connection.thy ===== *)
theory Connection
  imports Request Reply Header_Buffer
begin

text \<open>
  \<^verbatim>\<open>csi::http::connection\<close> (\<^verbatim>\<open>server/connection.h\<close>, \<^verbatim>\<open>server/connection.cpp\<close>): the base class
  of the two server connections. Its state is the request being assembled, the reply
  being prepared and the parser; its operations are the seven callbacks of
  \<^verbatim>\<open>http_parser\<close>. The static count of connections is in the theory \<open>Spinlock\<close>.
\<close>

section \<open>State\<close>

record ('os, 'p) connection =
  request_id_header_tag :: string
  c_parser :: 'p
  c_request :: "'os request_t"
  c_reply :: "'os reply_t"
  last_header_was_value :: "bool option"
  header_key :: cbuf
  header_val :: cbuf
  c_parser_url :: "url_fields option"
  c_request_complete :: bool
  c_keep_alive :: bool
  waiting_for_async_reply :: bool

text \<open>
  The constructor. The characters of the two arrays and the members without an
  initialiser hold garbage: \<open>key\<close> and \<open>value\<close> are the arrays' memory.
\<close>

definition connection_new ::
  "('os, 'p) libs \<Rightarrow> string \<Rightarrow> char list \<Rightarrow> char list \<Rightarrow> ('os, 'p) connection" where
  "connection_new L request_id_header key value =
     \<lparr>request_id_header_tag = request_id_header,
      c_parser = lib_parser_init L,
      c_request = request_new L,
      c_reply = reply_new,
      last_header_was_value = None,
      header_key = \<lparr>cb_mem = key, cb_len = None\<rparr>,
      header_val = \<lparr>cb_mem = value, cb_len = None\<rparr>,
      c_parser_url = None,
      c_request_complete = False,
      c_keep_alive = False,
      waiting_for_async_reply = False\<rparr>"

section \<open>The callbacks of the parser\<close>

definition on_message_begin ::
  "('os, 'p) libs \<Rightarrow> ('os, 'p, 'z) connection_scheme \<Rightarrow> (int \<times> ('os, 'p, 'z) connection_scheme) res" where
  "on_message_begin L c =
     (let c = c\<lparr>c_request := request_reset L (c_request c)\<rparr>;
          c = c\<lparr>c_reply := reply_reset L (c_reply c)\<rparr>;
          c = c\<lparr>c_request_complete := False\<rparr>;
          c = c\<lparr>last_header_was_value := Some False\<rparr>;
          c = c\<lparr>c_request := (c_request c)\<lparr>r_content_length := 0\<rparr>\<rparr>;
          c = c\<lparr>header_key := cbuf_clear (header_key c), header_val := cbuf_clear (header_val c)\<rparr>
      in Inr (0, c))"

text \<open>\<^verbatim>\<open>std::string::append(&at[off], len)\<close> reads \<open>len\<close> characters from the fragment.\<close>

definition substr_at :: "string \<Rightarrow> nat \<times> nat \<Rightarrow> string res" where
  "substr_at s f = (if fst f + snd f \<le> length s then Inr (take (snd f) (drop (fst f) s))
                    else Inl Out_of_bounds)"

definition append_component :: "string \<Rightarrow> (nat \<times> nat) option \<Rightarrow> string \<Rightarrow> string res" where
  "append_component at f s =
     (case f of None \<Rightarrow> Inr s | Some f \<Rightarrow> bindE (substr_at at f) (\<lambda>x. Inr (s @ x)))"

definition on_url ::
  "('os, 'p) libs \<Rightarrow> string \<Rightarrow> ('os, 'p, 'z) connection_scheme \<Rightarrow> (int \<times> ('os, 'p, 'z) connection_scheme) res" where
  "on_url L at c =
     (let (nres, u) = lib_parse_url L at; c = c\<lparr>c_parser_url := Some u\<rparr> in
      if nres = 0 then
        bindE (append_component at (uf_path u) (r_url (c_request c))) (\<lambda>url.
          bindE (append_component at (uf_query u) (r_query (c_request c))) (\<lambda>query.
            Inr (nres, c\<lparr>c_request := (c_request c)\<lparr>r_url := url, r_query := query\<rparr>\<rparr>)))
      else Inr (nres, c))"

text \<open>
  The statements \<^verbatim>\<open>on_header_field\<close> and \<^verbatim>\<open>on_headers_complete\<close> share: lower both arrays,
  push the pair they hold, and empty them.
\<close>

definition push_header ::
  "('os, 'p) libs \<Rightarrow> ('os, 'p, 'z) connection_scheme \<Rightarrow> ('os, 'p, 'z) connection_scheme" where
  "push_header L c =
     (let key = cbuf_to_lower L (header_key c); value = cbuf_to_lower L (header_val c);
          h = \<lparr>name = cbuf_str key, val = cbuf_str value\<rparr>
      in c\<lparr>c_request := (c_request c)\<lparr>r_headers := r_headers (c_request c) @ [h]\<rparr>,
           header_key := cbuf_clear key, header_val := cbuf_clear value\<rparr>)"

definition on_header_field ::
  "('os, 'p) libs \<Rightarrow> string \<Rightarrow> ('os, 'p, 'z) connection_scheme \<Rightarrow> (int \<times> ('os, 'p, 'z) connection_scheme) res" where
  "on_header_field L at c =
     bindE (initialised (last_header_was_value c)) (\<lambda>v.
       let c = (if v then push_header L c else c) in
       bindE (cbuf_append at (header_key c)) (\<lambda>key.
         Inr (0, c\<lparr>header_key := key, last_header_was_value := Some False\<rparr>)))"

definition on_header_value ::
  "string \<Rightarrow> ('os, 'p, 'z) connection_scheme \<Rightarrow> (int \<times> ('os, 'p, 'z) connection_scheme) res" where
  "on_header_value at c =
     bindE (cbuf_append at (header_val c)) (\<lambda>value.
       Inr (0, c\<lparr>header_val := value, last_header_was_value := Some True\<rparr>))"

definition on_headers_complete ::
  "('os, 'p) libs \<Rightarrow> 64 word \<Rightarrow> nat \<Rightarrow> ('os, 'p, 'z) connection_scheme \<Rightarrow>
   (int \<times> ('os, 'p, 'z) connection_scheme) res" where
  "on_headers_complete L content_length meth c =
     bindE (initialised (last_header_was_value c)) (\<lambda>v.
       let c = (if v then push_header L c else c);
           c = c\<lparr>c_request := (c_request c)\<lparr>r_content_length := content_length\<rparr>\<rparr>;
           c = c\<lparr>c_request := (c_request c)\<lparr>r_method := Some (method_of_code meth)\<rparr>\<rparr>
       in Inr (0, c))"

definition on_body ::
  "('os, 'p) libs \<Rightarrow> string \<Rightarrow> ('os, 'p, 'z) connection_scheme \<Rightarrow> (int \<times> ('os, 'p, 'z) connection_scheme) res" where
  "on_body L at c =
     Inr (0, c\<lparr>c_request := (c_request c)\<lparr>r_rx := lib_os_write L (r_rx (c_request c)) at\<rparr>\<rparr>)"

definition on_message_complete ::
  "int \<Rightarrow> ('os, 'p, 'z) connection_scheme \<Rightarrow> (int \<times> ('os, 'p, 'z) connection_scheme) res" where
  "on_message_complete should_keep_alive c =
     Inr (0, c\<lparr>c_keep_alive := (should_keep_alive \<noteq> 0), c_request_complete := True\<rparr>)"

text \<open>\<^verbatim>\<open>init_parser_settings\<close> binds each callback of the parser to its method.\<close>

fun parser_settings ::
  "('os, 'p) libs \<Rightarrow> parser_event \<Rightarrow> ('os, 'p, 'z) connection_scheme \<Rightarrow>
   (int \<times> ('os, 'p, 'z) connection_scheme) res" where
  "parser_settings L Message_begin c = on_message_begin L c"
| "parser_settings L (Url at) c = on_url L at c"
| "parser_settings L (Header_field at) c = on_header_field L at c"
| "parser_settings L (Header_value at) c = on_header_value at c"
| "parser_settings L (Headers_complete n m) c = on_headers_complete L n m c"
| "parser_settings L (Body at) c = on_body L at c"
| "parser_settings L (Message_complete k) c = on_message_complete k c"

definition http_parse ::
  "('os, 'p) libs \<Rightarrow> string \<Rightarrow> ('os, 'p, 'z) connection_scheme \<Rightarrow>
   (nat \<times> ('os, 'p, 'z) connection_scheme) res" where
  "http_parse L buf c =
     bindE (run_with (parser_settings L) (lib_execute L (c_parser c) buf) c)
       (\<lambda>((n, p), c'). Inr (n, c'\<lparr>c_parser := p\<rparr>))"

lemmas callback_defs = on_message_begin_def on_url_def on_header_field_def on_header_value_def
  on_headers_complete_def on_body_def on_message_complete_def

section \<open>Well-formed connections\<close>

text \<open>
  The arrays are as large as declared; once a message has begun the reply has a stream
  and the arrays hold strings; a set uuid agrees with the identification.
\<close>

definition message_begun :: "('os, 'p, 'z) connection_scheme \<Rightarrow> bool" where
  "message_begun c \<longleftrightarrow> last_header_was_value c \<noteq> None"

definition conn_ok :: "('os, 'p) libs \<Rightarrow> ('os, 'p, 'z) connection_scheme \<Rightarrow> bool" where
  "conn_ok L c \<longleftrightarrow>
     cbuf_alloc (header_key c) \<and> cbuf_alloc (header_val c) \<and>
     (message_begun c \<longrightarrow> p_avro_tx (c_reply c) \<noteq> None) \<and>
     (cb_len (header_val c) \<noteq> None \<longrightarrow> message_begun c) \<and>
     id_consistent L (c_request c)"

lemma cbuf_append_alloc: "cbuf_append s b = Inr b' \<Longrightarrow> cbuf_alloc b \<Longrightarrow> cbuf_alloc b'"
  by (auto simp: cbuf_append_def write_at_def cbuf_alloc_def split: if_splits)

lemma cbuf_clear_alloc [simp]: "cbuf_alloc (cbuf_clear b) \<longleftrightarrow> cbuf_alloc b"
  by (simp add: cbuf_clear_def cbuf_alloc_def)

lemma cbuf_to_lower_alloc: "text_law L \<Longrightarrow> cbuf_alloc b \<Longrightarrow> cbuf_alloc (cbuf_to_lower L b)"
proof -
  assume "text_law L" "cbuf_alloc b"
  moreover have "length (cbuf_str b) \<le> length (cb_mem b)"
    by (simp add: cbuf_str_def length_takeWhile_le)
  ultimately show ?thesis by (simp add: cbuf_to_lower_def cbuf_alloc_def text_lawD(3))
qed

lemma push_header_simps [simp]:
  "c_reply (push_header L c) = c_reply c"
  "last_header_was_value (push_header L c) = last_header_was_value c"
  "c_request_complete (push_header L c) = c_request_complete c"
  "c_keep_alive (push_header L c) = c_keep_alive c"
  "waiting_for_async_reply (push_header L c) = waiting_for_async_reply c"
  "c_parser (push_header L c) = c_parser c"
  "c_parser_url (push_header L c) = c_parser_url c"
  "connection.more (push_header L c) = connection.more c"
  "id_consistent L (c_request (push_header L c)) \<longleftrightarrow> id_consistent L (c_request c)"
  by (simp_all add: push_header_def Let_def id_consistent_def)

lemma push_header_alloc:
  "text_law L \<Longrightarrow> cbuf_alloc (header_key c) \<Longrightarrow> cbuf_alloc (header_key (push_header L c))"
  "text_law L \<Longrightarrow> cbuf_alloc (header_val c) \<Longrightarrow> cbuf_alloc (header_val (push_header L c))"
  by (simp_all add: push_header_def Let_def cbuf_to_lower_alloc)

lemma conn_ok_new:
  "length key = MAX_HEADER_SIZE \<Longrightarrow> length v = MAX_HEADER_SIZE \<Longrightarrow> conn_ok L (connection_new L tag key v)"
  by (simp add: conn_ok_def connection_new_def cbuf_alloc_def message_begun_def)

text \<open>The outcome of each callback that returned, spelt out.\<close>

lemma on_url_cases:
  assumes "on_url L at c = Inr (r, c')"
  obtains u q v where "c' = c\<lparr>c_parser_url := v, c_request := (c_request c)\<lparr>r_url := u, r_query := q\<rparr>\<rparr>"
proof -
  obtain n f where p: "lib_parse_url L at = (n, f)" by fastforce
  show ?thesis
  proof (cases "n = 0")
    case True
    with assms p that show ?thesis by (auto simp: on_url_def)
  next
    case False
    with assms p have "c' = c\<lparr>c_parser_url := Some f\<rparr>" by (simp add: on_url_def)
    then show ?thesis
      by (intro that [of "r_query (c_request c)" "r_url (c_request c)" "Some f"]) simp
  qed
qed

lemma on_header_field_cases:
  assumes "on_header_field L at c = Inr (r, c')"
  obtains d key where "d = c \<or> d = push_header L c" "last_header_was_value c \<noteq> None"
    "cbuf_append at (header_key d) = Inr key"
    "c' = d\<lparr>header_key := key, last_header_was_value := Some False\<rparr>"
proof -
  from assms obtain v key where v: "last_header_was_value c = Some v"
    and key: "cbuf_append at (header_key (if v then push_header L c else c)) = Inr key"
    and c': "c' = (if v then push_header L c else c)\<lparr>header_key := key, last_header_was_value := Some False\<rparr>"
    unfolding on_header_field_def Let_def bindE_eq_Inr_iff initialised_eq_Inr_iff by blast
  from v key c' show ?thesis by (intro that [of "if v then push_header L c else c" key]) simp_all
qed

lemma on_header_value_cases:
  assumes "on_header_value at c = Inr (r, c')"
  obtains v where "cbuf_append at (header_val c) = Inr v"
    "c' = c\<lparr>header_val := v, last_header_was_value := Some True\<rparr>"
  using assms by (auto simp: on_header_value_def)

lemma on_headers_complete_cases:
  assumes "on_headers_complete L n m c = Inr (r, c')"
  obtains d where "d = c \<or> d = push_header L c" "last_header_was_value c \<noteq> None"
    "c' = d\<lparr>c_request := (c_request d)\<lparr>r_content_length := n, r_method := Some (method_of_code m)\<rparr>\<rparr>"
proof -
  from assms obtain v where v: "last_header_was_value c = Some v"
    and c': "c' = (if v then push_header L c else c)
      \<lparr>c_request := (c_request (if v then push_header L c else c))
        \<lparr>r_content_length := n, r_method := Some (method_of_code m)\<rparr>\<rparr>"
    unfolding on_headers_complete_def Let_def bindE_eq_Inr_iff initialised_eq_Inr_iff by auto
  then show ?thesis by (intro that [of "if v then push_header L c else c"]) simp_all
qed

lemma id_consistent_simps [simp]:
  "id_consistent L (r\<lparr>r_url := u\<rparr>) = id_consistent L r"
  "id_consistent L (r\<lparr>r_query := q\<rparr>) = id_consistent L r"
  "id_consistent L (r\<lparr>r_rx := x\<rparr>) = id_consistent L r"
  "id_consistent L (r\<lparr>r_content_length := n\<rparr>) = id_consistent L r"
  "id_consistent L (r\<lparr>r_method := m\<rparr>) = id_consistent L r"
  by (simp_all add: id_consistent_def)

lemma conn_ok_push_header:
  "text_law L \<Longrightarrow> conn_ok L c \<Longrightarrow> last_header_was_value c \<noteq> None \<Longrightarrow> conn_ok L (push_header L c)"
  by (simp add: conn_ok_def message_begun_def push_header_alloc)

lemma conn_ok_message_begin: "conn_ok L c \<Longrightarrow> on_message_begin L c = Inr (r, c') \<Longrightarrow> conn_ok L c'"
  by (auto simp: on_message_begin_def Let_def conn_ok_def reply_reset_def message_begun_def)

lemma conn_ok_url: "conn_ok L c \<Longrightarrow> on_url L at c = Inr (r, c') \<Longrightarrow> conn_ok L c'"
  by (erule on_url_cases) (simp add: conn_ok_def message_begun_def)

lemma conn_ok_header_field:
  assumes "text_law L" "conn_ok L c" "on_header_field L at c = Inr (r, c')"
  shows "conn_ok L c'"
proof -
  obtain d key where d: "d = c \<or> d = push_header L c" "last_header_was_value c \<noteq> None"
    "cbuf_append at (header_key d) = Inr key"
    "c' = d\<lparr>header_key := key, last_header_was_value := Some False\<rparr>"
    using assms(3) by (rule on_header_field_cases)
  from d(1,2) assms(1,2) have "conn_ok L d" by (auto simp: conn_ok_push_header)
  moreover have "last_header_was_value d \<noteq> None" using d(1,2) by auto
  ultimately show ?thesis
    using d(3,4) by (auto simp: conn_ok_def message_begun_def dest: cbuf_append_alloc)
qed

lemma conn_ok_header_value:
  assumes "conn_ok L c" "on_header_value at c = Inr (r, c')"
  shows "conn_ok L c'"
proof -
  obtain v where v: "cbuf_append at (header_val c) = Inr v"
    "c' = c\<lparr>header_val := v, last_header_was_value := Some True\<rparr>"
    using assms(2) by (rule on_header_value_cases)
  then have "cb_len (header_val c) \<noteq> None" by (auto simp: cbuf_append_def)
  with v assms(1) show ?thesis
    by (auto simp: conn_ok_def message_begun_def dest: cbuf_append_alloc)
qed

lemma conn_ok_headers_complete:
  assumes "text_law L" "conn_ok L c" "on_headers_complete L n m c = Inr (r, c')"
  shows "conn_ok L c'"
proof -
  obtain d where d: "d = c \<or> d = push_header L c" "last_header_was_value c \<noteq> None"
    "c' = d\<lparr>c_request := (c_request d)\<lparr>r_content_length := n, r_method := Some (method_of_code m)\<rparr>\<rparr>"
    using assms(3) by (rule on_headers_complete_cases)
  from d(1,2) assms(1,2) have "conn_ok L d" by (auto simp: conn_ok_push_header)
  with d(3) show ?thesis by (simp add: conn_ok_def message_begun_def)
qed

lemma conn_ok_callback:
  assumes "text_law L" and "conn_ok L c" and "parser_settings L ev c = Inr (r, c')"
  shows "conn_ok L c'"
proof (cases ev)
  case (Body at)
  with assms show ?thesis by (auto simp: on_body_def conn_ok_def message_begun_def)
next
  case (Message_complete k)
  with assms show ?thesis by (auto simp: on_message_complete_def conn_ok_def message_begun_def)
qed (use assms conn_ok_message_begin conn_ok_url conn_ok_header_field conn_ok_header_value
    conn_ok_headers_complete in auto)

text \<open>No callback writes the waiting flag or anything beyond the base class.\<close>

definition same_frame :: "('os, 'p, 'z) connection_scheme \<Rightarrow> ('os, 'p, 'z) connection_scheme \<Rightarrow> bool" where
  "same_frame c c' \<longleftrightarrow> waiting_for_async_reply c' = waiting_for_async_reply c
     \<and> connection.more c' = connection.more c"

lemma callback_frame:
  assumes "parser_settings L ev c = Inr (r, c')"
  shows "same_frame c c'"
proof (cases ev)
  case (Url at)
  with assms show ?thesis by (auto simp: same_frame_def elim!: on_url_cases)
next
  case (Header_field at)
  with assms show ?thesis by (auto simp: same_frame_def elim!: on_header_field_cases)
next
  case (Headers_complete n m)
  with assms show ?thesis by (auto simp: same_frame_def elim!: on_headers_complete_cases)
qed (use assms in \<open>auto simp: same_frame_def on_message_begin_def on_header_value_def
    on_body_def on_message_complete_def Let_def\<close>)

lemma same_frame_trans: "same_frame c d \<Longrightarrow> same_frame d e \<Longrightarrow> same_frame c e"
  by (simp add: same_frame_def)

lemma conn_ok_parser [simp]: "conn_ok L (c\<lparr>c_parser := p\<rparr>) = conn_ok L c"
  by (simp add: conn_ok_def message_begun_def)

lemma http_parse_ok:
  assumes "text_law L" and "conn_ok L c" and "http_parse L buf c = Inr (n, c')"
  shows "conn_ok L c'"
proof -
  from assms(3) obtain p c1 where run: "run_with (parser_settings L) (lib_execute L (c_parser c) buf) c = Inr ((n, p), c1)"
    and "c' = c1\<lparr>c_parser := p\<rparr>"
    by (auto simp: http_parse_def)
  moreover have "conn_ok L c1"
    using run_with_invariant [of "conn_ok L", OF conn_ok_callback [OF assms(1)] assms(2) run] .
  ultimately show ?thesis by simp
qed

lemma http_parse_frame:
  assumes "http_parse L buf c = Inr (n, c')"
  shows "same_frame c c'"
proof -
  from assms obtain p c1 where run: "run_with (parser_settings L) (lib_execute L (c_parser c) buf) c = Inr ((n, p), c1)"
    and c': "c' = c1\<lparr>c_parser := p\<rparr>"
    by (auto simp: http_parse_def)
  have "same_frame c c1"
    by (rule run_with_invariant [where P = "same_frame c", OF _ _ run])
      (auto dest: callback_frame same_frame_trans simp: same_frame_def)
  with c' show ?thesis by (simp add: same_frame_def)
qed

text \<open>
  C23. However the parser calls back, and on whatever memory the connection was made: after
  any block of bytes the two header arrays still have their declared size, the reply has a
  stream once a message has begun, and the identification of the request agrees with its
  uuid; and the server, the timer and the wait for an asynchronous reply are untouched.
\<close>

theorem connection_well_formed:
  assumes "text_law L"
  shows "(length key = MAX_HEADER_SIZE \<and> length v = MAX_HEADER_SIZE \<longrightarrow> conn_ok L (connection_new L tag key v))
    \<and> (conn_ok L c \<and> http_parse L buf c = Inr (n, c') \<longrightarrow> conn_ok L c' \<and> same_frame c c')"
  using conn_ok_new http_parse_ok [OF assms] http_parse_frame by blast

theorem connection_well_formed_witness:
  "let L = ref_libs [([Message_begin, Url ''/a''], 3)];
       c = connection_new L ''id'' (replicate MAX_HEADER_SIZE NUL) (replicate MAX_HEADER_SIZE NUL)
   in \<exists>c'. http_parse L ''...'' c = Inr (3, c') \<and> conn_ok L c'"
proof -
  define L where "L = ref_libs [([Message_begin, Url ''/a''], 3)]"
  let ?c = "connection_new L ''id'' (replicate MAX_HEADER_SIZE NUL) (replicate MAX_HEADER_SIZE NUL)"
  have "\<exists>c'. http_parse L ''...'' ?c = Inr (3, c')"
    by (simp add: http_parse_def on_message_begin_def on_url_def append_component_def substr_at_def
        connection_new_def L_def ref_libs_def)
  then obtain c' where c': "http_parse L ''...'' ?c = Inr (3, c')" by blast
  have lower: "text_law L" by (simp add: L_def)
  have "conn_ok L c'"
    using connection_well_formed [OF lower, of "replicate MAX_HEADER_SIZE NUL" "replicate MAX_HEADER_SIZE NUL" "''id''"
        ?c "''...''" 3 c'] c' by simp
  with c' show ?thesis by (simp only: Let_def L_def) blast
qed

end
