(* ===== verification/Assembly.thy ===== *)
theory Assembly
  imports Connection
begin

text \<open>
  What the callbacks of \<^verbatim>\<open>connection\<close> make of the sequences of events the parser emits for
  a request: everything arrives in fragments, cut wherever a read ended. The headers and the body
  that result depend on the concatenation of theirs only, and on nothing that was in the
  connection before; the fragments of the target are parsed one by one, and the first that is no
  target of its own makes the parser stop. Also what happens with header fields after the body.
\<close>

section \<open>Feeding events\<close>

fun feed ::
  "('os, 'p) libs \<Rightarrow> parser_event list \<Rightarrow> ('os, 'p, 'z) connection_scheme \<Rightarrow>
   ('os, 'p, 'z) connection_scheme res" where
  "feed L [] c = Inr c"
| "feed L (ev # evs) c = bindE (parser_settings L ev c) (\<lambda>(r, c'). feed L evs c')"

lemma run_with_calls:
  "run_with (parser_settings L) (calls evs a) c = bindE (feed L evs c) (\<lambda>c'. Inr (a, c'))"
  by (induction evs arbitrary: c) (auto simp: bindE_assoc split_def intro: bindE_cong)

lemma feed_append: "feed L (xs @ ys) c = bindE (feed L xs c) (feed L ys)"
  by (induction xs arbitrary: c) (auto simp: bindE_assoc split_def intro: bindE_cong)

text \<open>A header as the parser reports it: fragments of its name, then fragments of its value.\<close>

type_synonym fragments = "string list \<times> string list"

definition header_events :: "fragments \<Rightarrow> parser_event list" where
  "header_events f = map Header_field (fst f) @ map Header_value (snd f)"

definition fits :: "fragments \<Rightarrow> bool" where
  "fits f \<longleftrightarrow> fst f \<noteq> [] \<and> snd f \<noteq> []
     \<and> NUL \<notin> set (concat (fst f)) \<and> length (concat (fst f)) < MAX_HEADER_SIZE
     \<and> NUL \<notin> set (concat (snd f)) \<and> length (concat (snd f)) < MAX_HEADER_SIZE"

text \<open>The header the connection stores for it.\<close>

definition stored :: "('os, 'p) libs \<Rightarrow> fragments \<Rightarrow> header_t" where
  "stored L f = \<lparr>name = lib_to_lower L (concat (fst f)), val = lib_to_lower L (concat (snd f))\<rparr>"

section \<open>One array at a time\<close>

lemma feed_fields:
  "last_header_was_value c = Some False \<Longrightarrow>
   feed L (map Header_field ks) c =
     bindE (append_all cbuf_append ks (header_key c)) (\<lambda>kb. Inr (c\<lparr>header_key := kb\<rparr>))"
proof (induction ks arbitrary: c)
  case (Cons k ks)
  show ?case
  proof (cases "cbuf_append k (header_key c)")
    case (Inr kb)
    have same: "c\<lparr>header_key := kb, last_header_was_value := Some False\<rparr> = c\<lparr>header_key := kb\<rparr>"
      using Cons.prems by simp
    from Inr Cons.prems Cons.IH [of "c\<lparr>header_key := kb\<rparr>"] show ?thesis
      by (simp add: on_header_field_def same)
  qed (use Cons.prems in \<open>simp add: on_header_field_def\<close>)
qed simp

lemma feed_values:
  "feed L (map Header_value vs) c =
     bindE (append_all cbuf_append vs (header_val c)) (\<lambda>vb.
       Inr (c\<lparr>header_val := vb,
              last_header_was_value := (if vs = [] then last_header_was_value c else Some True)\<rparr>))"
proof (induction vs arbitrary: c)
  case (Cons v vs)
  then show ?case
    by (cases "cbuf_append v (header_val c)") (simp_all add: on_header_value_def)
qed simp

section \<open>One header at a time\<close>

text \<open>Between two headers: nothing collected, or a complete pair still to be pushed.\<close>

definition blank :: "('os, 'p, 'z) connection_scheme \<Rightarrow> bool" where
  "blank c \<longleftrightarrow> cbuf_invar (header_key c) \<and> cbuf_str (header_key c) = []
     \<and> cbuf_invar (header_val c) \<and> cbuf_str (header_val c) = []
     \<and> last_header_was_value c = Some False"

definition flush ::
  "('os, 'p) libs \<Rightarrow> ('os, 'p, 'z) connection_scheme \<Rightarrow> ('os, 'p, 'z) connection_scheme" where
  "flush L c = (if last_header_was_value c = Some True
                then (push_header L c)\<lparr>last_header_was_value := Some False\<rparr> else c)"

lemma feed_field_flush:
  "last_header_was_value c \<noteq> None \<Longrightarrow>
   feed L (Header_field k # evs) c = feed L (Header_field k # evs) (flush L c)"
  by (auto simp: flush_def on_header_field_def Let_def)

lemma feed_header:
  assumes "text_law L" and "blank c" and "fits f"
  shows "\<exists>c1 kb vb. feed L (header_events f) c = Inr c1 \<and> last_header_was_value c1 = Some True
     \<and> flush L c1 = c\<lparr>header_key := kb, header_val := vb,
         c_request := (c_request c)\<lparr>r_headers := r_headers (c_request c) @ [stored L f]\<rparr>\<rparr>
     \<and> blank (flush L c1)"
proof -
  obtain ks vs where f: "f = (ks, vs)" by (cases f)
  obtain kb where kb: "append_all cbuf_append ks (header_key c) = Inr kb" "cbuf_invar kb"
    "cbuf_str kb = concat ks"
    using cb.append_all_fits [of "header_key c" ks] assms(2,3) by (auto simp: blank_def fits_def f)
  obtain vb where vb: "append_all cbuf_append vs (header_val c) = Inr vb" "cbuf_invar vb"
    "cbuf_str vb = concat vs"
    using cb.append_all_fits [of "header_val c" vs] assms(2,3) by (auto simp: blank_def fits_def f)
  define c1 where "c1 = c\<lparr>header_key := kb, header_val := vb, last_header_was_value := Some True\<rparr>"
  have "feed L (header_events f) c = Inr c1"
    using assms(2,3) kb(1) vb(1)
    by (simp add: f header_events_def feed_append feed_fields feed_values blank_def fits_def c1_def)
  moreover have "flush L c1 = c\<lparr>header_key := cbuf_clear (cbuf_to_lower L kb),
      header_val := cbuf_clear (cbuf_to_lower L vb),
      c_request := (c_request c)\<lparr>r_headers := r_headers (c_request c) @ [stored L f]\<rparr>\<rparr>"
    using assms(2) kb(2,3) vb(2,3)
    by (simp add: flush_def push_header_def c1_def stored_def f cbuf_to_lower(1) [OF assms(1)]
        blank_def Let_def)
  moreover from this have "blank (flush L c1)"
    using assms(2) kb(2) vb(2) cbuf_clear_invar cbuf_to_lower(2) [OF assms(1)]
    by (simp add: blank_def)
  ultimately show ?thesis unfolding c1_def by (intro exI [of _ c1]) (auto simp: c1_def)
qed

lemma feed_headers:
  assumes "text_law L" and "blank (flush L c)" and "last_header_was_value c \<noteq> None"
    and "\<forall>f \<in> set fs. fits f"
  shows "\<exists>c1 kb vb. feed L (concat (map header_events fs)) c = Inr c1
     \<and> last_header_was_value c1 \<noteq> None
     \<and> flush L c1 = (flush L c)\<lparr>header_key := kb, header_val := vb,
         c_request := (c_request (flush L c))
           \<lparr>r_headers := r_headers (c_request (flush L c)) @ map (stored L) fs\<rparr>\<rparr>
     \<and> blank (flush L c1)"
  using assms(2-4)
proof (induction fs arbitrary: c)
  case Nil
  then show ?case
    by (intro exI [of _ c] exI [of _ "header_key (flush L c)"] exI [of _ "header_val (flush L c)"]) simp
next
  case (Cons f fs)
  from Cons.prems(3) have f: "fits f" by simp
  then obtain k ks where ks: "fst f = k # ks" by (cases "fst f") (auto simp: fits_def)
  obtain c1 kb vb where c1: "feed L (header_events f) (flush L c) = Inr c1"
    "last_header_was_value c1 = Some True"
    "flush L c1 = (flush L c)\<lparr>header_key := kb, header_val := vb,
       c_request := (c_request (flush L c))
         \<lparr>r_headers := r_headers (c_request (flush L c)) @ [stored L f]\<rparr>\<rparr>"
    "blank (flush L c1)"
    using feed_header [OF assms(1) Cons.prems(1) f] by blast
  have "feed L (header_events f) c = Inr c1"
    using c1(1) feed_field_flush [OF Cons.prems(2), of L k] by (simp add: header_events_def ks)
  then have "feed L (concat (map header_events (f # fs))) c = feed L (concat (map header_events fs)) c1"
    by (simp add: feed_append)
  moreover obtain c2 kb' vb' where "feed L (concat (map header_events fs)) c1 = Inr c2"
    "last_header_was_value c2 \<noteq> None"
    "flush L c2 = (flush L c1)\<lparr>header_key := kb', header_val := vb',
       c_request := (c_request (flush L c1))
         \<lparr>r_headers := r_headers (c_request (flush L c1)) @ map (stored L) fs\<rparr>\<rparr>"
    "blank (flush L c2)"
    using Cons.IH [OF c1(4)] c1(2) Cons.prems(3) by auto
  ultimately show ?case
    by (intro exI [of _ c2] exI [of _ kb'] exI [of _ vb']) (simp add: c1(3))
qed

lemma headers_complete_flush:
  "last_header_was_value c \<noteq> None \<Longrightarrow>
   on_headers_complete L n m c = Inr (0, (flush L c)\<lparr>last_header_was_value := last_header_was_value c,
     c_request := (c_request (flush L c))\<lparr>r_content_length := n, r_method := Some (method_of_code m)\<rparr>\<rparr>)"
proof -
  assume "last_header_was_value c \<noteq> None"
  then obtain v where "last_header_was_value c = Some v" by blast
  then show ?thesis by (cases v) (simp_all add: on_headers_complete_def flush_def Let_def)
qed

section \<open>A whole request\<close>

lemma feed_bodies:
  "feed L (map Body bs) c =
     Inr (c\<lparr>c_request := (c_request c)\<lparr>r_rx := foldl (lib_os_write L) (r_rx (c_request c)) bs\<rparr>\<rparr>)"
  by (induction bs arbitrary: c) (simp_all add: on_body_def)

lemma os_content_foldl:
  "avro_law L \<Longrightarrow> os_content L (foldl (lib_os_write L) os bs) = os_content L os @ concat bs"
  by (induction bs arbitrary: os) (simp_all add: avro_lawD)

text \<open>
  A message as the parser reports it. The target, like everything else, comes in as many
  fragments as there are buffers that hold a part of it: \<open>request_events\<close> is a message whose
  target lies in one buffer.
\<close>

definition message_events ::
  "string list \<Rightarrow> fragments list \<Rightarrow> 64 word \<Rightarrow> nat \<Rightarrow> string list \<Rightarrow> int \<Rightarrow> parser_event list" where
  "message_events us fs n m bs k =
     Message_begin # map Url us @ concat (map header_events fs) @ [Headers_complete n m]
       @ map Body bs @ [Message_complete k]"

definition request_events ::
  "string \<Rightarrow> fragments list \<Rightarrow> 64 word \<Rightarrow> nat \<Rightarrow> string list \<Rightarrow> int \<Rightarrow> parser_event list" where
  "request_events u fs n m bs k =
     [Message_begin, Url u] @ concat (map header_events fs) @ [Headers_complete n m]
       @ map Body bs @ [Message_complete k]"

lemma request_events_message: "request_events u fs n m bs k = message_events [u] fs n m bs k"
  by (simp add: request_events_def message_events_def)

lemma message_events_neq_Nil [simp]: "message_events us fs n m bs k \<noteq> []"
  by (simp add: message_events_def)

text \<open>
  \<^verbatim>\<open>http_parser_execute\<close> goes on only while the callbacks return 0; at the first other value it
  stops short. \<open>res\<close> maps the events that were not reported to the result.
\<close>

fun obeying :: "'ev list \<Rightarrow> ('ev list \<Rightarrow> 'a) \<Rightarrow> ('ev, int, 'a) run" where
  "obeying [] res = Done (res [])"
| "obeying (ev # evs) res = Call ev (\<lambda>r. if r = 0 then obeying evs res else Done (res evs))"

text \<open>The text of a component of the target, nothing when it is absent.\<close>

definition component :: "string \<Rightarrow> (nat \<times> nat) option \<Rightarrow> string" where
  "component u f = (case f of None \<Rightarrow> [] | Some (off, n) \<Rightarrow> take n (drop off u))"

definition in_range :: "string \<Rightarrow> (nat \<times> nat) option \<Rightarrow> bool" where
  "in_range u f \<longleftrightarrow> (case f of None \<Rightarrow> True | Some (off, n) \<Rightarrow> off + n \<le> length u)"

lemma append_component_in_range:
  "in_range u f \<Longrightarrow> append_component u f s = Inr (s @ component u f)"
  by (auto simp: in_range_def append_component_def component_def substr_at_def split: option.splits)

text \<open>
  \<^verbatim>\<open>on_url\<close> has \<^verbatim>\<open>http_parser_parse_url\<close> parse each fragment of the target by itself; the parts
  it finds are appended to path and query.
\<close>

definition piece_ok :: "('os, 'p) libs \<Rightarrow> string \<Rightarrow> bool" where
  "piece_ok L u \<longleftrightarrow> fst (lib_parse_url L u) = 0"

definition url_in_range :: "('os, 'p) libs \<Rightarrow> string \<Rightarrow> bool" where
  "url_in_range L u \<longleftrightarrow> in_range u (uf_path (snd (lib_parse_url L u))) \<and> in_range u (uf_query (snd (lib_parse_url L u)))"

definition piece_path :: "('os, 'p) libs \<Rightarrow> string \<Rightarrow> string" where
  "piece_path L u = component u (uf_path (snd (lib_parse_url L u)))"

definition piece_query :: "('os, 'p) libs \<Rightarrow> string \<Rightarrow> string" where
  "piece_query L u = component u (uf_query (snd (lib_parse_url L u)))"

lemma on_url_ok:
  "piece_ok L u \<Longrightarrow> url_in_range L u \<Longrightarrow>
   on_url L u c = Inr (0, c\<lparr>c_parser_url := Some (snd (lib_parse_url L u)), c_request := (c_request c)
     \<lparr>r_url := r_url (c_request c) @ piece_path L u, r_query := r_query (c_request c) @ piece_query L u\<rparr>\<rparr>)"
  by (cases "lib_parse_url L u")
    (simp add: piece_ok_def url_in_range_def piece_path_def piece_query_def on_url_def append_component_in_range)

lemma on_url_refused:
  "\<not> piece_ok L u \<Longrightarrow>
   on_url L u c = Inr (fst (lib_parse_url L u), c\<lparr>c_parser_url := Some (snd (lib_parse_url L u))\<rparr>)"
  by (cases "lib_parse_url L u") (simp add: piece_ok_def on_url_def)

lemma feed_urls:
  "\<forall>u \<in> set us. piece_ok L u \<and> url_in_range L u \<Longrightarrow>
   \<exists>pu. feed L (map Url us) c = Inr (c\<lparr>c_parser_url := pu, c_request := (c_request c)
     \<lparr>r_url := r_url (c_request c) @ concat (map (piece_path L) us),
      r_query := r_query (c_request c) @ concat (map (piece_query L) us)\<rparr>\<rparr>)"
proof (induction us arbitrary: c)
  case Nil
  show ?case by (intro exI [of _ "c_parser_url c"]) simp
next
  case (Cons u us)
  from Cons.prems have u: "piece_ok L u" "url_in_range L u" by simp_all
  from Cons.IH [of "c\<lparr>c_parser_url := Some (snd (lib_parse_url L u)), c_request := (c_request c)
     \<lparr>r_url := r_url (c_request c) @ piece_path L u, r_query := r_query (c_request c) @ piece_query L u\<rparr>\<rparr>"] Cons.prems
  show ?case by (simp add: on_url_ok [OF u])
qed

lemma message_begin_eq:
  "on_message_begin L c = Inr (0, c\<lparr>c_request := request_reset L (c_request c),
     c_reply := reply_reset L (c_reply c), c_request_complete := False,
     last_header_was_value := Some False,
     header_key := cbuf_clear (header_key c), header_val := cbuf_clear (header_val c)\<rparr>)"
  by (simp add: on_message_begin_def Let_def request_reset_def)

lemma message_of_events:
  assumes "text_law L" and "cbuf_alloc (header_key c)" and "cbuf_alloc (header_val c)"
    and "\<forall>u \<in> set us. piece_ok L u \<and> url_in_range L u" and "\<forall>f \<in> set fs. fits f"
  shows "\<exists>pu kb vb v. feed L (message_events us fs n m bs k) c =
     Inr (c\<lparr>c_request :=
              \<lparr>r_method = Some (method_of_code m), r_url = concat (map (piece_path L) us),
               r_query = concat (map (piece_query L) us), r_id = [], r_uuid = 0,
               r_headers = map (stored L) fs, r_content_length = n,
               r_rx = foldl (lib_os_write L) (lib_os_new L) bs\<rparr>,
            c_reply := reply_reset L (c_reply c),
            last_header_was_value := Some v, header_key := kb, header_val := vb,
            c_parser_url := pu, c_request_complete := True, c_keep_alive := (k \<noteq> 0)\<rparr>)"
proof -
  define r where "r = (request_reset L (c_request c))
    \<lparr>r_url := concat (map (piece_path L) us), r_query := concat (map (piece_query L) us)\<rparr>"
  define c0 where "c0 = c\<lparr>c_request := request_reset L (c_request c),
     c_reply := reply_reset L (c_reply c), c_request_complete := False,
     last_header_was_value := Some False,
     header_key := cbuf_clear (header_key c), header_val := cbuf_clear (header_val c)\<rparr>"
  obtain pu where pu: "feed L (map Url us) c0 = Inr (c0\<lparr>c_parser_url := pu, c_request := r\<rparr>)"
    using feed_urls [OF assms(4), of c0] by (auto simp: c0_def r_def request_reset_def)
  define c1 where "c1 = c0\<lparr>c_parser_url := pu, c_request := r\<rparr>"
  have 1: "feed L (Message_begin # map Url us) c = Inr c1"
    using pu by (simp add: message_begin_eq c0_def [symmetric] c1_def)
  have "blank c1" using assms(2,3) cbuf_clear_invar by (simp add: blank_def c1_def c0_def)
  moreover have fl: "flush L c1 = c1" by (simp add: flush_def c1_def c0_def)
  ultimately obtain c2 kb vb where c2: "feed L (concat (map header_events fs)) c1 = Inr c2"
    "last_header_was_value c2 \<noteq> None"
    "flush L c2 = c1\<lparr>header_key := kb, header_val := vb,
         c_request := r\<lparr>r_headers := map (stored L) fs\<rparr>\<rparr>"
    using feed_headers [OF assms(1), of c1 fs] assms(5)
    by (auto simp: c1_def c0_def r_def request_reset_def)
  from c2(2) obtain v where v: "last_header_was_value c2 = Some v" by blast
  define c3 where "c3 = c1\<lparr>header_key := kb, header_val := vb, last_header_was_value := Some v,
     c_request := r\<lparr>r_headers := map (stored L) fs, r_content_length := n,
       r_method := Some (method_of_code m)\<rparr>\<rparr>"
  have 3: "feed L [Headers_complete n m] c2 = Inr c3"
    by (simp add: headers_complete_flush [OF c2(2)] c2(3) v c3_def)
  have "feed L (message_events us fs n m bs k) c
      = bindE (feed L (Message_begin # map Url us) c) (feed L (concat (map header_events fs)
          @ [Headers_complete n m] @ map Body bs @ [Message_complete k]))"
    unfolding message_events_def feed_append [symmetric] by simp
  also have "\<dots> = bindE (feed L (map Body bs) c3) (feed L [Message_complete k])"
    using 1 c2(1) 3 by (simp only: feed_append bindE_Inr)
  finally show ?thesis
    by (intro exI [of _ pu] exI [of _ kb] exI [of _ vb] exI [of _ v])
      (simp add: feed_bodies on_message_complete_def c3_def c1_def c0_def r_def request_reset_def)
qed

text \<open>The parser stops at the first fragment of the target that does not parse by itself.\<close>

lemma callback_returns:
  "parser_settings L ev c = Inr (r, c') \<Longrightarrow> \<forall>u. ev = Url u \<longrightarrow> piece_ok L u \<Longrightarrow> r = 0"
  by (cases ev) (auto simp: callback_defs piece_ok_def Let_def split: prod.splits if_splits)

lemma run_obeying:
  "\<forall>u. Url u \<in> set xs \<longrightarrow> piece_ok L u \<Longrightarrow>
   run_with (parser_settings L) (obeying (xs @ ys) res) c
     = bindE (feed L xs c) (run_with (parser_settings L) (obeying ys res))"
proof (induction xs arbitrary: c)
  case (Cons ev xs)
  show ?case
  proof (cases "parser_settings L ev c")
    case (Inr p)
    obtain r d where p: "p = (r, d)" by fastforce
    with Inr have "r = 0" using callback_returns [of L ev c r d] Cons.prems by auto
    then show ?thesis using Inr p Cons by simp
  qed simp
qed simp

lemma run_refused:
  "\<not> piece_ok L u \<Longrightarrow> run_with (parser_settings L) (obeying (Url u # evs) res) c
     = Inr (res evs, c\<lparr>c_parser_url := Some (snd (lib_parse_url L u))\<rparr>)"
  by (simp add: on_url_refused) (simp add: piece_ok_def)

lemma message_refused:
  assumes "\<forall>u \<in> set us. piece_ok L u \<longrightarrow> url_in_range L u" and "\<not> (\<forall>u \<in> set us. piece_ok L u)"
  shows "\<exists>c'. run_with (parser_settings L) (obeying (message_events us fs n m bs k) res) c
      = Inr (res (drop (length (takeWhile (piece_ok L) us) + 2) (message_events us fs n m bs k)), c')
    \<and> \<not> c_request_complete c' \<and> r_headers (c_request c') = []
    \<and> r_url (c_request c') = concat (map (piece_path L) (takeWhile (piece_ok L) us))"
proof -
  let ?us = "takeWhile (piece_ok L) us"
  obtain u rest where us: "us = ?us @ u # rest" "\<not> piece_ok L u"
    using assms(2) by (metis dropWhile_eq_Nil_conv hd_dropWhile list.collapse takeWhile_dropWhile_id)
  define evs where "evs = map Url rest @ concat (map header_events fs) @ [Headers_complete n m]
    @ map Body bs @ [Message_complete k]"
  have split: "message_events us fs n m bs k = (Message_begin # map Url ?us) @ Url u # evs"
    unfolding message_events_def evs_def by (subst us(1)) simp
  define c0 where "c0 = c\<lparr>c_request := request_reset L (c_request c),
     c_reply := reply_reset L (c_reply c), c_request_complete := False,
     last_header_was_value := Some False,
     header_key := cbuf_clear (header_key c), header_val := cbuf_clear (header_val c)\<rparr>"
  have "\<forall>u \<in> set ?us. piece_ok L u \<and> url_in_range L u" using assms(1) by (auto dest: set_takeWhileD)
  from feed_urls [OF this, of c0] obtain d where d: "feed L (Message_begin # map Url ?us) c = Inr d"
    "\<not> c_request_complete d" "r_headers (c_request d) = []"
    "r_url (c_request d) = concat (map (piece_path L) ?us)"
    by (auto simp: message_begin_eq c0_def request_reset_def)
  have "\<forall>u. Url u \<in> set (Message_begin # map Url ?us) \<longrightarrow> piece_ok L u" by (auto dest: set_takeWhileD)
  from run_obeying [OF this, of "Url u # evs" res c] d(1) run_refused [OF us(2), of evs res d]
  have "run_with (parser_settings L) (obeying (message_events us fs n m bs k) res) c
      = Inr (res evs, d\<lparr>c_parser_url := Some (snd (lib_parse_url L u))\<rparr>)"
    by (simp only: split bindE_Inr)
  moreover have "drop (length ?us + 2) (message_events us fs n m bs k) = evs"
    unfolding split by simp
  ultimately show ?thesis using d(2-4) by simp
qed

lemma request_of_events:
  assumes "text_law L" and "cbuf_alloc (header_key c)" and "cbuf_alloc (header_val c)"
    and url: "lib_parse_url L u = (0, uf)" "in_range u (uf_path uf)" "in_range u (uf_query uf)"
    and "\<forall>f \<in> set fs. fits f"
  shows "\<exists>pu kb vb v. feed L (request_events u fs n m bs k) c =
     Inr (c\<lparr>c_request :=
              \<lparr>r_method = Some (method_of_code m), r_url = component u (uf_path uf),
               r_query = component u (uf_query uf), r_id = [], r_uuid = 0,
               r_headers = map (stored L) fs, r_content_length = n,
               r_rx = foldl (lib_os_write L) (lib_os_new L) bs\<rparr>,
            c_reply := reply_reset L (c_reply c),
            last_header_was_value := Some v, header_key := kb, header_val := vb,
            c_parser_url := pu, c_request_complete := True, c_keep_alive := (k \<noteq> 0)\<rparr>)"
  using message_of_events [OF assms(1-3), of "[u]" fs n m bs k] assms(4-7)
  by (simp add: request_events_message piece_ok_def url_in_range_def piece_path_def piece_query_def)

text \<open>A connection on which a message has just begun, for the witnesses.\<close>

lemma blank_exists: "\<exists>c :: (string, script) connection. blank c"
proof -
  let ?c = "connection_new (ref_libs []) ''t'' (replicate MAX_HEADER_SIZE NUL) (replicate MAX_HEADER_SIZE NUL)"
  obtain c where "on_message_begin (ref_libs []) ?c = Inr (0, c)" by (simp add: message_begin_eq)
  then have "blank c"
    using cbuf_clear_invar [of "header_key ?c"] cbuf_clear_invar [of "header_val ?c"]
    by (auto simp: message_begin_eq blank_def connection_new_def cbuf_alloc_def)
  then show ?thesis by blast
qed

section \<open>Properties\<close>


text \<open>A parser that takes a target by its first character only, for the witnesses.\<close>

definition origin_libs :: "script \<Rightarrow> (string, script) libs" where
  "origin_libs s = (ref_libs s)\<lparr>lib_parse_url := (\<lambda>u.
     (if take 1 u = ''/'' then 0 else 1, \<lparr>uf_path = Some (0, length u), uf_query = None\<rparr>))\<rparr>"

lemma os_content_parser [simp]:
  "os_content (L\<lparr>lib_parse_url := f\<rparr>) = os_content L" "os_content (L\<lparr>lib_execute := x\<rparr>) = os_content L"
  by (simp_all add: os_content_def fun_eq_iff)

lemma laws_parser [simp]:
  "text_law (L\<lparr>lib_parse_url := f\<rparr>) = text_law L" "text_law (L\<lparr>lib_execute := x\<rparr>) = text_law L"
  "avro_law (L\<lparr>lib_parse_url := f\<rparr>) = avro_law L" "avro_law (L\<lparr>lib_execute := x\<rparr>) = avro_law L"
  by (simp_all add: text_law_def avro_law_def)

lemma origin_libs_laws [simp]: "text_law (origin_libs s)" "avro_law (origin_libs s)"
  by (simp_all add: origin_libs_def)

lemma origin_pieces [simp]:
  "piece_ok (origin_libs s) u \<longleftrightarrow> take 1 u = ''/''" "url_in_range (origin_libs s) u"
  "piece_path (origin_libs s) u = u"
  by (simp_all add: piece_ok_def url_in_range_def piece_path_def origin_libs_def in_range_def component_def)

lemma single_pieces [simp]:
  "piece_ok (ref_libs s) u" "url_in_range (ref_libs s) u" "piece_path (ref_libs s) u = u" "piece_query (ref_libs s) u = []"
  by (simp_all add: piece_ok_def url_in_range_def piece_path_def piece_query_def ref_libs_def in_range_def component_def)


text \<open>
  A header whose name fits but whose value has 4096 characters or more, in any
  number of fragments, makes \<^verbatim>\<open>on_header_value\<close> write past
  \<^verbatim>\<open>_current_header_val\<close>, from any connection between two headers.
\<close>

theorem long_header_overflows:
  assumes "blank c" and "ks \<noteq> []" and "NUL \<notin> set (concat ks)" and "length (concat ks) < MAX_HEADER_SIZE"
    and "NUL \<notin> set (concat vs)" and "MAX_HEADER_SIZE \<le> length (concat vs)"
  shows "run_with (parser_settings L) (calls (header_events (ks, vs) @ evs) a) c = Inl Buffer_overflow"
proof -
  obtain kb where kb: "append_all cbuf_append ks (header_key c) = Inr kb"
    using cb.append_all_fits [of "header_key c" ks] assms(1,3,4) by (auto simp: blank_def)
  moreover have "append_all cbuf_append vs (header_val c) = Inl Buffer_overflow"
    using cb.append_all_overflows [of "header_val c" vs] assms(1,5,6)
    by (auto simp: blank_def MAX_HEADER_SIZE_def)
  ultimately have "feed L (header_events (ks, vs)) c = Inl Buffer_overflow"
    using assms(1) by (simp add: header_events_def feed_append feed_fields feed_values blank_def)
  then show ?thesis by (simp add: run_with_calls feed_append)
qed

theorem long_header_overflows_witness:
  "\<exists>c :: (string, script) connection.
     blank c \<and> run_with (parser_settings (ref_libs []))
       (calls (header_events ([''cookie''], [replicate 4096 CHR ''x'']) @ []) ()) c = Inl Buffer_overflow"
proof -
  obtain c :: "(string, script) connection" where "blank c" using blank_exists by blast
  moreover from this have "run_with (parser_settings (ref_libs []))
       (calls (header_events ([''cookie''], [replicate 4096 CHR ''x'']) @ []) ()) c = Inl Buffer_overflow"
    by (rule long_header_overflows) (simp_all add: MAX_HEADER_SIZE_def NUL_def)
  ultimately show ?thesis by blast
qed

text \<open>
  \<^verbatim>\<open>on_headers_complete\<close> leaves \<^verbatim>\<open>_last_header_was_value\<close> set, so a header field after
  the body (a trailer of a chunked message) first pushes a pair of empty strings onto
  the headers of the request; the trailer itself is not stored when the message
  completes.
\<close>

theorem trailer_pushes_empty_header:
  assumes "text_law L" and "blank (flush L c)" and "last_header_was_value c = Some True" and "fits t"
  shows "\<exists>c'. feed L (Headers_complete n m # map Body bs @ header_events t @ [Message_complete k]) c = Inr c'
      \<and> r_headers (c_request c') = r_headers (c_request (flush L c)) @ [empty_header]"
proof -
  obtain ks vs where t: "t = (ks, vs)" by (cases t)
  obtain k1 ks1 where ks: "ks = k1 # ks1" using assms(4) by (cases ks) (auto simp: fits_def t)
  define c1 where "c1 = (flush L c)\<lparr>last_header_was_value := Some True,
     c_request := (c_request (flush L c))\<lparr>r_content_length := n, r_method := Some (method_of_code m),
       r_rx := foldl (lib_os_write L) (r_rx (c_request (flush L c))) bs\<rparr>\<rparr>"
  have 1: "feed L (Headers_complete n m # map Body bs) c = Inr c1"
    using assms(3) by (simp add: headers_complete_flush feed_bodies c1_def)
  have key: "cbuf_invar (header_key c1)" "cbuf_str (header_key c1) = []"
    "cbuf_invar (header_val c1)" "cbuf_str (header_val c1) = []"
    using assms(2) by (simp_all add: blank_def c1_def)
  have lower: "lib_to_lower L [] = []" using text_lawD(3) [OF assms(1), of "[]"] by simp
  have pushed: "r_headers (c_request (flush L c1)) = r_headers (c_request (flush L c)) @ [empty_header]"
    using key by (simp add: flush_def push_header_def Let_def cbuf_to_lower(1) [OF assms(1)] lower c1_def)
  have "blank (flush L c1)"
    using key cbuf_clear_invar cbuf_to_lower(2) [OF assms(1)]
    by (simp add: flush_def push_header_def Let_def blank_def c1_def)
  then obtain kb vb where bufs: "append_all cbuf_append ks (header_key (flush L c1)) = Inr kb"
    "append_all cbuf_append vs (header_val (flush L c1)) = Inr vb"
    using assms(4) cb.append_all_fits [of "header_key (flush L c1)" ks]
      cb.append_all_fits [of "header_val (flush L c1)" vs]
    by (auto simp: blank_def fits_def t)
  define c2 where "c2 = (flush L c1)\<lparr>header_key := kb, header_val := vb,
      last_header_was_value := Some True\<rparr>"
  have "last_header_was_value (flush L c1) = Some False" "vs \<noteq> []"
    using \<open>blank (flush L c1)\<close> assms(4) by (simp_all add: blank_def fits_def t)
  with bufs have "feed L (header_events t) (flush L c1) = Inr c2"
    by (simp add: t header_events_def feed_append feed_fields feed_values c2_def)
  then have 2: "feed L (header_events t) c1 = Inr c2"
    using feed_field_flush [of c1 L k1] by (simp add: t ks header_events_def c1_def)
  have "r_headers (c_request c2) = r_headers (c_request (flush L c)) @ [empty_header]"
    by (simp add: c2_def pushed)
  moreover have "feed L (Headers_complete n m # map Body bs @ header_events t @ [Message_complete k]) c
      = bindE (feed L (header_events t) c1) (feed L [Message_complete k])"
    using 1 feed_append [of L "Headers_complete n m # map Body bs" "header_events t @ [Message_complete k]" c]
    by (simp only: feed_append bindE_Inr append_Cons append_assoc)
  moreover have "bindE (feed L (header_events t) c1) (feed L [Message_complete k])
      = Inr (c2\<lparr>c_keep_alive := (k \<noteq> 0), c_request_complete := True\<rparr>)"
    by (simp add: 2 on_message_complete_def)
  ultimately show ?thesis
    by (intro exI [of _ "c2\<lparr>c_keep_alive := (k \<noteq> 0), c_request_complete := True\<rparr>"])
      (simp del: feed.simps)
qed

theorem trailer_pushes_empty_header_witness:
  "\<exists>(c :: (string, script) connection) c'.
     feed (ref_libs []) (Headers_complete 0 3 # map Body [''hi''] @ header_events ([''x''], [''y'']) @ [Message_complete 1]) c
       = Inr c'
     \<and> r_headers (c_request c') = r_headers (c_request (flush (ref_libs []) c)) @ [empty_header]"
proof -
  have fits: "fits ([''x''], [''y''])" by (simp add: fits_def MAX_HEADER_SIZE_def NUL_def)
  obtain b :: "(string, script) connection" where b: "blank b" using blank_exists by blast
  obtain c :: "(string, script) connection"
    where c: "last_header_was_value c = Some True" "blank (flush (ref_libs []) c)"
    using feed_header [OF text_law_ref_libs [of "[]"] b fits] by auto
  show ?thesis
    using trailer_pushes_empty_header [OF text_law_ref_libs c(2,1) fits, of 0 3 "[''hi'']" 1] by blast
qed

end
