(* ===== verification/Uri_Pattern.thy ===== *)
theory Uri_Pattern
  imports Libraries
begin

text \<open>
  \<^verbatim>\<open>csi::uri_pattern\<close> (\<^verbatim>\<open>utils/uri_pattern.h\<close>, \<^verbatim>\<open>utils/uri_pattern.cpp\<close>): the constructor and
  \<^verbatim>\<open>match\<close>, the declarative meaning of a pattern, and the proof that \<^verbatim>\<open>match\<close> decides it
  without reading past a vector or failing its assertion.
\<close>

section \<open>The code\<close>

record uri_pattern =
  parts :: "string list"
  catch_all :: bool

definition uri_pattern_new :: "(string \<Rightarrow> string list) \<Rightarrow> string \<Rightarrow> uri_pattern" where
  "uri_pattern_new split str =
     (let ps = split str in
      if length ps = 0 then \<lparr>parts = ps, catch_all = False\<rparr>
      else if ps ! (length ps - 1) = ''#'' then \<lparr>parts = butlast ps, catch_all = True\<rparr>
      else \<lparr>parts = ps, catch_all = False\<rparr>)"

text \<open>The loop of \<^verbatim>\<open>match\<close>, from index \<open>i\<close> up to \<open>n\<close>.\<close>

function match_loop :: "string list \<Rightarrow> string list \<Rightarrow> nat \<Rightarrow> nat \<Rightarrow> bool res" where
  "match_loop ps qs n i =
     (if i < n then
        bindE (vec_at ps i) (\<lambda>p.
          if p \<noteq> ''+'' then
            bindE (vec_at qs i) (\<lambda>q. if p \<noteq> q then Inr False else match_loop ps qs n (Suc i))
          else match_loop ps qs n (Suc i))
      else Inr True)"
  by pat_completeness auto
termination
  by (relation "measure (\<lambda>(ps, qs, n, i). n - i)") auto

declare match_loop.simps [simp del]

definition uri_pattern_match :: "uri_pattern \<Rightarrow> string list \<Rightarrow> bool res" where
  "uri_pattern_match p qs =
     (if length (parts p) > length qs then Inr False
      else if \<not> catch_all p \<and> length (parts p) \<noteq> length qs then Inr False
      else if catch_all p \<and> length (parts p) \<ge> length qs then Inr False
      else bindE (match_loop (parts p) qs (length (parts p)) 0) (\<lambda>b.
        if \<not> b then Inr False
        else if length (parts p) = length qs \<or> catch_all p then Inr True
        else Inl Assertion))"

section \<open>What a pattern means\<close>

text \<open>
  Level by level: a plus sign matches any one level, a final number sign matches one or
  more remaining levels, anything else matches itself.
\<close>

inductive uri_matches :: "string list \<Rightarrow> string list \<Rightarrow> bool" where
  end_of_path: "uri_matches [] []"
| all_the_rest: "uri_matches [''#''] (q # qs)"
| any_level: "uri_matches ps qs \<Longrightarrow> uri_matches (''+'' # ps) (q # qs)"
| same_level: "uri_matches ps qs \<Longrightarrow> uri_matches (p # ps) (p # qs)"

code_pred uri_matches .

inductive_simps uri_matches_Nil [simp]: "uri_matches [] qs"
inductive_simps uri_matches_Nil2 [simp]: "uri_matches ps []"
inductive_simps uri_matches_Cons: "uri_matches (p # ps) (q # qs)"

section \<open>The loop\<close>

definition level_ok :: "string \<Rightarrow> string \<Rightarrow> bool" where
  "level_ok p q \<longleftrightarrow> p = ''+'' \<or> p = q"

lemma all_from_Suc:
  "i < n \<Longrightarrow> (\<forall>j. i \<le> j \<and> j < n \<longrightarrow> P j) \<longleftrightarrow> P i \<and> (\<forall>j. Suc i \<le> j \<and> j < n \<longrightarrow> P j)"
  for i n :: nat
  by (metis Suc_le_eq le_neq_implies_less less_or_eq_imp_le)

lemma match_loop_eq:
  assumes "n \<le> length ps" "n \<le> length qs"
  shows "match_loop ps qs n i = Inr (\<forall>j. i \<le> j \<and> j < n \<longrightarrow> level_ok (ps ! j) (qs ! j))"
proof (induction "n - i" arbitrary: i)
  case 0
  then show ?case by (auto simp: match_loop.simps [of ps qs n i])
next
  case (Suc d)
  then have i: "i < n" and d: "d = n - Suc i" by auto
  have "match_loop ps qs n i =
      (if level_ok (ps ! i) (qs ! i) then match_loop ps qs n (Suc i) else Inr False)"
    using i assms by (simp add: match_loop.simps [of ps qs n i] level_ok_def)
  also have "\<dots> = Inr (level_ok (ps ! i) (qs ! i) \<and>
      (\<forall>j. Suc i \<le> j \<and> j < n \<longrightarrow> level_ok (ps ! j) (qs ! j)))"
    by (simp add: Suc.hyps(1) [OF d])
  finally show ?case using all_from_Suc [OF i] by simp
qed

lemma list_all2_level_ok:
  "list_all2 level_ok ps qs \<longleftrightarrow>
     length ps = length qs \<and> (\<forall>j < length ps. level_ok (ps ! j) (qs ! j))"
  by (auto simp: list_all2_conv_all_nth)

text \<open>\<^verbatim>\<open>match\<close> in closed form; in particular it returns on every input.\<close>

lemma uri_pattern_match_eq:
  "uri_pattern_match p qs =
     Inr (if catch_all p
          then length (parts p) < length qs \<and> list_all2 level_ok (parts p) (take (length (parts p)) qs)
          else list_all2 level_ok (parts p) qs)"
proof (cases "length (parts p) \<le> length qs")
  case False
  then show ?thesis by (auto simp: uri_pattern_match_def dest: list_all2_lengthD)
next
  case True
  then show ?thesis
    by (auto simp: uri_pattern_match_def match_loop_eq list_all2_level_ok min_def
        dest: list_all2_lengthD)
qed

section \<open>The meaning\<close>

lemma uri_matches_refl: "uri_matches ps ps"
  by (induction ps) (auto intro: uri_matches.intros)

lemma uri_matches_levels:
  "last ps \<noteq> ''#'' \<or> ps = [] \<Longrightarrow> uri_matches ps qs \<longleftrightarrow> list_all2 level_ok ps qs"
proof (induction ps arbitrary: qs)
  case Nil
  then show ?case by auto
next
  case (Cons p ps)
  show ?case
  proof (cases qs)
    case Nil
    then show ?thesis by simp
  next
    case (Cons q qs')
    have "p # ps \<noteq> [''#'']" using Cons.prems by auto
    moreover have "last ps \<noteq> ''#'' \<or> ps = []" using Cons.prems by (auto split: if_splits)
    ultimately show ?thesis
      using Cons.IH [of qs'] Cons by (auto simp: uri_matches_Cons level_ok_def)
  qed
qed

lemma uri_matches_rest:
  "uri_matches (ps @ [''#'']) qs \<longleftrightarrow>
     length ps < length qs \<and> list_all2 level_ok ps (take (length ps) qs)"
proof (induction ps arbitrary: qs)
  case Nil
  then show ?case by (cases qs) (auto simp: uri_matches_Cons)
next
  case (Cons p ps)
  then show ?case
    by (cases qs) (auto simp: uri_matches_Cons level_ok_def)
qed

lemma uri_pattern_new_rest:
  "split str = ps @ [''#''] \<Longrightarrow> uri_pattern_new split str = \<lparr>parts = ps, catch_all = True\<rparr>"
  by (simp add: uri_pattern_new_def Let_def)

lemma uri_pattern_new_exact:
  "split str \<noteq> [] \<Longrightarrow> last (split str) \<noteq> ''#'' \<Longrightarrow>
     uri_pattern_new split str = \<lparr>parts = split str, catch_all = False\<rparr>"
  by (simp add: uri_pattern_new_def Let_def last_conv_nth)

lemma uri_pattern_match_spec:
  assumes "split_law split"
  shows "uri_pattern_match (uri_pattern_new split str) qs = Inr (uri_matches (split str) qs)"
proof -
  have ne: "split str \<noteq> []" using assms by (auto simp: split_law_def)
  show ?thesis
  proof (cases "last (split str) = ''#''")
    case True
    with ne obtain ps where "split str = ps @ [''#'']" by (metis append_butlast_last_id)
    then show ?thesis
      by (simp add: uri_pattern_match_eq uri_pattern_new_rest uri_matches_rest)
  next
    case False
    with ne show ?thesis
      by (simp add: uri_pattern_match_eq uri_pattern_new_exact uri_matches_levels)
  qed
qed

text \<open>
  C18. Constructor and \<^verbatim>\<open>match\<close> together implement the pattern language: on every path the
  loop ends without leaving either vector, and the answer is whether the levels of the
  pattern match those of the path, \<open>+\<close> standing for one level and a final \<open>#\<close> for one or
  more.
\<close>

theorem uri_pattern_refines:
  assumes "split_law split"
  shows "uri_pattern_match (uri_pattern_new split str) (split path)
     = Inr (uri_matches (split str) (split path))"
  by (rule uri_pattern_match_spec [OF assms])

theorem uri_pattern_refines_witness:
  "uri_pattern_match (uri_pattern_new split_slash ''/a/+/#'') (split_slash ''/a/b/c'') = Inr True
   \<and> uri_pattern_match (uri_pattern_new split_slash ''/a/+/#'') (split_slash ''/a/b'') = Inr False"
  using uri_pattern_refines [OF split_law_split_slash, of "''/a/+/#''" "''/a/b/c''"]
    uri_pattern_refines [OF split_law_split_slash, of "''/a/+/#''" "''/a/b''"]
  by (simp add: uri_matches_Cons)

end
