(* ===== verification/Server.thy ===== *)
theory Server
  imports Uri_Pattern
begin

text \<open>
  \<^verbatim>\<open>csi::http::server<connection_type>\<close> (\<^verbatim>\<open>server/server.h\<close>): registration, dispatch of a
  request to the first handler whose pattern matches, and the request statistics. The
  connection type of the template is a type variable; what the template asks of it
  (\<^verbatim>\<open>connection->request().url()\<close> and \<^verbatim>\<open>connection->reply().create(not_found)\<close>) are
  arguments. The lock that \<^verbatim>\<open>handler_data::call\<close> holds while the handler runs is the
  subject of the theory \<open>Spinlock\<close>; here a call is one uninterrupted step.
\<close>

section \<open>handler_data\<close>

record 'c handler_data =
  pattern :: uri_pattern
  handler :: "string list \<Rightarrow> 'c \<Rightarrow> 'c res"
  nr_of_requests :: "64 word"

text \<open>
  The constructor initialises the pattern and the handler only: the counter starts with
  whatever the memory held, the argument \<open>garbage\<close>.
\<close>

definition handler_data_new ::
  "(string \<Rightarrow> string list) \<Rightarrow> string \<Rightarrow> (string list \<Rightarrow> 'c \<Rightarrow> 'c res) \<Rightarrow> 64 word \<Rightarrow> 'c handler_data" where
  "handler_data_new split pat h garbage =
     \<lparr>pattern = uri_pattern_new split pat, handler = h, nr_of_requests = garbage\<rparr>"

definition handler_match :: "'c handler_data \<Rightarrow> string list \<Rightarrow> bool res" where
  "handler_match h uri = uri_pattern_match (pattern h) uri"

definition handler_call ::
  "'c handler_data \<Rightarrow> string list \<Rightarrow> 'c \<Rightarrow> ('c handler_data \<times> 'c) res" where
  "handler_call h uri c =
     (let h' = h\<lparr>nr_of_requests := nr_of_requests h + 1\<rparr>
      in bindE (handler h' uri c) (\<lambda>c'. Inr (h', c')))"

section \<open>server\<close>

type_synonym 'c server = "'c handler_data list"

definition add_handler ::
  "(string \<Rightarrow> string list) \<Rightarrow> string \<Rightarrow> (string list \<Rightarrow> 'c \<Rightarrow> 'c res) \<Rightarrow> 64 word \<Rightarrow>
   'c server \<Rightarrow> 'c server" where
  "add_handler split pat h garbage hs = hs @ [handler_data_new split pat h garbage]"

text \<open>
  The loop over the handlers, over any type of entries with a match and a call
  operation: the entry that was called is put back with its new counter.
\<close>

fun dispatch_loop ::
  "('h \<Rightarrow> string list \<Rightarrow> bool res) \<Rightarrow> ('h \<Rightarrow> string list \<Rightarrow> 'c \<Rightarrow> ('h \<times> 'c) res) \<Rightarrow>
   ('c \<Rightarrow> 'c res) \<Rightarrow> 'h list \<Rightarrow> string list \<Rightarrow> 'c \<Rightarrow> ('h list \<times> 'c) res" where
  "dispatch_loop hmatch hcall not_found [] ps c = bindE (not_found c) (\<lambda>c'. Inr ([], c'))"
| "dispatch_loop hmatch hcall not_found (h # hs) ps c =
     bindE (hmatch h ps) (\<lambda>b.
       if b then bindE (hcall h ps c) (\<lambda>(h', c'). Inr (h' # hs, c'))
       else bindE (dispatch_loop hmatch hcall not_found hs ps c) (\<lambda>(hs', c'). Inr (h # hs', c')))"

definition handle_request ::
  "(string \<Rightarrow> string list) \<Rightarrow> ('c \<Rightarrow> string) \<Rightarrow> ('c \<Rightarrow> 'c res) \<Rightarrow> 'c server \<Rightarrow> 'c \<Rightarrow>
   ('c server \<times> 'c) res" where
  "handle_request split url create_not_found hs c =
     dispatch_loop handler_match handler_call create_not_found hs (split (url c)) c"

fun count_loop ::
  "('h \<Rightarrow> string list \<Rightarrow> bool res) \<Rightarrow> ('h \<Rightarrow> 64 word) \<Rightarrow> 'h list \<Rightarrow> string list \<Rightarrow> 64 word \<Rightarrow>
   64 word res" where
  "count_loop hmatch hcount [] ps result = Inr result"
| "count_loop hmatch hcount (h # hs) ps result =
     bindE (hmatch h ps) (\<lambda>b.
       count_loop hmatch hcount hs ps (if b then result + hcount h else result))"

definition get_no_of_requests ::
  "(string \<Rightarrow> string list) \<Rightarrow> 'c server \<Rightarrow> string \<Rightarrow> 64 word res" where
  "get_no_of_requests split hs pat = count_loop handler_match nr_of_requests hs (split pat) 0"

section \<open>The contract between the server and its entries\<close>

text \<open>
  What the loops rely on: matching always answers, and a call counts itself and leaves
  the set of paths the entry accepts alone.
\<close>

locale handler_entry =
  fixes accepts :: "'h \<Rightarrow> string list \<Rightarrow> bool"
    and hmatch :: "'h \<Rightarrow> string list \<Rightarrow> bool res"
    and hcall :: "'h \<Rightarrow> string list \<Rightarrow> 'c \<Rightarrow> ('h \<times> 'c) res"
    and hcount :: "'h \<Rightarrow> 64 word"
  assumes match_answers: "hmatch h ps = Inr (accepts h ps)"
    and call_counts: "hcall h ps c = Inr (h', c') \<Longrightarrow> hcount h' = hcount h + 1"
    and call_accepts: "hcall h ps c = Inr (h', c') \<Longrightarrow> accepts h' = accepts h"
begin

lemma dispatch_hit:
  "\<forall>a \<in> set as. \<not> accepts a ps \<Longrightarrow> accepts h ps \<Longrightarrow>
   dispatch_loop hmatch hcall nf (as @ h # bs) ps c =
     bindE (hcall h ps c) (\<lambda>(h', c'). Inr (as @ h' # bs, c'))"
  by (induction as) (auto simp: match_answers bindE_assoc split_def intro: bindE_cong)

lemma dispatch_miss:
  "\<forall>a \<in> set as. \<not> accepts a ps \<Longrightarrow>
   dispatch_loop hmatch hcall nf as ps c = bindE (nf c) (\<lambda>c'. Inr (as, c'))"
  by (induction as) (auto simp: match_answers bindE_assoc intro: bindE_cong)

lemma count_loop_eq:
  "count_loop hmatch hcount hs ps n =
     Inr (n + (\<Sum>h \<leftarrow> hs. if accepts h ps then hcount h else 0))"
  by (induction hs arbitrary: n) (auto simp: match_answers add.assoc)

lemma dispatch_cases:
  obtains (hit) as h bs where "hs = as @ h # bs" "\<forall>a \<in> set as. \<not> accepts a ps" "accepts h ps"
  | (miss) "\<forall>a \<in> set hs. \<not> accepts a ps"
  using split_list_first_prop [of hs "\<lambda>h. accepts h ps"] by blast

text \<open>
  A dispatch moves the statistics of any query by one, or not at all: by one exactly
  when the entry it hit accepts the query too.
\<close>

lemma dispatch_statistics:
  assumes "dispatch_loop hmatch hcall nf hs ps c = Inr (hs', c')"
  shows "(\<exists>h \<in> set hs. accepts h ps \<and> accepts h qs \<and>
            count_loop hmatch hcount hs' qs n = map_sum id (\<lambda>k. k + 1) (count_loop hmatch hcount hs qs n))
       \<or> count_loop hmatch hcount hs' qs n = count_loop hmatch hcount hs qs n"
proof (cases rule: dispatch_cases [of hs ps])
  case (hit as h bs)
  with assms obtain h' where call: "hcall h ps c = Inr (h', c')" and "hs' = as @ h' # bs"
    by (auto simp: dispatch_hit)
  then show ?thesis
    using hit call_counts [OF call] call_accepts [OF call]
    by (cases "accepts h qs") (auto simp: count_loop_eq algebra_simps)
next
  case miss
  with assms show ?thesis by (auto simp: dispatch_miss)
qed

end

section \<open>handler_data keeps the contract\<close>

definition serves :: "'c handler_data \<Rightarrow> string list \<Rightarrow> bool" where
  "serves h ps \<longleftrightarrow> uri_pattern_match (pattern h) ps = Inr True"

lemma handler_match_answers: "handler_match h ps = Inr (serves h ps)"
  by (simp add: handler_match_def serves_def uri_pattern_match_eq)

interpretation hd: handler_entry serves handler_match handler_call nr_of_requests
  by unfold_locales
    (auto simp: handler_match_answers handler_call_def serves_def Let_def fun_eq_iff)

lemma serves_new:
  "split_law split \<Longrightarrow> serves (handler_data_new split pat f n) ps \<longleftrightarrow> uri_matches (split pat) ps"
  by (simp add: serves_def handler_data_new_def uri_pattern_match_spec)

lemma nr_of_requests_new [simp]: "nr_of_requests (handler_data_new split pat f n) = n"
  by (simp add: handler_data_new_def)

text \<open>A server built by registering handlers one after the other.\<close>

type_synonym 'c registration = "string \<times> (string list \<Rightarrow> 'c \<Rightarrow> 'c res) \<times> 64 word"

fun register :: "(string \<Rightarrow> string list) \<Rightarrow> 'c registration list \<Rightarrow> 'c server \<Rightarrow> 'c server" where
  "register split [] hs = hs"
| "register split ((pat, f, n) # rs) hs = register split rs (add_handler split pat f n hs)"

lemma register_eq:
  "register split rs hs = hs @ map (\<lambda>(pat, f, n). handler_data_new split pat f n) rs"
  by (induction split rs hs rule: register.induct) (simp_all add: add_handler_def)

lemma handler_call_new:
  "handler_call (handler_data_new split pat f n) ps c =
     bindE (f ps c) (\<lambda>c'. Inr (handler_data_new split pat f (n + 1), c'))"
  by (simp add: handler_call_def handler_data_new_def Let_def)

lemma not_served_before:
  "split_law split \<Longrightarrow> \<forall>(pat, f, n) \<in> set rs. \<not> uri_matches (split pat) ps \<Longrightarrow>
   \<forall>h \<in> set (map (\<lambda>(pat, f, n). handler_data_new split pat f n) rs). \<not> serves h ps"
  by (auto simp: serves_new)

lemma uri_matches_number_sign: "uri_matches ps [''#''] \<longleftrightarrow> ps = [''#''] \<or> ps = [''+'']"
  by (cases ps) (auto simp: uri_matches_Cons)

section \<open>Properties\<close>

text \<open>
  C24. A request goes to the first registered handler whose pattern matches its path,
  level by level; that handler gets the levels of the path and the connection, and its
  counter, and no other, goes up by one. The other registrations stay as they are.
\<close>

theorem dispatch_first_match:
  assumes "split_law split"
    and "\<forall>(p, g, m) \<in> set before. \<not> uri_matches (split p) (split (url c))"
    and "uri_matches (split pat) (split (url c))"
  shows "handle_request split url nf (register split (before @ (pat, f, n) # after) []) c =
     bindE (f (split (url c)) c)
       (\<lambda>c'. Inr (register split (before @ (pat, f, n + 1) # after) [], c'))"
proof -
  have "\<forall>h \<in> set (register split before []). \<not> serves h (split (url c))"
    using not_served_before [OF assms(1,2)] by (simp add: register_eq)
  moreover have "serves (handler_data_new split pat f n) (split (url c))"
    using assms by (simp add: serves_new)
  ultimately show ?thesis
    unfolding handle_request_def
    using hd.dispatch_hit [of "register split before []" "split (url c)"
        "handler_data_new split pat f n" nf "register split after []" c]
    by (simp add: register_eq handler_call_new bindE_assoc)
qed

theorem dispatch_first_match_witness:
  "handle_request split_slash id Inr
     (register split_slash ([(''/a/+'', \<lambda>_ c. Inr ''first'', 7)] @ (''/b/#'', \<lambda>_ c. Inr ''second'', 4)
       # [(''/b/c'', \<lambda>_ c. Inr ''third'', 9)]) []) ''/b/c'' =
   bindE (Inr ''second'') (\<lambda>c'. Inr
     (register split_slash ([(''/a/+'', \<lambda>_ c. Inr ''first'', 7)] @ (''/b/#'', \<lambda>_ c. Inr ''second'', 4 + 1)
       # [(''/b/c'', \<lambda>_ c. Inr ''third'', 9)]) [], c'))"
  by (rule dispatch_first_match [OF split_law_split_slash])
    (simp_all add: uri_matches_Cons)

text \<open>
  When no registered pattern matches the path, the connection gets the
  \<^verbatim>\<open>not_found\<close> reply and the server is unchanged, counters included.
\<close>

theorem dispatch_not_found:
  assumes "split_law split"
    and "\<forall>(p, g, m) \<in> set rs. \<not> uri_matches (split p) (split (url c))"
  shows "handle_request split url nf (register split rs []) c =
     bindE (nf c) (\<lambda>c'. Inr (register split rs [], c'))"
proof -
  have "\<forall>h \<in> set (register split rs []). \<not> serves h (split (url c))"
    using not_served_before [OF assms] by (simp add: register_eq)
  then show ?thesis unfolding handle_request_def by (rule hd.dispatch_miss)
qed

theorem dispatch_not_found_witness:
  "handle_request split_slash id (\<lambda>c. Inr ''404'') (register split_slash [(''/a/+'', \<lambda>_ c. Inr c, 7)] []) ''/a'' =
   bindE (Inr ''404'') (\<lambda>c'. Inr (register split_slash [(''/a/+'', \<lambda>_ c. Inr c, 7)] [], c'))"
  by (rule dispatch_not_found [OF split_law_split_slash]) (simp add: uri_matches_Cons)

text \<open>
  \<^verbatim>\<open>get_no_of_requests\<close> reads its argument as a path, not as a pattern: it returns
  the wrapping sum of the counters of the handlers whose own pattern matches it. With
  the default argument, a lone number sign, that leaves the handlers registered under a
  lone number sign or a lone plus sign, and no handler of a path with two levels.
\<close>

theorem statistics:
  assumes "split_law split"
  shows "get_no_of_requests split (register split rs []) q =
       Inr (\<Sum>(p, f, n) \<leftarrow> rs. if uri_matches (split p) (split q) then n else 0)
     \<and> get_no_of_requests split (register split rs []) ''#'' =
       Inr (\<Sum>(p, f, n) \<leftarrow> rs. if p = ''#'' \<or> p = ''+'' then n else 0)"
proof -
  have sum: "get_no_of_requests split (register split rs []) q =
       Inr (\<Sum>(p, f, n) \<leftarrow> rs. if uri_matches (split p) (split q) then n else 0)" for q
    by (simp add: get_no_of_requests_def hd.count_loop_eq register_eq o_def case_prod_unfold
        serves_new [OF assms] cong: if_cong)
  moreover have "uri_matches (split p) (split ''#'') \<longleftrightarrow> p = ''#'' \<or> p = ''+''" for p
  proof -
    have "split p = [q] \<longleftrightarrow> p = q" if "CHR ''/'' \<notin> set q" for q
      using that split_slash_no_slash [of q] join_split_slash [of p]
      by (auto simp: split_law_unique [OF assms])
    then show ?thesis by (simp add: split_law_unique [OF assms] uri_matches_number_sign)
  qed
  ultimately show ?thesis by simp
qed

theorem statistics_witness:
  "get_no_of_requests split_slash (register split_slash [(''/rest/+'', \<lambda>_ c. Inr (c::nat), 3)] []) ''/rest/x'' = Inr 3
   \<and> get_no_of_requests split_slash (register split_slash [(''/rest/+'', \<lambda>_ c. Inr (c::nat), 3)] []) ''#'' = Inr 0"
  using statistics [OF split_law_split_slash, of "[(''/rest/+'', \<lambda>_ c. Inr (c::nat), 3)]" "''/rest/x''"]
  by (simp add: uri_matches_Cons)

end
