(* ===== verification/Async_Connection.thy ===== *)
theory Async_Connection
  imports Assembly Server
begin

text \<open>
  What \<^verbatim>\<open>http_connection\<close> and \<^verbatim>\<open>https_connection\<close> have in common: the requests they make
  to Asio, the environment of a handler run, the log lines, which evaluate expressions
  with effects and faults, and the system in which completion handlers run: a connection,
  its server, and the operations Asio has outstanding for it. The system is a step
  relation over any table of handlers; the locale \<open>serial_handlers\<close> is the discipline
  that keeps at most one read, write or asynchronous reply outstanding.

  Handlers run one at a time, as when a single thread runs the \<^verbatim>\<open>io_service\<close>. The
  environment may complete any outstanding operation in any order with any error code;
  the one rule of Asio that is built in is that a wait completes with
  \<^verbatim>\<open>operation_aborted\<close> only after it was cancelled, by \<^verbatim>\<open>cancel\<close> or by a new expiry time
  (a cancelled wait may still complete normally, when the timer had expired already).
\<close>

section \<open>Requests to Asio\<close>

datatype error_code = Success | Operation_aborted | Other_error

datatype wait_handler = Handle_timer | Handle_async_call

datatype io_req =
    Async_handshake
  | Async_read
  | Async_write "string list"
  | Timer_expires nat
  | Timer_wait wait_handler
  | Timer_cancel
  | Socket_cancel
  | Socket_shutdown
  | Socket_close
  | Async_shutdown
  | Post_reply_done

record ('os, 'p) async_conn = "('os, 'p) connection" +
  io :: "io_req list"

definition issue :: "io_req list \<Rightarrow> ('os, 'p, 'z) async_conn_scheme \<Rightarrow> ('os, 'p, 'z) async_conn_scheme" where
  "issue rs c = c\<lparr>io := io c @ rs\<rparr>"

definition async_conn_new ::
  "('os, 'p) libs \<Rightarrow> string \<Rightarrow> char list \<Rightarrow> char list \<Rightarrow> ('os, 'p) async_conn" where
  "async_conn_new L tag key value =
     connection.extend (connection_new L tag key value) (async_conn.fields [])"

section \<open>What the server template asks of a connection\<close>

type_synonym ('os, 'p) conn_server = "('os, 'p) async_conn server"

definition conn_url :: "('os, 'p, 'z) connection_scheme \<Rightarrow> string" where
  "conn_url c = r_url (c_request c)"

definition conn_create ::
  "('os, 'p) libs \<Rightarrow> status_type \<Rightarrow> ('os, 'p, 'z) connection_scheme \<Rightarrow> ('os, 'p, 'z) connection_scheme res" where
  "conn_create L s c =
     bindE (reply_create L s default_content_type 0 (c_reply c)) (\<lambda>r. Inr (c\<lparr>c_reply := r\<rparr>))"

definition conn_handle_request ::
  "('os, 'p) libs \<Rightarrow> ('os, 'p) conn_server \<Rightarrow> ('os, 'p) async_conn \<Rightarrow>
   (('os, 'p) conn_server \<times> ('os, 'p) async_conn) res" where
  "conn_handle_request L hs c = handle_request (lib_split L) conn_url (conn_create L not_found) hs c"

section \<open>Log lines\<close>

text \<open>
  What the environment decides during a handler run: which severities the filter lets
  through, the peer's endpoint (\<open>None\<close>: \<^verbatim>\<open>remote_endpoint()\<close> throws), and the uuid the
  random generator would return. The arguments of a line are evaluated only when it
  passes the filter.
\<close>

record log_env =
  log_info :: bool
  log_trace :: bool
  log_peer :: "(string \<times> 16 word) option"
  log_rnd :: uuid

definition touch_request_id ::
  "('os, 'p) libs \<Rightarrow> log_env \<Rightarrow> ('os, 'p, 'z) connection_scheme \<Rightarrow> ('os, 'p, 'z) connection_scheme" where
  "touch_request_id L E c =
     c\<lparr>c_request := snd (request_id L (log_rnd E) default_request_id_header (c_request c))\<rparr>"

definition log_endpoint :: "log_env \<Rightarrow> string res" where
  "log_endpoint E =
     (case log_peer E of None \<Rightarrow> Inl (Exception ''remote_endpoint'')
      | Some ep \<Rightarrow> Inr (endpoint_to_string ep))"

definition log_method :: "('os, 'p, 'z) connection_scheme \<Rightarrow> string res" where
  "log_method c = bindE (initialised (r_method (c_request c))) method_to_string"

definition log_request_begin ::
  "('os, 'p) libs \<Rightarrow> log_env \<Rightarrow> ('os, 'p, 'z) connection_scheme \<Rightarrow> ('os, 'p, 'z) connection_scheme res" where
  "log_request_begin L E c =
     (if log_info E then
        (let c = touch_request_id L E c in
         bindE (log_endpoint E) (\<lambda>_. bindE (log_method c) (\<lambda>_. Inr c)))
      else Inr c)"

definition log_request_end ::
  "('os, 'p) libs \<Rightarrow> log_env \<Rightarrow> ('os, 'p, 'z) connection_scheme \<Rightarrow> ('os, 'p, 'z) connection_scheme res" where
  "log_request_end L E c =
     (if log_info E then
        (let c = touch_request_id L E c in
         bindE (log_endpoint E) (\<lambda>_. bindE (log_method c) (\<lambda>_.
           bindE (reply_status (c_reply c)) (\<lambda>_. Inr c))))
      else Inr c)"

section \<open>Frames\<close>

lemma touch_request_id_frame [simp]:
  "c_reply (touch_request_id L E c) = c_reply c"
  "waiting_for_async_reply (touch_request_id L E c) = waiting_for_async_reply c"
  "c_keep_alive (touch_request_id L E c) = c_keep_alive c"
  "c_request_complete (touch_request_id L E c) = c_request_complete c"
  "connection.more (touch_request_id L E c) = connection.more c"
  "r_method (c_request (touch_request_id L E c)) = r_method (c_request c)"
  "r_url (c_request (touch_request_id L E c)) = r_url (c_request c)"
  "header_key (touch_request_id L E c) = header_key c"
  "header_val (touch_request_id L E c) = header_val c"
  "last_header_was_value (touch_request_id L E c) = last_header_was_value c"
  by (simp_all add: touch_request_id_def)

lemma io_touch_request_id [simp]: "io (touch_request_id L E c) = io c"
  by (simp add: touch_request_id_def)

lemma log_request_begin_cases:
  "log_request_begin L E c = Inr c' \<Longrightarrow> c' = c \<or> c' = touch_request_id L E c"
  by (auto simp: log_request_begin_def Let_def split: if_splits)

lemma log_request_end_cases:
  "log_request_end L E c = Inr c' \<Longrightarrow> c' = c \<or> c' = touch_request_id L E c"
  by (auto simp: log_request_end_def Let_def split: if_splits)

lemma issue_simps [simp]:
  "io (issue rs c) = io c @ rs"
  "c_reply (issue rs c) = c_reply c"
  "c_request (issue rs c) = c_request c"
  "waiting_for_async_reply (issue rs c) = waiting_for_async_reply c"
  "c_keep_alive (issue rs c) = c_keep_alive c"
  "c_request_complete (issue rs c) = c_request_complete c"
  "c_parser (issue rs c) = c_parser c"
  "issue rs (issue rs' c) = issue (rs' @ rs) c"
  by (simp_all add: issue_def)

lemma io_push_header [simp]: "io (push_header L c) = io c"
  by (simp add: push_header_def Let_def)

lemma callback_io:
  assumes "parser_settings L ev c = Inr (r, c')"
  shows "io c' = io c"
proof (cases ev)
  case (Url at)
  with assms show ?thesis by (auto elim!: on_url_cases)
next
  case (Header_field at)
  with assms show ?thesis by (auto elim!: on_header_field_cases)
next
  case (Headers_complete n m)
  with assms show ?thesis by (auto elim!: on_headers_complete_cases)
qed (use assms in \<open>auto simp: on_message_begin_def on_header_value_def
    on_body_def on_message_complete_def Let_def\<close>)

lemma http_parse_io:
  assumes "http_parse L buf c = Inr (n, c')"
  shows "io c' = io c"
proof -
  from assms obtain p c1
    where run: "run_with (parser_settings L) (lib_execute L (c_parser c) buf) c = Inr ((n, p), c1)"
      and c': "c' = c1\<lparr>c_parser := p\<rparr>"
    by (auto simp: http_parse_def)
  have "io c1 = io c"
    by (rule run_with_invariant [where P = "\<lambda>d. io d = io c", OF _ _ run]) (auto dest: callback_io)
  with c' show ?thesis by simp
qed

lemma http_parse_waiting:
  "http_parse L buf c = Inr (n, c') \<Longrightarrow> waiting_for_async_reply c' = waiting_for_async_reply c"
  by (drule http_parse_frame) (simp add: same_frame_def)

section \<open>Outstanding operations\<close>

record pending =
  handshakes :: nat
  reads :: nat
  writes :: nat
  posts :: nat
  owed :: nat
  shutdowns :: nat
  waits :: "(wait_handler \<times> bool) list"

definition no_pending :: pending where
  "no_pending = \<lparr>handshakes = 0, reads = 0, writes = 0, posts = 0, owed = 0, shutdowns = 0, waits = []\<rparr>"

text \<open>\<open>owed\<close> counts the asynchronous replies a user handler has promised; a wait is marked when cancelled.\<close>

fun apply_io :: "io_req \<Rightarrow> pending \<Rightarrow> pending" where
  "apply_io Async_handshake p = p\<lparr>handshakes := handshakes p + 1\<rparr>"
| "apply_io Async_read p = p\<lparr>reads := reads p + 1\<rparr>"
| "apply_io (Async_write b) p = p\<lparr>writes := writes p + 1\<rparr>"
| "apply_io Post_reply_done p = p\<lparr>posts := posts p + 1\<rparr>"
| "apply_io (Timer_expires d) p = p\<lparr>waits := map (\<lambda>(h, x). (h, True)) (waits p)\<rparr>"
| "apply_io Timer_cancel p = p\<lparr>waits := map (\<lambda>(h, x). (h, True)) (waits p)\<rparr>"
| "apply_io (Timer_wait h) p = p\<lparr>waits := waits p @ [(h, False)]\<rparr>"
| "apply_io Async_shutdown p = p\<lparr>shutdowns := shutdowns p + 1\<rparr>"
| "apply_io _ p = p"

definition tokens :: "pending \<Rightarrow> nat" where
  "tokens p = handshakes p + reads p + writes p + posts p + owed p"

fun is_transfer :: "io_req \<Rightarrow> bool" where
  "is_transfer Async_handshake = True"
| "is_transfer Async_read = True"
| "is_transfer (Async_write b) = True"
| "is_transfer Post_reply_done = True"
| "is_transfer _ = False"

definition transfers :: "io_req list \<Rightarrow> nat" where
  "transfers rs = length (filter is_transfer rs)"

definition posted :: "io_req list \<Rightarrow> nat" where
  "posted rs = length (filter (\<lambda>r. r = Post_reply_done) rs)"

lemma transfers_simps [simp]:
  "transfers [] = 0"
  "transfers (r # rs) = (if is_transfer r then Suc (transfers rs) else transfers rs)"
  "transfers (rs @ rs') = transfers rs + transfers rs'"
  by (simp_all add: transfers_def)

lemma posted_simps [simp]:
  "posted [] = 0"
  "posted (r # rs) = (if r = Post_reply_done then Suc (posted rs) else posted rs)"
  "posted (rs @ rs') = posted rs + posted rs'"
  by (simp_all add: posted_def)

lemma tokens_fold: "tokens (fold apply_io rs p) = tokens p + transfers rs"
proof (induction rs arbitrary: p)
  case (Cons r rs)
  have "tokens (apply_io r p) = tokens p + (if is_transfer r then 1 else 0)"
    by (cases r) (simp_all add: tokens_def)
  with Cons show ?case by simp
qed simp

lemma owed_fold [simp]: "owed (fold apply_io rs p) = owed p"
proof (induction rs arbitrary: p)
  case (Cons r rs)
  have "owed (apply_io r p) = owed p" by (cases r) simp_all
  with Cons show ?case by simp
qed simp

lemma posts_fold: "posts (fold apply_io rs p) = posts p + posted rs"
proof (induction rs arbitrary: p)
  case (Cons r rs)
  have "posts (apply_io r p) = posts p + (if r = Post_reply_done then 1 else 0)"
    by (cases r) simp_all
  with Cons show ?case by simp
qed simp

text \<open>The handlers of the outstanding waits are among the old ones and those requested.\<close>

definition timers_only :: "io_req list \<Rightarrow> bool" where
  "timers_only rs \<longleftrightarrow> (\<forall>h. Timer_wait h \<in> set rs \<longrightarrow> h = Handle_timer)"

lemma timers_only_simps [simp]:
  "timers_only []"
  "timers_only (r # rs) \<longleftrightarrow> r \<noteq> Timer_wait Handle_async_call \<and> timers_only rs"
  "timers_only (rs @ rs') \<longleftrightarrow> timers_only rs \<and> timers_only rs'"
  using wait_handler.exhaust by (auto simp: timers_only_def)

lemma waits_apply_io:
  "fst ` set (waits (apply_io r p)) \<subseteq> fst ` set (waits p) \<union> {h. r = Timer_wait h}"
  by (cases r) force+

lemma waits_fold:
  "fst ` set (waits (fold apply_io rs p)) \<subseteq> fst ` set (waits p) \<union> {h. Timer_wait h \<in> set rs}"
proof (induction rs arbitrary: p)
  case (Cons r rs)
  from Cons [of "apply_io r p"] waits_apply_io [of r p] show ?case by auto
qed simp

section \<open>The system\<close>

datatype event =
    Handshake_done error_code
  | Shutdown_done error_code
  | Read_done log_env log_env error_code string
  | Write_done log_env error_code
  | Wait_done wait_handler log_env error_code
  | Post_done log_env
  | Notify log_env

type_synonym ('os, 'p) session = "('os, 'p) conn_server \<times> ('os, 'p) async_conn"
type_synonym ('os, 'p) handlers = "event \<Rightarrow> ('os, 'p) session \<Rightarrow> ('os, 'p) session res"

text \<open>
  After a handler: the requests it made are outstanding, and if it left the connection
  waiting when it was not, its user owes an asynchronous reply.
\<close>

definition settle ::
  "('os, 'p) async_conn \<Rightarrow> ('os, 'p) async_conn \<Rightarrow> pending \<Rightarrow> pending" where
  "settle c c' p =
     (let q = fold apply_io (io c') p in
      q\<lparr>owed := owed q + (if waiting_for_async_reply c' \<and> \<not> waiting_for_async_reply c then 1 else 0)\<rparr>)"

lemma settle_tokens:
  "tokens (settle c c' p) = tokens p + transfers (io c') +
     (if waiting_for_async_reply c' \<and> \<not> waiting_for_async_reply c then 1 else 0)"
  using tokens_fold [of "io c'" p] by (simp add: settle_def Let_def tokens_def)

lemma waits_settle:
  "h \<in> fst ` set (waits (settle c c' p)) \<Longrightarrow> h \<in> fst ` set (waits p) \<or> Timer_wait h \<in> set (io c')"
  using waits_fold [of "io c'" p] by (auto simp: settle_def Let_def)

lemma owed_posts_settle:
  "owed (settle c c' p) = owed p + (if waiting_for_async_reply c' \<and> \<not> waiting_for_async_reply c then 1 else 0)"
  "posts (settle c c' p) = posts p + posted (io c')"
  by (simp_all add: settle_def Let_def posts_fold)

lemma tokens_pos:
  "handshakes p > 0 \<Longrightarrow> Suc (tokens (p\<lparr>handshakes := handshakes p - 1\<rparr>)) = tokens p"
  "reads p > 0 \<Longrightarrow> Suc (tokens (p\<lparr>reads := reads p - 1\<rparr>)) = tokens p"
  "writes p > 0 \<Longrightarrow> Suc (tokens (p\<lparr>writes := writes p - 1\<rparr>)) = tokens p"
  "posts p > 0 \<Longrightarrow> Suc (tokens (p\<lparr>posts := posts p - 1\<rparr>)) = tokens p"
  "owed p > 0 \<Longrightarrow> Suc (tokens (p\<lparr>owed := owed p - 1\<rparr>)) = tokens p"
  by (simp_all add: tokens_def)

lemma tokens_waits [simp]:
  "tokens (p\<lparr>waits := w\<rparr>) = tokens p" "tokens (p\<lparr>shutdowns := n\<rparr>) = tokens p"
  by (simp_all add: tokens_def)

lemma tokens_bounds:
  "handshakes p + owed p + posts p \<le> tokens p" "reads p + owed p + posts p \<le> tokens p"
  "writes p + owed p + posts p \<le> tokens p"
  by (simp_all add: tokens_def)

inductive conn_step ::
  "('os, 'p) handlers \<Rightarrow> ('os, 'p) session \<times> pending \<Rightarrow> ('os, 'p) session \<times> pending \<Rightarrow> bool"
  for H where
  handshake: "handshakes p > 0 \<Longrightarrow> H (Handshake_done e) (hs, c\<lparr>io := []\<rparr>) = Inr (hs', c') \<Longrightarrow>
     conn_step H ((hs, c), p) ((hs', c'), settle c c' (p\<lparr>handshakes := handshakes p - 1\<rparr>))"
| shutdown: "shutdowns p > 0 \<Longrightarrow> H (Shutdown_done e) (hs, c\<lparr>io := []\<rparr>) = Inr (hs', c') \<Longrightarrow>
     conn_step H ((hs, c), p) ((hs', c'), settle c c' (p\<lparr>shutdowns := shutdowns p - 1\<rparr>))"
| read: "reads p > 0 \<Longrightarrow> H (Read_done E E' e buf) (hs, c\<lparr>io := []\<rparr>) = Inr (hs', c') \<Longrightarrow>
     conn_step H ((hs, c), p) ((hs', c'), settle c c' (p\<lparr>reads := reads p - 1\<rparr>))"
| written: "writes p > 0 \<Longrightarrow> H (Write_done E e) (hs, c\<lparr>io := []\<rparr>) = Inr (hs', c') \<Longrightarrow>
     conn_step H ((hs, c), p) ((hs', c'), settle c c' (p\<lparr>writes := writes p - 1\<rparr>))"
| wait: "waits p = ws @ (h, x) # ws' \<Longrightarrow> (\<not> x \<longrightarrow> e \<noteq> Operation_aborted) \<Longrightarrow>
     H (Wait_done h E e) (hs, c\<lparr>io := []\<rparr>) = Inr (hs', c') \<Longrightarrow>
     conn_step H ((hs, c), p) ((hs', c'), settle c c' (p\<lparr>waits := ws @ ws'\<rparr>))"
| post: "posts p > 0 \<Longrightarrow> H (Post_done E) (hs, c\<lparr>io := []\<rparr>) = Inr (hs', c') \<Longrightarrow>
     conn_step H ((hs, c), p) ((hs', c'), settle c c' (p\<lparr>posts := posts p - 1\<rparr>))"
| fill: "owed p > 0 \<Longrightarrow> conn_step H ((hs, c), p) ((hs, c\<lparr>c_reply := r\<rparr>), p)"
| notify: "owed p > 0 \<Longrightarrow> H (Notify E) (hs, c\<lparr>io := []\<rparr>) = Inr (hs', c') \<Longrightarrow>
     conn_step H ((hs, c), p) ((hs', c'), settle c c' (p\<lparr>owed := owed p - 1\<rparr>))"

inductive reachable ::
  "('os, 'p) handlers \<Rightarrow> ('os, 'p) session \<times> pending \<Rightarrow> ('os, 'p) session \<times> pending \<Rightarrow> bool"
  for H s0 where
  init: "reachable H s0 s0"
| step: "reachable H s0 s \<Longrightarrow> conn_step H s t \<Longrightarrow> reachable H s0 t"

inductive_cases conn_stepE: "conn_step H ((hs, c), p) t"

section \<open>Serial handlers\<close>

text \<open>
  The discipline of a connection that never has two operations outstanding. \<open>good\<close> is a
  property of the registered handlers that the steps keep; \<open>defers\<close> tells whether those
  handlers may ask for an asynchronous reply. When they may not, no wait but the
  connection's own timer is ever started.
\<close>

locale serial_handlers =
  fixes H :: "('os, 'p) handlers"
    and good :: "('os, 'p) conn_server \<Rightarrow> bool"
    and defers :: bool
  assumes handshake_serial: "good hs \<Longrightarrow> io c = [] \<Longrightarrow> H (Handshake_done e) (hs, c) = Inr (hs', c') \<Longrightarrow>
      good hs' \<and> posted (io c') = 0 \<and> transfers (io c') \<le> 1 \<and> (defers \<or> timers_only (io c'))
      \<and> waiting_for_async_reply c' = waiting_for_async_reply c \<and> c_reply c' = c_reply c"
    and shutdown_serial: "good hs \<Longrightarrow> io c = [] \<Longrightarrow> H (Shutdown_done e) (hs, c) = Inr (hs', c') \<Longrightarrow>
      good hs' \<and> posted (io c') = 0 \<and> transfers (io c') = 0 \<and> (defers \<or> timers_only (io c'))
      \<and> waiting_for_async_reply c' = waiting_for_async_reply c \<and> c_reply c' = c_reply c"
    and read_serial: "good hs \<Longrightarrow> \<not> waiting_for_async_reply c \<Longrightarrow> io c = [] \<Longrightarrow>
      H (Read_done E E' e buf) (hs, c) = Inr (hs', c') \<Longrightarrow>
      good hs' \<and> posted (io c') = 0 \<and> transfers (io c') + (if waiting_for_async_reply c' then 1 else 0) \<le> 1
      \<and> (defers \<or> timers_only (io c') \<and> \<not> waiting_for_async_reply c')"
    and write_serial: "good hs \<Longrightarrow> io c = [] \<Longrightarrow> H (Write_done E e) (hs, c) = Inr (hs', c') \<Longrightarrow>
      good hs' \<and> posted (io c') = 0 \<and> transfers (io c') \<le> 1 \<and> (defers \<or> timers_only (io c'))
      \<and> waiting_for_async_reply c' = waiting_for_async_reply c"
    and wait_serial: "good hs \<Longrightarrow> io c = [] \<Longrightarrow> defers \<or> h = Handle_timer \<Longrightarrow>
      H (Wait_done h E e) (hs, c) = Inr (hs', c') \<Longrightarrow>
      good hs' \<and> transfers (io c') = 0 \<and> posted (io c') = 0 \<and> (defers \<or> timers_only (io c'))
      \<and> waiting_for_async_reply c' = waiting_for_async_reply c \<and> c_reply c' = c_reply c"
    and post_serial: "good hs \<Longrightarrow> defers \<Longrightarrow> io c = [] \<Longrightarrow> H (Post_done E) (hs, c) = Inr (hs', c') \<Longrightarrow>
      good hs' \<and> posted (io c') = 0 \<and> transfers (io c') \<le> 1 \<and> \<not> waiting_for_async_reply c'"
    and notify_serial: "good hs \<Longrightarrow> defers \<Longrightarrow> io c = [] \<Longrightarrow> H (Notify E) (hs, c) = Inr (hs', c') \<Longrightarrow>
      good hs' \<and> transfers (io c') = 1 \<and> posted (io c') = 1
      \<and> waiting_for_async_reply c' = waiting_for_async_reply c \<and> c_reply c' = c_reply c"
begin

definition serial_inv :: "('os, 'p) session \<times> pending \<Rightarrow> bool" where
  "serial_inv s \<longleftrightarrow> good (fst (fst s)) \<and> tokens (snd s) \<le> 1
     \<and> (waiting_for_async_reply (snd (fst s)) \<longrightarrow> owed (snd s) + posts (snd s) = 1)
     \<and> (defers \<or> \<not> waiting_for_async_reply (snd (fst s)) \<and> owed (snd s) = 0 \<and> posts (snd s) = 0
          \<and> fst ` set (waits (snd s)) \<subseteq> {Handle_timer})"

lemma waits_timers_only:
  "fst ` set (waits p) \<subseteq> {Handle_timer} \<Longrightarrow> timers_only (io c') \<Longrightarrow>
   fst ` set (waits (settle c c' p)) \<subseteq> {Handle_timer}"
  by (rule subsetI, drule waits_settle) (auto simp: timers_only_def)

lemmas inv_simps = serial_inv_def settle_tokens owed_posts_settle

lemma step_inv:
  assumes "conn_step H s t" and "serial_inv s"
  shows "serial_inv t"
  using assms
proof (induction rule: conn_step.induct)
  case (handshake p e hs c hs' c')
  with handshake_serial [of hs "c\<lparr>io := []\<rparr>" e hs' c'] tokens_pos(1) [of p] tokens_bounds [of p]
    waits_timers_only [of "p\<lparr>handshakes := handshakes p - 1\<rparr>" c' c]
  show ?case by (auto simp: inv_simps)
next
  case (shutdown p e hs c hs' c')
  with shutdown_serial [of hs "c\<lparr>io := []\<rparr>" e hs' c'] tokens_bounds [of p]
    waits_timers_only [of "p\<lparr>shutdowns := shutdowns p - 1\<rparr>" c' c]
  show ?case by (auto simp: inv_simps)
next
  case (read p E E' e buf hs c hs' c')
  then have w: "\<not> waiting_for_async_reply c"
    using tokens_bounds [of p] by (auto simp: serial_inv_def)
  with read read_serial [of hs "c\<lparr>io := []\<rparr>" E E' e buf hs' c'] tokens_pos(2) [of p]
    tokens_bounds [of p] waits_timers_only [of "p\<lparr>reads := reads p - 1\<rparr>" c' c] show ?case
    by (auto simp: inv_simps split: if_splits)
next
  case (written p E e hs c hs' c')
  with write_serial [of hs "c\<lparr>io := []\<rparr>" E e hs' c'] tokens_pos(3) [of p] tokens_bounds [of p]
    waits_timers_only [of "p\<lparr>writes := writes p - 1\<rparr>" c' c]
  show ?case by (auto simp: inv_simps)
next
  case (wait p ws h x ws' e E hs c hs' c')
  from wait have h: "defers \<or> h = Handle_timer" by (auto simp: serial_inv_def)
  have "fst ` set (waits p) \<subseteq> {Handle_timer} \<Longrightarrow> fst ` set (ws @ ws') \<subseteq> {Handle_timer}"
    using wait(1) by auto
  with wait h wait_serial [of hs "c\<lparr>io := []\<rparr>" h E e hs' c'] tokens_bounds [of p]
    waits_timers_only [of "p\<lparr>waits := ws @ ws'\<rparr>" c' c]
  show ?case by (auto simp: inv_simps)
next
  case (post p E hs c hs' c')
  then have d: defers by (auto simp: serial_inv_def)
  from post post_serial [of hs "c\<lparr>io := []\<rparr>" E hs' c', OF _ d] tokens_pos(4) [of p] tokens_bounds [of p]
  show ?case unfolding inv_simps by (auto simp: settle_tokens owed_posts_settle)
next
  case (fill p hs c r)
  then show ?case unfolding serial_inv_def by simp
next
  case (notify p E hs c hs' c')
  then have d: defers by (auto simp: serial_inv_def)
  from notify notify_serial [of hs "c\<lparr>io := []\<rparr>" E hs' c', OF _ d] tokens_pos(5) [of p] tokens_bounds [of p]
  show ?case unfolding inv_simps by (auto simp: settle_tokens owed_posts_settle)
qed

lemma reachable_inv: "reachable H s0 s \<Longrightarrow> serial_inv s0 \<Longrightarrow> serial_inv s"
  by (induction rule: reachable.induct) (auto intro: step_inv)

text \<open>
  So nothing touches the reply while its buffers are being written, until the write
  completes.
\<close>

lemma reply_stable_while_writing:
  assumes "serial_inv ((hs, c), p)" and "writes p > 0"
    and "conn_step H ((hs, c), p) ((hs', c'), p')" and "c_reply c' \<noteq> c_reply c"
  shows "\<exists>E e. H (Write_done E e) (hs, c\<lparr>io := []\<rparr>) = Inr (hs', c')"
proof -
  have only: "handshakes p = 0" "reads p = 0" "posts p = 0" "owed p = 0" and good: "good hs"
    using assms(1,2) by (auto simp: serial_inv_def tokens_def)
  from assms(3) show ?thesis
  proof (cases rule: conn_step.cases)
    case (shutdown e)
    then show ?thesis using shutdown_serial [of hs "c\<lparr>io := []\<rparr>" e hs' c'] good assms(4) by simp
  next
    case (wait ws h x ws' e E)
    then have "defers \<or> h = Handle_timer" using assms(1) by (auto simp: serial_inv_def)
    with wait show ?thesis
      using wait_serial [of hs "c\<lparr>io := []\<rparr>" h E e hs' c'] good assms(4) by simp
  qed (use only in auto)
qed

end

end
