(* ===== verification/Http_Connection.thy ===== *)
theory Http_Connection
  imports Async_Connection
begin

text \<open>
  \<^verbatim>\<open>csi::http::http_connection\<close> (\<^verbatim>\<open>server/http_connection.h\<close>, \<^verbatim>\<open>server/http_connection.cpp\<close>):
  the handlers of the plain connection, one definition each, and the table that binds them
  to the events of \<open>Async_Connection\<close>. They keep the discipline of \<open>serial_handlers\<close>, so
  at most one read, write or asynchronous reply is ever outstanding and a reply does not
  change while it is being written.
\<close>

section \<open>The code\<close>

definition http_start :: "('os, 'p) async_conn \<Rightarrow> ('os, 'p) async_conn" where
  "http_start c = issue [Async_read] c"

definition http_send_reply ::
  "('os, 'p) libs \<Rightarrow> log_env \<Rightarrow> ('os, 'p) async_conn \<Rightarrow> ('os, 'p) async_conn res" where
  "http_send_reply L E c =
     bindE (log_request_end L E c) (\<lambda>c.
       let c = c\<lparr>waiting_for_async_reply := False\<rparr>;
           c = (if \<not> c_keep_alive c
                then c\<lparr>c_reply := reply_add \<lparr>name = ''Connection'', val = ''close''\<rparr> (c_reply c)\<rparr>
                else c)
       in bindE (to_buffers L (c_reply c)) (\<lambda>(bufs, r).
            Inr (issue [Async_write bufs] (c\<lparr>c_reply := r\<rparr>))))"

definition http_wait_for_async_reply :: "('os, 'p) async_conn \<Rightarrow> ('os, 'p) async_conn" where
  "http_wait_for_async_reply c =
     (let c = c\<lparr>waiting_for_async_reply := True\<rparr>
      in issue [Timer_expires 5, Timer_wait Handle_timer] c)"

text \<open>The trace line evaluates \<^verbatim>\<open>request_id()\<close> when the filter passes it.\<close>

definition http_notify_async_reply_done ::
  "('os, 'p) libs \<Rightarrow> log_env \<Rightarrow> ('os, 'p) async_conn \<Rightarrow> ('os, 'p) async_conn" where
  "http_notify_async_reply_done L E c =
     (let c = (if log_trace E then touch_request_id L E c else c)
      in issue [Post_reply_done] c)"

text \<open>
  \<^verbatim>\<open>handle_read\<close> writes up to two log lines, at the start of a request and, through
  \<^verbatim>\<open>send_reply\<close>, at its end; \<open>E1\<close> and \<open>E2\<close> are their environments. \<open>buf\<close> is the part of
  \<^verbatim>\<open>_buffer\<close> the read filled.
\<close>

definition http_handle_read ::
  "('os, 'p) libs \<Rightarrow> log_env \<Rightarrow> log_env \<Rightarrow> error_code \<Rightarrow> string \<Rightarrow> ('os, 'p) session \<Rightarrow>
   ('os, 'p) session res" where
  "http_handle_read L E1 E2 e buf s =
     (case s of (hs, c) \<Rightarrow>
      if e = Operation_aborted then Inr (hs, c)
      else
        let c = issue [Timer_cancel] c in
        if e = Success then
          bindE (http_parse L buf c) (\<lambda>(nparsed, c).
            if nparsed \<noteq> length buf then
              bindE (conn_create L bad_request c) (\<lambda>c.
                bindE (http_send_reply L E2 c) (\<lambda>c. Inr (hs, c)))
            else if c_request_complete c then
              bindE (log_request_begin L E1 c) (\<lambda>c.
                bindE (conn_handle_request L hs c) (\<lambda>(hs, c).
                  if waiting_for_async_reply c then
                    Inr (hs, issue [Timer_expires 3605, Timer_wait Handle_timer] c)
                  else
                    bindE (http_send_reply L E2 c) (\<lambda>c. Inr (hs, c))))
            else
              Inr (hs, issue [Timer_expires 5, Timer_wait Handle_timer, Async_read] c))
        else Inr (hs, c))"

definition http_handle_write ::
  "('os, 'p) libs \<Rightarrow> error_code \<Rightarrow> ('os, 'p) async_conn \<Rightarrow> ('os, 'p) async_conn" where
  "http_handle_write L e c =
     (if e = Operation_aborted then c
      else if \<not> c_keep_alive c then issue [Timer_cancel] c
      else if e = Success then
        (let c = c\<lparr>c_reply := reply_reset L (c_reply c)\<rparr>;
             c = c\<lparr>c_request := request_reset L (c_request c)\<rparr>
         in issue [Timer_cancel, Timer_expires 5, Timer_wait Handle_timer, Async_read] c)
      else c)"

definition http_handle_shutdown :: "error_code \<Rightarrow> ('os, 'p) async_conn \<Rightarrow> ('os, 'p) async_conn" where
  "http_handle_shutdown e c = (if e = Success then issue [Socket_close] c else c)"

definition http_handle_timer :: "error_code \<Rightarrow> ('os, 'p) async_conn \<Rightarrow> ('os, 'p) async_conn" where
  "http_handle_timer e c =
     (if e = Operation_aborted then c
      else if e = Success then issue [Socket_cancel, Socket_shutdown] c
      else c)"

definition http_handle_async_reply_done ::
  "('os, 'p) libs \<Rightarrow> log_env \<Rightarrow> ('os, 'p) async_conn \<Rightarrow> ('os, 'p) async_conn res" where
  "http_handle_async_reply_done L E c = http_send_reply L E (issue [Timer_cancel] c)"

definition http_destroy :: "('os, 'p) async_conn \<Rightarrow> ('os, 'p) async_conn" where
  "http_destroy c = issue [Timer_cancel, Socket_shutdown] c"

text \<open>
  Which handler each completion runs; the timer is the only wait. The class starts no
  handshake, so nothing handles the end of one.
\<close>

fun http_handlers :: "('os, 'p) libs \<Rightarrow> ('os, 'p) handlers" where
  "http_handlers L (Handshake_done e) s = Inl Assertion"
| "http_handlers L (Shutdown_done e) (hs, c) = Inr (hs, http_handle_shutdown e c)"
| "http_handlers L (Read_done E E' e buf) s = http_handle_read L E E' e buf s"
| "http_handlers L (Write_done E e) (hs, c) = Inr (hs, http_handle_write L e c)"
| "http_handlers L (Wait_done h E e) (hs, c) = Inr (hs, http_handle_timer e c)"
| "http_handlers L (Post_done E) (hs, c) = map_sum id (Pair hs) (http_handle_async_reply_done L E c)"
| "http_handlers L (Notify E) (hs, c) = Inr (hs, http_notify_async_reply_done L E c)"

text \<open>A connection that was accepted and started, on memory \<open>key\<close> and \<open>value\<close>.\<close>

definition http_initial ::
  "('os, 'p) libs \<Rightarrow> ('os, 'p) conn_server \<Rightarrow> string \<Rightarrow> char list \<Rightarrow> char list \<Rightarrow>
   ('os, 'p) session \<times> pending" where
  "http_initial L hs tag key value =
     (let c = http_start (async_conn_new L tag key value)
      in ((hs, c), settle c c no_pending))"

section \<open>What each handler asks for\<close>

text \<open>The connection as \<^verbatim>\<open>send_reply\<close> turns its reply into buffers.\<close>

definition reply_ready :: "('os, 'p) async_conn \<Rightarrow> ('os, 'p) async_conn" where
  "reply_ready c = c\<lparr>waiting_for_async_reply := False,
     c_reply := (if c_keep_alive c then c_reply c
                 else reply_add \<lparr>name = ''Connection'', val = ''close''\<rparr> (c_reply c))\<rparr>"

lemma reply_ready_frame [simp]:
  "io (reply_ready c) = io c" "\<not> waiting_for_async_reply (reply_ready c)"
  "c_keep_alive (reply_ready c) = c_keep_alive c" "c_request (reply_ready c) = c_request c"
  by (simp_all add: reply_ready_def)

lemma http_send_reply_eq:
  assumes "log_request_end L E c = Inr c1"
  shows "http_send_reply L E c = bindE (to_buffers L (c_reply (reply_ready c1))) (\<lambda>(bufs, r).
           Inr (issue [Async_write bufs] ((reply_ready c1)\<lparr>c_reply := r\<rparr>)))"
  using assms by (simp add: http_send_reply_def reply_ready_def Let_def)

lemma http_send_reply_io:
  assumes "http_send_reply L E c = Inr c'"
  shows "\<exists>bufs. io c' = io c @ [Async_write bufs]" and "\<not> waiting_for_async_reply c'"
    and "c_keep_alive c' = c_keep_alive c"
proof -
  from assms obtain c1 where log: "log_request_end L E c = Inr c1"
    unfolding http_send_reply_def bindE_eq_Inr_iff by blast
  then have same: "io c1 = io c" "c_keep_alive c1 = c_keep_alive c"
    using log_request_end_cases [OF log] by auto
  from assms obtain bufs r where "c' = issue [Async_write bufs] ((reply_ready c1)\<lparr>c_reply := r\<rparr>)"
    by (auto simp: http_send_reply_eq [OF log])
  then show "\<exists>bufs. io c' = io c @ [Async_write bufs]" and "\<not> waiting_for_async_reply c'"
    and "c_keep_alive c' = c_keep_alive c"
    using same by simp_all
qed

lemma http_handle_write_io:
  "io (http_handle_write L e c) = io c @
     (if e = Operation_aborted then []
      else if \<not> c_keep_alive c then [Timer_cancel]
      else if e = Success then [Timer_cancel, Timer_expires 5, Timer_wait Handle_timer, Async_read]
      else [])"
  "waiting_for_async_reply (http_handle_write L e c) = waiting_for_async_reply c"
  by (simp_all add: http_handle_write_def Let_def)

lemma http_handle_timer_frame:
  "transfers (io (http_handle_timer e c)) = transfers (io c)"
  "posted (io (http_handle_timer e c)) = posted (io c)"
  "waiting_for_async_reply (http_handle_timer e c) = waiting_for_async_reply c"
  "c_reply (http_handle_timer e c) = c_reply c"
  by (simp_all add: http_handle_timer_def)

lemma http_notify_frame:
  "io (http_notify_async_reply_done L E c) = io c @ [Post_reply_done]"
  "waiting_for_async_reply (http_notify_async_reply_done L E c) = waiting_for_async_reply c"
  "c_reply (http_notify_async_reply_done L E c) = c_reply c"
  by (simp_all add: http_notify_async_reply_done_def Let_def)

text \<open>
  The handlers a user registers run inside \<^verbatim>\<open>handle_request\<close>: they may fill the reply and
  call \<^verbatim>\<open>wait_for_async_reply\<close>, but start no read, write or post of their own.
\<close>

definition quiet_handler :: "('os, 'p) async_conn handler_data \<Rightarrow> bool" where
  "quiet_handler h \<longleftrightarrow> (\<forall>ps c c'. handler h ps c = Inr c' \<longrightarrow>
     transfers (io c') = transfers (io c) \<and> posted (io c') = posted (io c))"

definition quiet_server :: "('os, 'p) conn_server \<Rightarrow> bool" where
  "quiet_server hs \<longleftrightarrow> (\<forall>h \<in> set hs. quiet_handler h)"

lemma conn_create_io:
  "conn_create L s c = Inr c' \<Longrightarrow> io c' = io c \<and> waiting_for_async_reply c' = waiting_for_async_reply c"
  by (auto simp: conn_create_def)

lemma handler_call_quiet:
  assumes "handler_call h ps c = Inr (h', c')" and "quiet_handler h"
  shows "quiet_handler h'" and "transfers (io c') = transfers (io c)" and "posted (io c') = posted (io c)"
proof -
  from assms(1) have h': "handler h' = handler h" and c': "handler (h\<lparr>nr_of_requests := nr_of_requests h + 1\<rparr>) ps c = Inr c'"
    by (auto simp: handler_call_def Let_def)
  from c' have c'': "handler h ps c = Inr c'" by simp
  show "quiet_handler h'" using assms(2) by (simp add: quiet_handler_def h')
  show "transfers (io c') = transfers (io c)" "posted (io c') = posted (io c)"
    using assms(2) c'' by (simp_all add: quiet_handler_def)
qed

lemma conn_handle_request_quiet:
  assumes "conn_handle_request L hs c = Inr (hs', c')" and "quiet_server hs"
  shows "quiet_server hs' \<and> transfers (io c') = transfers (io c) \<and> posted (io c') = posted (io c)"
proof -
  let ?ps = "lib_split L (conn_url c)"
  note run = assms(1) [unfolded conn_handle_request_def handle_request_def]
  show ?thesis
  proof (cases rule: hd.dispatch_cases [of hs ?ps])
    case (hit as h bs)
    with run obtain h' where call: "handler_call h ?ps c = Inr (h', c')" and hs': "hs' = as @ h' # bs"
      by (auto simp: hd.dispatch_hit)
    from assms(2) hit(1) have "quiet_handler h" by (simp add: quiet_server_def)
    with handler_call_quiet [OF call] hs' assms(2) hit(1) show ?thesis
      by (auto simp: quiet_server_def)
  next
    case miss
    with run assms(2) show ?thesis
      by (auto simp: hd.dispatch_miss dest: conn_create_io)
  qed
qed

lemma http_handle_read_cases:
  assumes "http_handle_read L E1 E2 e buf (hs, c) = Inr (hs', c')"
  obtains (aborted) "e = Operation_aborted" "hs' = hs" "c' = c"
  | (failed) "e = Other_error" "hs' = hs" "c' = issue [Timer_cancel] c"
  | (bad) n c1 c2 where "e = Success" "http_parse L buf (issue [Timer_cancel] c) = Inr (n, c1)"
      "n \<noteq> length buf" "conn_create L bad_request c1 = Inr c2" "http_send_reply L E2 c2 = Inr c'"
      "hs' = hs"
  | (incomplete) c1 where "e = Success"
      "http_parse L buf (issue [Timer_cancel] c) = Inr (length buf, c1)" "\<not> c_request_complete c1"
      "hs' = hs" "c' = issue [Timer_expires 5, Timer_wait Handle_timer, Async_read] c1"
  | (waiting) c1 c2 c3 where "e = Success"
      "http_parse L buf (issue [Timer_cancel] c) = Inr (length buf, c1)" "c_request_complete c1"
      "log_request_begin L E1 c1 = Inr c2" "conn_handle_request L hs c2 = Inr (hs', c3)"
      "waiting_for_async_reply c3" "c' = issue [Timer_expires 3605, Timer_wait Handle_timer] c3"
  | (replied) c1 c2 c3 where "e = Success"
      "http_parse L buf (issue [Timer_cancel] c) = Inr (length buf, c1)" "c_request_complete c1"
      "log_request_begin L E1 c1 = Inr c2" "conn_handle_request L hs c2 = Inr (hs', c3)"
      "\<not> waiting_for_async_reply c3" "http_send_reply L E2 c3 = Inr c'"
proof (cases e)
  case Success
  with assms obtain n c1 where parse: "http_parse L buf (issue [Timer_cancel] c) = Inr (n, c1)"
    unfolding http_handle_read_def by (auto simp: Let_def simp del: issue_simps)
  consider "n \<noteq> length buf" | "n = length buf" "\<not> c_request_complete c1"
    | "n = length buf" "c_request_complete c1" by blast
  then show ?thesis
  proof cases
    case 1
    with assms Success parse bad show ?thesis unfolding http_handle_read_def by auto
  next
    case 2
    with assms Success parse incomplete show ?thesis unfolding http_handle_read_def by auto
  next
    case 3
    with assms Success parse obtain c2 where "log_request_begin L E1 c1 = Inr c2"
      unfolding http_handle_read_def by auto
    moreover from this 3 assms Success parse obtain hs1 c3
      where "conn_handle_request L hs c2 = Inr (hs1, c3)"
      unfolding http_handle_read_def by auto
    ultimately show ?thesis
      using assms Success parse 3 waiting replied unfolding http_handle_read_def
      by (cases "waiting_for_async_reply c3") auto
  qed
next
  case Operation_aborted
  with assms aborted show ?thesis by (simp add: http_handle_read_def)
next
  case Other_error
  with assms failed show ?thesis by (simp add: http_handle_read_def)
qed

lemma http_handle_read_serial:
  assumes "http_handle_read L E1 E2 e buf (hs, c) = Inr (hs', c')"
    and "quiet_server hs" and "\<not> waiting_for_async_reply c" and "io c = []"
  shows "quiet_server hs' \<and> posted (io c') = 0
    \<and> transfers (io c') + (if waiting_for_async_reply c' then 1 else 0) \<le> 1"
  using assms(1)
proof (cases rule: http_handle_read_cases)
  case (bad n c1 c2)
  then show ?thesis
    using http_send_reply_io [of L E2 c2 c'] http_parse_io conn_create_io assms by fastforce
next
  case (incomplete c1)
  then show ?thesis
    using http_parse_io http_parse_waiting assms by fastforce
next
  case (waiting c1 c2 c3)
  then have "io c1 = [Timer_cancel]" using http_parse_io assms(4) by fastforce
  then have "io c2 = [Timer_cancel]" using log_request_begin_cases [OF waiting(4)] by auto
  then show ?thesis using conn_handle_request_quiet [OF waiting(5) assms(2)] waiting by simp
next
  case (replied c1 c2 c3)
  then have "io c1 = [Timer_cancel]" using http_parse_io assms(4) by fastforce
  then have "io c2 = [Timer_cancel]" using log_request_begin_cases [OF replied(4)] by auto
  then show ?thesis
    using conn_handle_request_quiet [OF replied(5) assms(2)] http_send_reply_io [OF replied(7)] by auto
qed (use assms in simp_all)

text \<open>The discipline, for the handlers of the code.\<close>

interpretation http: serial_handlers "http_handlers L" quiet_server True for L
proof (unfold_locales, goal_cases)
  case (1 hs c e hs' c')
  then show ?case by simp
next
  case (2 hs c e hs' c')
  then show ?case by (auto simp: http_handle_shutdown_def split: if_splits)
next
  case (3 hs c E E' e buf hs' c')
  then show ?case using http_handle_read_serial [of L E E' e buf hs c hs' c'] by simp
next
  case (4 hs c E e hs' c')
  then show ?case by (auto simp: http_handle_write_io)
next
  case (5 hs c h E e hs' c')
  then show ?case by (auto simp: http_handle_timer_frame)
next
  case (6 hs c E hs' c')
  then obtain "hs' = hs" "http_send_reply L E (issue [Timer_cancel] c) = Inr c'"
    by (cases "http_handle_async_reply_done L E c") (auto simp: http_handle_async_reply_done_def)
  then show ?case using http_send_reply_io [of L E "issue [Timer_cancel] c" c'] 6 by auto
next
  case (7 hs c E hs' c')
  then show ?case by (auto simp: http_notify_frame)
qed

section \<open>Properties\<close>

lemma http_initial_inv: "quiet_server hs \<Longrightarrow> http.serial_inv (http_initial L hs tag key value)"
  by (simp add: http_initial_def http_start_def async_conn_new_def connection_new_def
      connection.defs async_conn.defs issue_def Let_def http.serial_inv_def settle_tokens)
    (simp add: no_pending_def tokens_def)

lemma http_reachable_inv:
  "reachable (http_handlers L) (http_initial L hs tag key value) s \<Longrightarrow> quiet_server hs \<Longrightarrow> http.serial_inv s"
  using http.reachable_inv http_initial_inv by blast

text \<open>
  A first exchange, for the witnesses: one whole request in the first read, to a server
  without handlers, so \<^verbatim>\<open>not_found\<close> is being written.
\<close>

definition sample_libs :: "(string, script) libs" where
  "sample_libs = ref_libs [([Message_begin, Url ''/a'', Headers_complete 0 1, Message_complete 1], 5)]"

definition sample_env :: log_env where
  "sample_env = \<lparr>log_info = False, log_trace = False, log_peer = None, log_rnd = 7\<rparr>"

definition sample_start :: "(string, script) session \<times> pending" where
  "sample_start = http_initial sample_libs [] ''request_id''
     (replicate MAX_HEADER_SIZE NUL) (replicate MAX_HEADER_SIZE NUL)"

lemma sample_read:
  "\<exists>c' bufs. http_handle_read sample_libs sample_env sample_env Success ''GET /''
       ([], (snd (fst sample_start))\<lparr>io := []\<rparr>) = Inr ([], c')
     \<and> io c' = [Timer_cancel, Async_write bufs] \<and> c_keep_alive c' \<and> \<not> waiting_for_async_reply c'
     \<and> p_headers (c_reply c') \<noteq> []"
  by (simp add: sample_start_def http_initial_def http_start_def async_conn_new_def connection_new_def
      connection.defs async_conn.defs issue_def Let_def sample_libs_def sample_env_def
      http_handle_read_def http_parse_def ref_libs_def message_begin_eq on_url_def append_component_def
      substr_at_def on_headers_complete_def on_message_complete_def log_request_begin_def
      conn_handle_request_def handle_request_def conn_create_def request_new_def request_reset_def
      http_send_reply_def log_request_end_def to_buffers_def reply_defs vec_resize_def)

lemma sample_writing:
  "\<exists>c p. reachable (http_handlers sample_libs) sample_start (([], c), p)
     \<and> writes p = 1 \<and> c_keep_alive c \<and> p_headers (c_reply c) \<noteq> []"
proof -
  define c0 where "c0 = snd (fst sample_start)"
  define p0 where "p0 = snd sample_start"
  have start: "sample_start = (([], c0), p0)" and reads: "reads p0 = 1" "writes p0 = 0"
    "waiting_for_async_reply c0 = False"
    by (simp_all add: c0_def p0_def sample_start_def http_initial_def http_start_def async_conn_new_def
        connection_new_def connection.defs async_conn.defs issue_def Let_def settle_def no_pending_def)
  obtain c' bufs where c': "http_handle_read sample_libs sample_env sample_env Success ''GET /'' ([], c0\<lparr>io := []\<rparr>) = Inr ([], c')"
    "io c' = [Timer_cancel, Async_write bufs]" "c_keep_alive c'" "\<not> waiting_for_async_reply c'"
    "p_headers (c_reply c') \<noteq> []"
    using sample_read unfolding c0_def by blast
  define p' where "p' = settle c0 c' (p0\<lparr>reads := reads p0 - 1\<rparr>)"
  have "conn_step (http_handlers sample_libs) (([], c0), p0) (([], c'), p')"
    unfolding p'_def using reads c'(1)
    by (intro conn_step.read [where e = Success and buf = "''GET /''" and E = sample_env and E' = sample_env]) auto
  then have "reachable (http_handlers sample_libs) sample_start (([], c'), p')"
    unfolding start by (blast intro: reachable.intros)
  moreover have "writes p' = 1" using c'(2,4) reads by (simp add: p'_def settle_def Let_def)
  ultimately show ?thesis using c'(3,5) by blast
qed

lemma http_send_reply_tokens:
  "http_send_reply L E c = Inr c' \<Longrightarrow> transfers (io c') = Suc (transfers (io c)) \<and> posted (io c') = posted (io c)"
  using http_send_reply_io [of L E c c'] by auto

lemma http_handle_read_passes:
  assumes "http_handle_read L E1 E2 Success buf (hs, c) = Inr (hs', c')"
    and "quiet_server hs" and "\<not> waiting_for_async_reply c" and "io c = []"
  shows "transfers (io c') + (if waiting_for_async_reply c' then 1 else 0) = 1"
  using assms(1)
proof (cases rule: http_handle_read_cases)
  case (bad n c1 c2)
  then have "transfers (io c2) = 0" using http_parse_io conn_create_io assms by fastforce
  then show ?thesis using http_send_reply_tokens [OF bad(5)] http_send_reply_io [OF bad(5)] by simp
next
  case (incomplete c1)
  then show ?thesis using http_parse_io http_parse_waiting assms by fastforce
next
  case (waiting c1 c2 c3)
  then have "io c1 = [Timer_cancel]" using http_parse_io assms(4) by fastforce
  then have "io c2 = [Timer_cancel]" using log_request_begin_cases [OF waiting(4)] by auto
  then show ?thesis using conn_handle_request_quiet [OF waiting(5) assms(2)] waiting by simp
next
  case (replied c1 c2 c3)
  then have "io c1 = [Timer_cancel]" using http_parse_io assms(4) by fastforce
  then have "io c2 = [Timer_cancel]" using log_request_begin_cases [OF replied(4)] by auto
  then show ?thesis
    using conn_handle_request_quiet [OF replied(5) assms(2)] http_send_reply_io [OF replied(7)] by auto
qed (use assms in simp_all)

text \<open>
  However reads, writes, timers and asynchronous replies interleave, and whatever
  errors they complete with, a plain connection never has more than one read, write,
  posted completion or promised asynchronous reply outstanding; while it is marked as
  waiting, exactly one asynchronous reply is on its way.
\<close>

theorem http_one_at_a_time:
  assumes "quiet_server hs0"
    and "reachable (http_handlers L) (http_initial L hs0 tag key value) ((hs, c), p)"
  shows "handshakes p + reads p + writes p + posts p + owed p \<le> 1
    \<and> (waiting_for_async_reply c \<longrightarrow> owed p + posts p = 1)"
  using http_reachable_inv [OF assms(2,1)] by (simp add: http.serial_inv_def tokens_def)

theorem http_one_at_a_time_witness:
  "\<exists>c p. reachable (http_handlers sample_libs) sample_start (([], c), p)
     \<and> writes p = 1 \<and> handshakes p + reads p + writes p + posts p + owed p \<le> 1"
proof -
  obtain c p where run: "reachable (http_handlers sample_libs) sample_start (([], c), p)" "writes p = 1"
    using sample_writing by blast
  have "quiet_server []" by (simp add: quiet_server_def)
  from http_one_at_a_time [OF this run(1) [unfolded sample_start_def]] run show ?thesis by blast
qed

text \<open>
  C11. The demand of \<^verbatim>\<open>reply.h\<close> that the reply is not changed until the write operation
  has completed is met: from any reachable state with a write outstanding, the only step
  that changes the reply is the completion of that write.
\<close>

theorem http_reply_stable_while_writing:
  assumes "quiet_server hs0"
    and "reachable (http_handlers L) (http_initial L hs0 tag key value) ((hs, c), p)"
    and "writes p > 0" and "conn_step (http_handlers L) ((hs, c), p) ((hs', c'), p')"
    and "c_reply c' \<noteq> c_reply c"
  shows "hs' = hs \<and> (\<exists>e. c' = http_handle_write L e (c\<lparr>io := []\<rparr>))"
  using http.reply_stable_while_writing [OF http_reachable_inv [OF assms(2,1)] assms(3-5)] by auto

theorem http_reply_stable_while_writing_witness:
  "\<exists>c p c' p'. reachable (http_handlers sample_libs) sample_start (([], c), p)
     \<and> writes p > 0 \<and> conn_step (http_handlers sample_libs) (([], c), p) (([], c'), p')
     \<and> c_reply c' \<noteq> c_reply c \<and> (\<exists>e. c' = http_handle_write sample_libs e (c\<lparr>io := []\<rparr>))"
proof -
  obtain c p where run: "reachable (http_handlers sample_libs) sample_start (([], c), p)" "writes p = 1"
    "c_keep_alive c" "p_headers (c_reply c) \<noteq> []"
    using sample_writing by blast
  define c' where "c' = http_handle_write sample_libs Success (c\<lparr>io := []\<rparr>)"
  define p' where "p' = settle c c' (p\<lparr>writes := writes p - 1\<rparr>)"
  have step: "conn_step (http_handlers sample_libs) (([], c), p) (([], c'), p')"
    unfolding p'_def c'_def using run(2)
    by (intro conn_step.written [where e = Success and E = sample_env]) auto
  have "p_headers (c_reply c') = []"
    using run(3) by (simp add: c'_def http_handle_write_def Let_def reply_reset_def)
  with run(4) have new: "c_reply c' \<noteq> c_reply c" by auto
  have "quiet_server []" by (simp add: quiet_server_def)
  from http_reply_stable_while_writing [OF this run(1) [unfolded sample_start_def] _ step new] run(2)
  have "\<exists>e. c' = http_handle_write sample_libs e (c\<lparr>io := []\<rparr>)" by simp
  with run(1,2) step new show ?thesis by (metis zero_less_one)
qed

text \<open>
  C15. A plain connection goes quiet for three reasons only: a read failed, a write failed,
  or the reply just written said that the connection closes. Any other step of a
  connection with something outstanding leaves exactly one operation outstanding.
\<close>

theorem http_goes_on:
  assumes "quiet_server hs0"
    and "reachable (http_handlers L) (http_initial L hs0 tag key value) ((hs, c), p)"
    and "handshakes p + reads p + writes p + posts p + owed p = 1"
    and "conn_step (http_handlers L) ((hs, c), p) ((hs', c'), p')"
  shows "handshakes p' + reads p' + writes p' + posts p' + owed p' = 1
    \<or> reads p = 1 \<and> (\<exists>E E' e buf. e \<noteq> Success
          \<and> http_handle_read L E E' e buf (hs, c\<lparr>io := []\<rparr>) = Inr (hs', c'))
    \<or> writes p = 1 \<and> (\<exists>e. (e \<noteq> Success \<or> \<not> c_keep_alive c)
          \<and> c' = http_handle_write L e (c\<lparr>io := []\<rparr>))"
proof -
  have one: "tokens p = 1" using assms(3) by (simp add: tokens_def)
  have inv: "http.serial_inv ((hs, c), p)" using http_reachable_inv [OF assms(2,1)] .
  then have good: "quiet_server hs" by (simp add: http.serial_inv_def)
  note pos = tokens_pos(2-) [of p, unfolded one] and bounds = tokens_bounds [of p, unfolded one]
  note settled = settle_tokens [of c c']
  from assms(4) have "tokens p' = 1 \<or> reads p = 1 \<and> (\<exists>E E' e buf. e \<noteq> Success
          \<and> http_handle_read L E E' e buf (hs, c\<lparr>io := []\<rparr>) = Inr (hs', c'))
    \<or> writes p = 1 \<and> (\<exists>e. (e \<noteq> Success \<or> \<not> c_keep_alive c)
          \<and> c' = http_handle_write L e (c\<lparr>io := []\<rparr>))"
  proof (cases rule: conn_step.cases)
    case (handshake e)
    then show ?thesis by simp
  next
    case (shutdown e)
    then have "c' = http_handle_shutdown e (c\<lparr>io := []\<rparr>)"
      and p': "p' = settle c c' (p\<lparr>shutdowns := shutdowns p - 1\<rparr>)" by simp_all
    then have "transfers (io c') = 0" "waiting_for_async_reply c' = waiting_for_async_reply c"
      by (simp_all add: http_handle_shutdown_def)
    then show ?thesis using settled one p' by simp
  next
    case (read E E' e buf)
    have r: "reads p = 1" "\<not> waiting_for_async_reply c"
      using read bounds inv one by (auto simp: http.serial_inv_def tokens_def)
    show ?thesis
    proof (cases "e = Success")
      case True
      then have "transfers (io c') + (if waiting_for_async_reply c' then 1 else 0) = 1"
        using read good r(2) http_handle_read_passes [of L E E' buf hs "c\<lparr>io := []\<rparr>" hs' c'] by simp
      then show ?thesis using read settled r(2) pos(1) by simp
    next
      case False
      have "http_handle_read L E E' e buf (hs, c\<lparr>io := []\<rparr>) = Inr (hs', c')"
        using read(3) by simp
      with False r(1) show ?thesis by blast
    qed
  next
    case (written E e)
    then show ?thesis
      using settled pos(2) bounds
      by (cases "e = Success \<and> c_keep_alive c") (auto simp: http_handle_write_io)
  next
    case (wait ws h x ws' e E)
    then have "c' = http_handle_timer e (c\<lparr>io := []\<rparr>)" and p': "p' = settle c c' (p\<lparr>waits := ws @ ws'\<rparr>)"
      by simp_all
    then have "transfers (io c') = 0" "waiting_for_async_reply c' = waiting_for_async_reply c"
      by (simp_all add: http_handle_timer_frame)
    then show ?thesis using settled one p' by simp
  next
    case (post E)
    then have s: "http_send_reply L E (issue [Timer_cancel] (c\<lparr>io := []\<rparr>)) = Inr c'"
      by (cases "http_handle_async_reply_done L E (c\<lparr>io := []\<rparr>)") (auto simp: http_handle_async_reply_done_def)
    show ?thesis
      using post settled pos(3) http_send_reply_tokens [OF s] http_send_reply_io [OF s] by simp
  next
    case (fill r)
    then show ?thesis using one by simp
  next
    case (notify E)
    then show ?thesis using settled pos(4) by (auto simp: http_notify_frame)
  qed
  then show ?thesis by (simp add: tokens_def)
qed

theorem http_goes_on_witness:
  "\<exists>c p c' p'. reachable (http_handlers sample_libs) sample_start (([], c), p)
     \<and> conn_step (http_handlers sample_libs) (([], c), p) (([], c'), p')
     \<and> writes p = 1 \<and> handshakes p' + reads p' + writes p' + posts p' + owed p' = 1"
proof -
  obtain c p where run: "reachable (http_handlers sample_libs) sample_start (([], c), p)" "writes p = 1"
    "c_keep_alive c" "p_headers (c_reply c) \<noteq> []"
    using sample_writing by blast
  define c' where "c' = http_handle_write sample_libs Success (c\<lparr>io := []\<rparr>)"
  define p' where "p' = settle c c' (p\<lparr>writes := writes p - 1\<rparr>)"
  have step: "conn_step (http_handlers sample_libs) (([], c), p) (([], c'), p')"
    unfolding p'_def c'_def using run(2)
    by (intro conn_step.written [where e = Success and E = sample_env]) auto
  have q: "quiet_server []" by (simp add: quiet_server_def)
  have "http.serial_inv (([], c), p)"
    using http_reachable_inv [OF run(1) [unfolded sample_start_def] q] .
  then have p: "handshakes p + reads p + writes p + posts p + owed p = 1" "reads p = 0"
    using run(2) by (simp_all add: http.serial_inv_def tokens_def)
  have "\<not> (\<exists>e. (e \<noteq> Success \<or> \<not> c_keep_alive c) \<and> c' = http_handle_write sample_libs e (c\<lparr>io := []\<rparr>))"
  proof
    assume "\<exists>e. (e \<noteq> Success \<or> \<not> c_keep_alive c) \<and> c' = http_handle_write sample_libs e (c\<lparr>io := []\<rparr>)"
    then obtain e where e: "e \<noteq> Success" "c' = http_handle_write sample_libs e (c\<lparr>io := []\<rparr>)"
      using run(3) by auto
    from e(1) have "io (http_handle_write sample_libs e (c\<lparr>io := []\<rparr>)) = []"
      using run(3) by (simp add: http_handle_write_io)
    moreover have "io c' \<noteq> []" using run(3) by (simp add: c'_def http_handle_write_io)
    ultimately show False using e(2) by simp
  qed
  with http_goes_on [OF q run(1) [unfolded sample_start_def] p(1) step] p(2)
  have "handshakes p' + reads p' + writes p' + posts p' + owed p' = 1" by auto
  with run(1,2) step show ?thesis by blast
qed

end
