(* ===== verification/Http_Exchange.thy ===== *)
theory Http_Exchange
  imports Http_Connection
begin

text \<open>
  From the bytes of a read to the bytes of a write on the plain connection: a whole
  request in one block, the errors of the parser, a target cut in two by the end of a read, and
  more than one request in a block.
\<close>

section \<open>A block that is one request\<close>

text \<open>What the connection holds after the parser has reported one whole message.\<close>

definition received ::
  "('os, 'p) libs \<Rightarrow> string \<Rightarrow> url_fields \<Rightarrow> fragments list \<Rightarrow> 64 word \<Rightarrow> nat \<Rightarrow> string list \<Rightarrow>
   'os request_t" where
  "received L u uf fs n m bs =
     \<lparr>r_method = Some (method_of_code m), r_url = component u (uf_path uf),
      r_query = component u (uf_query uf), r_id = [], r_uuid = 0,
      r_headers = map (stored L) fs, r_content_length = n,
      r_rx = foldl (lib_os_write L) (lib_os_new L) bs\<rparr>"

text \<open>A message the parser and the arrays can take.\<close>

definition acceptable :: "('os, 'p) libs \<Rightarrow> string \<Rightarrow> url_fields \<Rightarrow> fragments list \<Rightarrow> bool" where
  "acceptable L u uf fs \<longleftrightarrow> lib_parse_url L u = (0, uf) \<and> in_range u (uf_path uf) \<and> in_range u (uf_query uf)
     \<and> (\<forall>f \<in> set fs. fits f)"

lemma feed_request:
  assumes "text_law L" and "conn_ok L c" and "acceptable L u uf fs"
  obtains c' where "feed L (request_events u fs n m bs k) c = Inr c'"
    "c_request c' = received L u uf fs n m bs" "c_reply c' = reply_reset L (c_reply c)"
    "c_request_complete c'" "c_keep_alive c' = (k \<noteq> 0)"
    "waiting_for_async_reply c' = waiting_for_async_reply c"
proof -
  have "lib_parse_url L u = (0, uf)" "in_range u (uf_path uf)" "in_range u (uf_query uf)"
    "\<forall>f \<in> set fs. fits f"
    using assms(3) by (simp_all add: acceptable_def)
  moreover have "cbuf_alloc (header_key c)" "cbuf_alloc (header_val c)"
    using assms(2) by (simp_all add: conn_ok_def)
  ultimately show ?thesis
    using request_of_events [OF assms(1), of c u uf fs n m bs k] that
    by (auto simp: received_def)
qed

lemma feed_ok:
  "feed L evs c = Inr c' \<Longrightarrow> text_law L \<Longrightarrow> conn_ok L c \<Longrightarrow> conn_ok L c'"
  by (induction evs arbitrary: c) (auto dest: conn_ok_callback)

lemma conn_ok_issue [simp]: "conn_ok L (issue rs c) = conn_ok L c"
  by (simp add: conn_ok_def message_begun_def issue_def)

lemma http_parse_calls:
  assumes "lib_execute L (c_parser c) buf = calls evs (n, prs)"
  shows "http_parse L buf c = bindE (feed L evs c) (\<lambda>c'. Inr (n, c'\<lparr>c_parser := prs\<rparr>))"
  by (simp add: http_parse_def assms run_with_calls bindE_assoc)

lemma http_parse_callsD:
  "http_parse L buf c = Inr (m, c1) \<Longrightarrow> lib_execute L (c_parser c) buf = calls evs (n, prs) \<Longrightarrow>
   \<exists>c0. feed L evs c = Inr c0 \<and> c1 = c0\<lparr>c_parser := prs\<rparr>"
  by (auto simp: http_parse_calls)

section \<open>Sending a reply\<close>

lemma touch_ok: "uuid_law L \<Longrightarrow> conn_ok L c \<Longrightarrow> conn_ok L (touch_request_id L E c)"
  by (simp add: conn_ok_def message_begun_def touch_request_id_def request_id_consistent)

text \<open>A log line that cannot fail: filtered out, or with a connected peer and a known method.\<close>

definition loggable :: "log_env \<Rightarrow> ('os, 'p, 'z) connection_scheme \<Rightarrow> bool" where
  "loggable E c \<longleftrightarrow> (log_info E \<longrightarrow> log_peer E \<noteq> None
     \<and> (\<exists>m. r_method (c_request c) = Some m \<and> method_code m < length method_strings))"

lemma log_method_ok:
  "r_method (c_request c) = Some m \<Longrightarrow> method_code m < length method_strings \<Longrightarrow>
   \<exists>s. log_method c = Inr s"
  by (simp add: log_method_def method_to_string_def)

lemma log_request_begin_loggable:
  assumes "loggable E c"
  obtains c' where "log_request_begin L E c = Inr c'" "c' = c \<or> c' = touch_request_id L E c"
proof (cases "log_info E")
  case True
  with assms obtain ep m where "log_peer E = Some ep" "r_method (c_request c) = Some m"
    "method_code m < length method_strings"
    by (auto simp: loggable_def)
  with True log_method_ok [of "touch_request_id L E c" m] that show ?thesis
    by (auto simp: log_request_begin_def log_endpoint_def Let_def)
next
  case False
  with that show ?thesis by (simp add: log_request_begin_def)
qed

lemma log_request_end_loggable:
  assumes "loggable E c" and "p_status (c_reply c) \<noteq> None"
  obtains c' where "log_request_end L E c = Inr c'" "c' = c \<or> c' = touch_request_id L E c"
proof (cases "log_info E")
  case True
  with assms obtain ep m where "log_peer E = Some ep" "r_method (c_request c) = Some m"
    "method_code m < length method_strings"
    by (auto simp: loggable_def)
  with True assms(2) log_method_ok [of "touch_request_id L E c" m] that show ?thesis
    by (auto simp: log_request_end_def log_endpoint_def Let_def reply_status_def)
next
  case False
  with that show ?thesis by (simp add: log_request_end_def)
qed

definition closing_headers :: "bool \<Rightarrow> header_t list" where
  "closing_headers keep = (if keep then [] else [\<lparr>name = ''Connection'', val = ''close''\<rparr>])"

lemma wf_closing_headers: "\<forall>h \<in> set (closing_headers keep). wf_header h"
  by (simp add: closing_headers_def wf_header_def CR_def)

lemma http_send_reply_wire:
  assumes "avro_law L" and "loggable E c"
    and "p_avro_tx (c_reply c) = Some os" and "p_status (c_reply c) = Some s"
    and "\<forall>h \<in> set (p_headers (c_reply c)). wf_header h"
  obtains c' bufs where "http_send_reply L E c = Inr c'" "io c' = io c @ [Async_write bufs]"
    "read_reply (concat bufs) = Some (status_text s,
       p_headers (c_reply c) @ closing_headers (c_keep_alive c), os_content L os)"
    "c_keep_alive c' = c_keep_alive c"
proof -
  obtain c1 where log: "log_request_end L E c = Inr c1" and c1: "c1 = c \<or> c1 = touch_request_id L E c"
    using log_request_end_loggable [OF assms(2)] assms(4) by auto
  then have same: "io c1 = io c" "c_reply c1 = c_reply c" "c_keep_alive c1 = c_keep_alive c" by auto
  let ?r = "c_reply (reply_ready c1)"
  have r: "p_avro_tx ?r = Some os" "p_status ?r = Some s"
    "p_headers ?r = p_headers (c_reply c) @ closing_headers (c_keep_alive c)"
    using assms(3,4) same by (simp_all add: reply_ready_def reply_add_def closing_headers_def)
  note bufs = to_buffers_eq [OF assms(1) r(1,2)]
  show ?thesis
    using that [OF http_send_reply_eq [OF log, unfolded bufs bindE_Inr prod.case]]
      read_reply_buffers [of "p_headers ?r" s "os_content L os"] assms(5) wf_closing_headers r(3) same
    by auto
qed

section \<open>Samples\<close>

text \<open>A fresh connection, for the witnesses.\<close>

definition fresh_conn :: "('os, 'p) libs \<Rightarrow> ('os, 'p) async_conn" where
  "fresh_conn L = async_conn_new L ''request_id'' (replicate MAX_HEADER_SIZE NUL) (replicate MAX_HEADER_SIZE NUL)"

lemma fresh_conn_simps [simp]:
  "io (fresh_conn L) = []" "\<not> waiting_for_async_reply (fresh_conn L)"
  "c_parser (fresh_conn L) = lib_parser_init L" "c_reply (fresh_conn L) = reply_new"
  "c_request (fresh_conn L) = request_new L" "\<not> c_keep_alive (fresh_conn L)"
  "last_header_was_value (fresh_conn L) = None" "\<not> c_request_complete (fresh_conn L)"
  by (simp_all add: fresh_conn_def async_conn_new_def connection_new_def connection.defs async_conn.defs)

lemma conn_ok_fresh [simp]: "conn_ok L (fresh_conn L)"
  by (simp add: conn_ok_def message_begun_def)
    (simp add: fresh_conn_def async_conn_new_def connection_new_def connection.defs async_conn.defs cbuf_alloc_def)

definition peer_env :: log_env where
  "peer_env = \<lparr>log_info = True, log_trace = False, log_peer = Some (''::1'', 80), log_rnd = 7\<rparr>"

lemma script_sample [simp]:
  "lib_parser_init (ref_libs s) = s" "lib_execute (ref_libs s) = script_execute"
  "lib_split (ref_libs s) = split_slash"
  "lib_parse_url (ref_libs s) u = (0, \<lparr>uf_path = Some (0, length u), uf_query = None\<rparr>)"
  by (simp_all add: ref_libs_def)

section \<open>A request and its reply\<close>

text \<open>
  A handler that answers at once: status, content type and content are a function of the
  levels of the path and of the request.
\<close>

definition respond ::
  "('os, 'p) libs \<Rightarrow> (string list \<Rightarrow> 'os request_t \<Rightarrow> status_type \<times> string \<times> string) \<Rightarrow>
   string list \<Rightarrow> ('os, 'p) async_conn \<Rightarrow> ('os, 'p) async_conn res" where
  "respond L g ps c =
     (case g ps (c_request c) of (s, ct, b) \<Rightarrow>
        bindE (reply_content_write L b (c_reply c)) (\<lambda>r.
          bindE (reply_create L s ct 0 r) (\<lambda>r. Inr (c\<lparr>c_reply := r\<rparr>))))"

lemma respond_eq:
  assumes "avro_law L" and "c_reply c = reply_reset L r0" and "g ps (c_request c) = (s, ct, b)"
  obtains os where "respond L g ps c = Inr (c\<lparr>c_reply := (c_reply c)\<lparr>p_avro_tx := Some os,
      p_status := Some s, p_headers := content_headers ct (length b)\<rparr>\<rparr>)"
    "os_content L os = b"
proof -
  define os where "os = lib_os_write L (lib_os_new L) b"
  have content: "os_content L os = b" using assms(1) by (simp add: os_def avro_lawD)
  have 1: "reply_content_write L b (c_reply c) = Inr ((c_reply c)\<lparr>p_avro_tx := Some os\<rparr>)"
    by (simp add: reply_content_write_def reply_reset_def os_def assms(2))
  have 2: "reply_create L s ct 0 ((c_reply c)\<lparr>p_avro_tx := Some os\<rparr>)
      = Inr ((c_reply c)\<lparr>p_avro_tx := Some os, p_status := Some s,
               p_headers := content_headers ct (length b)\<rparr>)"
    using assms(1) content by (subst reply_create_eq [of _ os]) (simp_all add: avro_lawD vec_resize_def)
  from 1 2 assms(3) have "respond L g ps c = Inr (c\<lparr>c_reply := (c_reply c)\<lparr>p_avro_tx := Some os,
      p_status := Some s, p_headers := content_headers ct (length b)\<rparr>\<rparr>)"
    by (simp add: respond_def)
  with content that show ?thesis by blast
qed

lemma respond_and_send:
  assumes "avro_law L" and "loggable E c" and "c_reply c = reply_reset L r0"
    and "g ps (c_request c) = (s, ct, b)" and "CR \<notin> set ct"
  obtains c3 c' bufs where "respond L g ps c = Inr c3"
    "waiting_for_async_reply c3 = waiting_for_async_reply c"
    "http_send_reply L E c3 = Inr c'" "io c' = io c @ [Async_write bufs]"
    "read_reply (concat bufs)
       = Some (status_text s, content_headers ct (length b) @ closing_headers (c_keep_alive c), b)"
proof -
  obtain os where run: "respond L g ps c = Inr (c\<lparr>c_reply := (c_reply c)\<lparr>p_avro_tx := Some os,
      p_status := Some s, p_headers := content_headers ct (length b)\<rparr>\<rparr>)" and os: "os_content L os = b"
    using respond_eq [OF assms(1,3), of g ps s ct b] assms(4) by blast
  define c3 where "c3 = c\<lparr>c_reply := (c_reply c)\<lparr>p_avro_tx := Some os,
      p_status := Some s, p_headers := content_headers ct (length b)\<rparr>\<rparr>"
  have c3: "loggable E c3" "p_avro_tx (c_reply c3) = Some os" "p_status (c_reply c3) = Some s"
    "p_headers (c_reply c3) = content_headers ct (length b)" "c_keep_alive c3 = c_keep_alive c"
    "waiting_for_async_reply c3 = waiting_for_async_reply c" "io c3 = io c"
    using assms(2) by (simp_all add: loggable_def c3_def)
  have "\<forall>h \<in> set (p_headers (c_reply c3)). wf_header h"
    using c3(4) wf_content_headers [OF assms(5)] by simp
  from http_send_reply_wire [OF assms(1) c3(1-3) this]
  obtain c' bufs where "http_send_reply L E c3 = Inr c'" "io c' = io c3 @ [Async_write bufs]"
    "read_reply (concat bufs) = Some (status_text s,
       p_headers (c_reply c3) @ closing_headers (c_keep_alive c3), os_content L os)" by blast
  with run c3 os show ?thesis
    by (intro that [of c3 c' bufs]) (simp_all add: c3_def [symmetric])
qed

lemma request_id_only_id: "(snd (request_id L rnd h r))\<lparr>r_id := [], r_uuid := 0\<rparr> = r\<lparr>r_id := [], r_uuid := 0\<rparr>"
  by (auto simp: request_id_def Let_def split: option.split)

lemma received_simps [simp]:
  "(received L u uf fs n m bs)\<lparr>r_id := [], r_uuid := 0\<rparr> = received L u uf fs n m bs"
  "r_method (received L u uf fs n m bs) = Some (method_of_code m)"
  "r_url (received L u uf fs n m bs) = component u (uf_path uf)"
  by (simp_all add: received_def)

lemma conn_handle_request_hit:
  assumes "\<forall>a \<in> set as. \<not> serves a (lib_split L (conn_url c))"
    and "split_law (lib_split L)" and "uri_matches (lib_split L pat) (lib_split L (conn_url c))"
  shows "conn_handle_request L (as @ handler_data_new (lib_split L) pat f cnt # hs) c =
     bindE (f (lib_split L (conn_url c)) c)
       (\<lambda>c'. Inr (as @ handler_data_new (lib_split L) pat f (cnt + 1) # hs, c'))"
  using assms
  by (simp add: conn_handle_request_def handle_request_def hd.dispatch_hit serves_new
      handler_call_new bindE_assoc)

text \<open>A block with one whole request is parsed into it, whatever the connection held.\<close>

lemma request_parsed:
  assumes "text_law L" and "conn_ok L c" and "acceptable L u uf fs"
    and "lib_execute L (c_parser c) buf = calls (request_events u fs n m bs k) (length buf, prs)"
  obtains c1 where "http_parse L buf c = Inr (length buf, c1)"
    "c_request c1 = received L u uf fs n m bs" "c_reply c1 = reply_reset L (c_reply c)"
    "c_request_complete c1" "c_keep_alive c1 = (k \<noteq> 0)"
    "waiting_for_async_reply c1 = waiting_for_async_reply c" "io c1 = io c"
proof -
  obtain c0 where c0: "feed L (request_events u fs n m bs k) c = Inr c0"
    "c_request c0 = received L u uf fs n m bs" "c_reply c0 = reply_reset L (c_reply c)"
    "c_request_complete c0" "c_keep_alive c0 = (k \<noteq> 0)"
    "waiting_for_async_reply c0 = waiting_for_async_reply c"
    using feed_request [OF assms(1,2,3), of n m bs k] by blast
  have parse: "http_parse L buf c = Inr (length buf, c0\<lparr>c_parser := prs\<rparr>)"
    using http_parse_calls [OF assms(4)] c0(1) by simp
  with c0 http_parse_io [OF parse] show ?thesis
    by (intro that [of "c0\<lparr>c_parser := prs\<rparr>"]) simp_all
qed

lemma loggable_received:
  "c_request c = received L u uf fs n m bs \<Longrightarrow> m < 26 \<Longrightarrow> log_peer E \<noteq> None \<Longrightarrow> loggable E c"
  by (simp add: loggable_def method_code_of_code)

text \<open>On the plain connection it reaches the server with nothing but its identification touched.\<close>

lemma request_reaches_server:
  assumes "text_law L" and "conn_ok L c" and "\<not> waiting_for_async_reply c" and "io c = []"
    and "acceptable L u uf fs" and "m < 26" and "log_peer E1 \<noteq> None"
    and "lib_execute L (c_parser c) buf = calls (request_events u fs n m bs k) (length buf, prs)"
  obtains c2 where "\<And>hs. http_handle_read L E1 E2 Success buf (hs, c) =
      bindE (conn_handle_request L hs c2) (\<lambda>(hs, c).
        if waiting_for_async_reply c then
          Inr (hs, issue [Timer_expires 3605, Timer_wait Handle_timer] c)
        else bindE (http_send_reply L E2 c) (\<lambda>c. Inr (hs, c)))"
    "(c_request c2)\<lparr>r_id := [], r_uuid := 0\<rparr> = received L u uf fs n m bs"
    "c_reply c2 = reply_reset L (c_reply c)" "c_keep_alive c2 = (k \<noteq> 0)"
    "\<not> waiting_for_async_reply c2" "io c2 = [Timer_cancel]"
    "conn_url c2 = component u (uf_path uf)" "r_method (c_request c2) = Some (method_of_code m)"
proof -
  let ?c = "issue [Timer_cancel] c"
  have ok: "conn_ok L ?c" using assms(2) by simp
  have exec: "lib_execute L (c_parser ?c) buf = calls (request_events u fs n m bs k) (length buf, prs)"
    using assms(8) by simp
  obtain c1 where c1: "http_parse L buf ?c = Inr (length buf, c1)"
    "c_request c1 = received L u uf fs n m bs" "c_reply c1 = reply_reset L (c_reply c)"
    "c_request_complete c1" "c_keep_alive c1 = (k \<noteq> 0)" "\<not> waiting_for_async_reply c1"
    "io c1 = [Timer_cancel]"
    by (rule request_parsed [OF assms(1) ok assms(5) exec]) (use assms(3,4) in auto)
  obtain c2 where log: "log_request_begin L E1 c1 = Inr c2" and c2: "c2 = c1 \<or> c2 = touch_request_id L E1 c1"
    using loggable_received [OF c1(2) assms(6,7)] by (rule log_request_begin_loggable)
  have "(c_request c2)\<lparr>r_id := [], r_uuid := 0\<rparr> = received L u uf fs n m bs"
    using c2 c1(2) by (auto simp: touch_request_id_def request_id_only_id)
  moreover have "c_reply c2 = reply_reset L (c_reply c)" "c_keep_alive c2 = (k \<noteq> 0)"
    "\<not> waiting_for_async_reply c2" "io c2 = [Timer_cancel]" "conn_url c2 = component u (uf_path uf)"
    "r_method (c_request c2) = Some (method_of_code m)"
    using c2 c1 by (auto simp: conn_url_def)
  ultimately show ?thesis
    using c1(1,4) log by (intro that [of c2]) (simp_all add: http_handle_read_def)
qed

text \<open>A handler that answers at once, run by the server, and the write it leads to.\<close>

lemma served_at_once:
  assumes "avro_law L" and "split_law (lib_split L)" and "loggable E2 c2"
    and "c_reply c2 = reply_reset L r0" and "\<not> waiting_for_async_reply c2"
    and "\<forall>a \<in> set as. \<not> serves a (lib_split L (conn_url c2))"
    and "uri_matches (lib_split L pat) (lib_split L (conn_url c2))"
    and "\<forall>r. CR \<notin> set (fst (snd (g (lib_split L (conn_url c2)) r)))"
  shows "\<exists>c' bufs s ct b.
      bindE (conn_handle_request L (as @ handler_data_new (lib_split L) pat (respond L g) cnt # hs) c2)
        (\<lambda>(hs, c). if waiting_for_async_reply c then
             Inr (hs, issue [Timer_expires 3605, Timer_wait Handle_timer] c)
           else bindE (http_send_reply L E2 c) (\<lambda>c. Inr (hs, c)))
        = Inr (as @ handler_data_new (lib_split L) pat (respond L g) (cnt + 1) # hs, c')
      \<and> io c' = io c2 @ [Async_write bufs] \<and> g (lib_split L (conn_url c2)) (c_request c2) = (s, ct, b)
      \<and> read_reply (concat bufs)
          = Some (status_text s, content_headers ct (length b) @ closing_headers (c_keep_alive c2), b)"
proof -
  let ?ps = "lib_split L (conn_url c2)"
  obtain s ct b where g: "g ?ps (c_request c2) = (s, ct, b)" by (cases "g ?ps (c_request c2)") auto
  have "CR \<notin> set ct" using g spec [OF assms(8), of "c_request c2"] by simp
  then obtain c3 c' bufs where c3: "respond L g ?ps c2 = Inr c3"
    "waiting_for_async_reply c3 = waiting_for_async_reply c2"
    "http_send_reply L E2 c3 = Inr c'" "io c' = io c2 @ [Async_write bufs]"
    "read_reply (concat bufs)
       = Some (status_text s, content_headers ct (length b) @ closing_headers (c_keep_alive c2), b)"
    using respond_and_send [of L E2 c2 r0 g ?ps s ct b] assms(1,3,4) g by blast
  have "conn_handle_request L (as @ handler_data_new (lib_split L) pat (respond L g) cnt # hs) c2
      = Inr (as @ handler_data_new (lib_split L) pat (respond L g) (cnt + 1) # hs, c3)"
    using conn_handle_request_hit [of as L c2 pat "respond L g" cnt hs] assms(2,6,7) c3(1) by simp
  with c3(2-5) assms(5) g show ?thesis by simp
qed

text \<open>
  C3. From bytes to bytes: when a block holds one whole request and the first handler
  that serves its path answers at once, \<^verbatim>\<open>handle_read\<close> stops the timer and starts one
  write; a reader of the bytes written gets the status, the content headers and the
  content the handler computed from the method, the path, the headers and the body the
  client sent, and \<^verbatim>\<open>Connection: close\<close> when the client did not ask to keep the
  connection. The handler's counter goes up by one.
\<close>

theorem http_exchange:
  assumes "text_law L" and "avro_law L" and "split_law (lib_split L)"
    and "conn_ok L c" and "\<not> waiting_for_async_reply c" and "io c = []"
    and "acceptable L u uf fs" and "m < 26" and "log_peer E1 \<noteq> None" and "log_peer E2 \<noteq> None"
    and "lib_execute L (c_parser c) buf = calls (request_events u fs n m bs k) (length buf, prs)"
    and "ps = lib_split L (component u (uf_path uf))"
    and "\<forall>a \<in> set as. \<not> serves a ps" and "uri_matches (lib_split L pat) ps"
    and "\<forall>r. CR \<notin> set (fst (snd (g ps r)))"
  shows "\<exists>c' bufs r s ct b.
      http_handle_read L E1 E2 Success buf
          (as @ handler_data_new (lib_split L) pat (respond L g) cnt # hs, c)
        = Inr (as @ handler_data_new (lib_split L) pat (respond L g) (cnt + 1) # hs, c')
      \<and> io c' = [Timer_cancel, Async_write bufs]
      \<and> r\<lparr>r_id := [], r_uuid := 0\<rparr> = received L u uf fs n m bs \<and> g ps r = (s, ct, b)
      \<and> read_reply (concat bufs)
          = Some (status_text s, content_headers ct (length b) @ closing_headers (k \<noteq> 0), b)"
proof -
  obtain c2 where c2: "\<And>hs. http_handle_read L E1 E2 Success buf (hs, c) =
      bindE (conn_handle_request L hs c2) (\<lambda>(hs, c).
        if waiting_for_async_reply c then
          Inr (hs, issue [Timer_expires 3605, Timer_wait Handle_timer] c)
        else bindE (http_send_reply L E2 c) (\<lambda>c. Inr (hs, c)))"
    "(c_request c2)\<lparr>r_id := [], r_uuid := 0\<rparr> = received L u uf fs n m bs"
    "c_reply c2 = reply_reset L (c_reply c)" "c_keep_alive c2 = (k \<noteq> 0)"
    "\<not> waiting_for_async_reply c2" "io c2 = [Timer_cancel]"
    "conn_url c2 = component u (uf_path uf)" "r_method (c_request c2) = Some (method_of_code m)"
    using request_reaches_server [OF assms(1,4-9,11), of E2 thesis] by blast
  have "loggable E2 c2"
    using c2(8) assms(8,10) by (simp add: loggable_def method_code_of_code)
  moreover have ps: "lib_split L (conn_url c2) = ps" using assms(12) c2(7) by simp
  ultimately obtain c' bufs s ct b where run: "bindE (conn_handle_request L
        (as @ handler_data_new (lib_split L) pat (respond L g) cnt # hs) c2) (\<lambda>(hs, c).
          if waiting_for_async_reply c then
            Inr (hs, issue [Timer_expires 3605, Timer_wait Handle_timer] c)
          else bindE (http_send_reply L E2 c) (\<lambda>c. Inr (hs, c)))
      = Inr (as @ handler_data_new (lib_split L) pat (respond L g) (cnt + 1) # hs, c')"
    and wire: "io c' = io c2 @ [Async_write bufs]" "g ps (c_request c2) = (s, ct, b)"
    "read_reply (concat bufs)
       = Some (status_text s, content_headers ct (length b) @ closing_headers (c_keep_alive c2), b)"
    using served_at_once [of L E2 c2 "c_reply c" as pat g cnt hs, unfolded ps] assms(2,3,13-15) c2(3,5)
    by blast
  from run have "http_handle_read L E1 E2 Success buf
      (as @ handler_data_new (lib_split L) pat (respond L g) cnt # hs, c)
        = Inr (as @ handler_data_new (lib_split L) pat (respond L g) (cnt + 1) # hs, c')"
    by (simp only: c2(1))
  then show ?thesis using c2(2,4,6) wire by auto
qed

theorem http_exchange_witness:
  "let fs = [([''Ho'', ''st''], [''X''])];
       L = ref_libs [(request_events ''/a'' fs 2 3 [''h'', ''i''] 1, 7)];
       g = (\<lambda>ps r. (ok, ''text/plain'', r_url r @ os_content L (r_rx r)))
   in \<exists>c' bufs. http_handle_read L peer_env peer_env Success ''POST /a''
          ([handler_data_new split_slash ''/+'' (respond L g) 4], fresh_conn L)
        = Inr ([handler_data_new split_slash ''/+'' (respond L g) 5], c')
      \<and> io c' = [Timer_cancel, Async_write bufs]
      \<and> read_reply (concat bufs) = Some (status_text ok, content_headers ''text/plain'' 4, ''/ahi'')"
proof -
  define fs where "fs = [([''Ho'', ''st''], [''X''])]"
  define L where "L = ref_libs [(request_events ''/a'' fs 2 3 [''h'', ''i''] 1, 7)]"
  define g where "g = (\<lambda>(ps :: string list) (r :: string request_t).
    (ok, ''text/plain'', r_url r @ os_content L (r_rx r)))"
  let ?uf = "\<lparr>uf_path = Some (0, 2), uf_query = None\<rparr>"
  have fits: "acceptable L ''/a'' ?uf fs"
    by (simp add: acceptable_def L_def in_range_def fs_def fits_def MAX_HEADER_SIZE_def NUL_def)
  have laws: "text_law L" "avro_law L" "split_law (lib_split L)" by (simp_all add: L_def split_law_split_slash)
  have exec: "lib_execute L (c_parser (fresh_conn L)) ''POST /a''
      = calls (request_events ''/a'' fs 2 3 [''h'', ''i''] 1) (length ''POST /a'', [])"
    by (simp add: L_def) (simp add: eval_nat_numeral)
  have path: "[[], ''a''] = lib_split L (component ''/a'' (uf_path ?uf))"
    by (simp add: L_def component_def)
  have peer: "log_peer peer_env \<noteq> None" by (simp add: peer_env_def)
  have match: "uri_matches (lib_split L ''/+'') [[], ''a'']" by (simp add: L_def uri_matches_Cons)
  have type: "\<forall>r. CR \<notin> set (fst (snd (g [[], ''a''] r)))" by (simp add: g_def CR_def)
  obtain c' bufs r s ct b where run: "http_handle_read L peer_env peer_env Success ''POST /a''
          ([] @ handler_data_new (lib_split L) ''/+'' (respond L g) 4 # [], fresh_conn L)
        = Inr ([] @ handler_data_new (lib_split L) ''/+'' (respond L g) (4 + 1) # [], c')"
      "io c' = [Timer_cancel, Async_write bufs]"
      "r\<lparr>r_id := [], r_uuid := 0\<rparr> = received L ''/a'' ?uf fs 2 3 [''h'', ''i'']"
      "g [[], ''a''] r = (s, ct, b)"
      "read_reply (concat bufs) = Some (status_text s, content_headers ct (length b) @ closing_headers (1 \<noteq> (0::int)), b)"
    using http_exchange [of L "fresh_conn L" "''/a''" ?uf fs 3 peer_env peer_env "''POST /a''" 2
        "[''h'', ''i'']" 1 "[]" "[[], ''a'']" "[]" "''/+''" g 4 "[]"]
      laws fits peer exec path match type
    by simp blast
  have "r_url r = ''/a''" "r_rx r = ''hi''"
    using arg_cong [OF run(3), of r_url] arg_cong [OF run(3), of r_rx]
    by (simp_all add: received_def component_def) (simp add: L_def ref_libs_def)
  then have "s = ok" "ct = ''text/plain''" "b = ''/ahi''"
    using run(4) by (auto simp: g_def L_def)
  with run(1,2,5) have "\<exists>c' bufs. http_handle_read L peer_env peer_env Success ''POST /a''
          ([handler_data_new split_slash ''/+'' (respond L g) 4], fresh_conn L)
        = Inr ([handler_data_new split_slash ''/+'' (respond L g) 5], c')
      \<and> io c' = [Timer_cancel, Async_write bufs]
      \<and> read_reply (concat bufs) = Some (status_text ok, content_headers ''text/plain'' 4, ''/ahi'')"
    by (intro exI [of _ c'] exI [of _ bufs]) (simp add: closing_headers_def L_def eval_nat_numeral)
  then show ?thesis by (simp only: Let_def g_def L_def fs_def)
qed

section \<open>A reply that comes later\<close>

text \<open>
  C17. A handler that only calls \<^verbatim>\<open>wait_for_async_reply\<close> leaves the connection waiting with
  nothing but a timer running. Whatever well-formed reply its owner then puts into the
  connection is what the client gets: \<^verbatim>\<open>notify_async_reply_done\<close> posts one completion,
  and that completion stops the timer, ends the waiting and writes exactly this reply.
\<close>

theorem http_deferred_exchange:
  assumes "text_law L" and "avro_law L" and "split_law (lib_split L)"
    and "conn_ok L c" and "\<not> waiting_for_async_reply c" and "io c = []"
    and "acceptable L u uf fs" and "m < 26" and "log_peer E1 \<noteq> None" and "log_peer E2 \<noteq> None"
    and "lib_execute L (c_parser c) buf = calls (request_events u fs n m bs k) (length buf, prs)"
    and "uri_matches (lib_split L pat) (lib_split L (component u (uf_path uf)))"
    and "p_avro_tx r = Some os" and "p_status r = Some s" and "\<forall>h \<in> set (p_headers r). wf_header h"
  shows "\<exists>hs' c1 c2 c3 bufs.
      http_handle_read L E1 E2 Success buf
          ([handler_data_new (lib_split L) pat (\<lambda>ps c. Inr (http_wait_for_async_reply c)) cnt], c) = Inr (hs', c1)
      \<and> waiting_for_async_reply c1 \<and> transfers (io c1) = 0 \<and> last (io c1) = Timer_wait Handle_timer
      \<and> c2 = http_notify_async_reply_done L E1 (c1\<lparr>c_reply := r, io := []\<rparr>) \<and> io c2 = [Post_reply_done]
      \<and> http_handle_async_reply_done L E2 (c2\<lparr>io := []\<rparr>) = Inr c3
      \<and> \<not> waiting_for_async_reply c3 \<and> io c3 = [Timer_cancel, Async_write bufs]
      \<and> read_reply (concat bufs)
          = Some (status_text s, p_headers r @ closing_headers (k \<noteq> 0), os_content L os)"
proof -
  let ?hs = "\<lambda>n. [handler_data_new (lib_split L) pat (\<lambda>ps c. Inr (http_wait_for_async_reply c)) n]"
  obtain c0 where c0: "\<And>hs. http_handle_read L E1 E2 Success buf (hs, c) =
      bindE (conn_handle_request L hs c0) (\<lambda>(hs, c).
        if waiting_for_async_reply c then
          Inr (hs, issue [Timer_expires 3605, Timer_wait Handle_timer] c)
        else bindE (http_send_reply L E2 c) (\<lambda>c. Inr (hs, c)))"
    "c_keep_alive c0 = (k \<noteq> 0)" "io c0 = [Timer_cancel]"
    "conn_url c0 = component u (uf_path uf)" "r_method (c_request c0) = Some (method_of_code m)"
    using request_reaches_server [OF assms(1,4-9,11), of E2 thesis] by blast
  have "conn_handle_request L (?hs cnt) c0 = Inr (?hs (cnt + 1), http_wait_for_async_reply c0)"
    using conn_handle_request_hit [of "[]" L c0 pat _ cnt "[]"] assms(3,12) c0(4) by simp
  then obtain c1 where c1: "http_handle_read L E1 E2 Success buf (?hs cnt, c) = Inr (?hs (cnt + 1), c1)"
    "c1 = issue [Timer_expires 3605, Timer_wait Handle_timer] (http_wait_for_async_reply c0)"
    by (simp add: c0(1) http_wait_for_async_reply_def Let_def)
  then have c1': "waiting_for_async_reply c1" "transfers (io c1) = 0"
    "last (io c1) = Timer_wait Handle_timer" "c_keep_alive c1 = (k \<noteq> 0)"
    "r_method (c_request c1) = Some (method_of_code m)"
    using c0(2,3,5) by (simp_all add: http_wait_for_async_reply_def Let_def)
  define c2 where "c2 = http_notify_async_reply_done L E1 (c1\<lparr>c_reply := r, io := []\<rparr>)"
  let ?c = "issue [Timer_cancel] (c2\<lparr>io := []\<rparr>)"
  have c2: "io c2 = [Post_reply_done]" "c_reply ?c = r" "c_keep_alive ?c = (k \<noteq> 0)"
    "r_method (c_request ?c) = Some (method_of_code m)" "io ?c = [Timer_cancel]"
    using c1'(4,5) by (simp_all add: c2_def http_notify_async_reply_done_def Let_def)
  have "loggable E2 ?c" using c2(4) assms(8,10) by (simp add: loggable_def method_code_of_code)
  moreover have "p_avro_tx (c_reply ?c) = Some os" "p_status (c_reply ?c) = Some s"
    "\<forall>h \<in> set (p_headers (c_reply ?c)). wf_header h"
    using assms(13-15) c2(2) by simp_all
  ultimately
  obtain c3 bufs where c3: "http_send_reply L E2 ?c = Inr c3" "io c3 = io ?c @ [Async_write bufs]"
    "read_reply (concat bufs) = Some (status_text s,
       p_headers (c_reply ?c) @ closing_headers (c_keep_alive ?c), os_content L os)"
    using http_send_reply_wire [OF assms(2), of E2 ?c os s thesis] by blast
  then have "\<not> waiting_for_async_reply c3" using http_send_reply_io(2) by blast
  then show ?thesis
    using c1(1) c1'(1-3) c2 c3
    by (intro exI [of _ "?hs (cnt + 1)"] exI [of _ c1] exI [of _ c2] exI [of _ c3] exI [of _ bufs])
      (simp add: c2_def http_handle_async_reply_done_def)
qed

theorem http_deferred_exchange_witness:
  "let L = ref_libs [(request_events ''/a'' [] 0 1 [] 0, 2)];
       r = \<lparr>p_headers = content_headers ''text/plain'' 2, p_avro_tx = Some ''hi'', p_boost_tx = None,
            p_status = Some created\<rparr>
   in \<exists>hs' c1 c2 c3 bufs. http_handle_read L peer_env peer_env Success ''..''
          ([handler_data_new split_slash ''#'' (\<lambda>ps c. Inr (http_wait_for_async_reply c)) 0], fresh_conn L) = Inr (hs', c1)
      \<and> waiting_for_async_reply c1
      \<and> c2 = http_notify_async_reply_done L peer_env (c1\<lparr>c_reply := r, io := []\<rparr>)
      \<and> http_handle_async_reply_done L peer_env (c2\<lparr>io := []\<rparr>) = Inr c3
      \<and> io c3 = [Timer_cancel, Async_write bufs]
      \<and> read_reply (concat bufs) = Some (status_text created,
          content_headers ''text/plain'' 2 @ [\<lparr>name = ''Connection'', val = ''close''\<rparr>], ''hi'')"
proof -
  define L where "L = ref_libs [(request_events ''/a'' [] 0 1 [] 0, 2)]"
  define r where "r = \<lparr>p_headers = content_headers ''text/plain'' 2, p_avro_tx = Some ''hi'',
    p_boost_tx = None, p_status = Some created\<rparr>"
  let ?uf = "\<lparr>uf_path = Some (0, 2), uf_query = None\<rparr>"
  have fits: "acceptable L ''/a'' ?uf []" by (simp add: acceptable_def L_def in_range_def)
  have exec: "lib_execute L (c_parser (fresh_conn L)) ''..''
      = calls (request_events ''/a'' [] 0 1 [] 0) (length ''..'', [])"
    by (simp add: L_def numeral_2_eq_2)
  have laws: "text_law L" "avro_law L" "split_law (lib_split L)" by (simp_all add: L_def split_law_split_slash)
  have peer: "log_peer peer_env \<noteq> None" by (simp add: peer_env_def)
  have match: "uri_matches (lib_split L ''#'') (lib_split L (component ''/a'' (uf_path ?uf)))"
    by (simp add: L_def component_def uri_matches_Cons)
  have r: "p_avro_tx r = Some ''hi''" "p_status r = Some created" "\<forall>h \<in> set (p_headers r). wf_header h"
    using wf_content_headers [of "''text/plain''" 2] by (simp_all add: r_def CR_def)
  have lib: "lib_split L = split_slash" "os_content L ''hi'' = ''hi''" by (simp_all add: L_def)
  show ?thesis
    unfolding Let_def L_def [symmetric] r_def [symmetric]
    using http_deferred_exchange [OF laws conn_ok_fresh _ _ fits _ peer peer exec match r, of 0] lib
    by (simp add: closing_headers_def r_def) blast
qed

section \<open>Blocks the parser refuses\<close>

text \<open>
  A client whose very first byte the parser refuses takes the server down: no
  message has begun, so the reply has no stream, and \<^verbatim>\<open>_reply.create(bad_request)\<close>
  dereferences the empty pointer.
\<close>

theorem garbage_on_fresh_connection:
  assumes "p_avro_tx (c_reply c) = None" and "lib_execute L (c_parser c) buf = calls [] (n, prs)"
    and "n < length buf"
  shows "http_handle_read L E1 E2 Success buf (hs, c) = Inl Null_pointer"
proof -
  have "http_parse L buf (issue [Timer_cancel] c) = Inr (n, (issue [Timer_cancel] c)\<lparr>c_parser := prs\<rparr>)"
    using http_parse_calls [of L "issue [Timer_cancel] c" buf "[]" n prs] assms(2) by (simp add: issue_def)
  with assms(1,3) show ?thesis
    by (simp add: http_handle_read_def conn_create_def reply_create_no_stream)
qed

theorem garbage_on_fresh_connection_witness:
  "http_handle_read (ref_libs [([], 0)]) peer_env peer_env Success [CHR 0x16, CHR 0x03]
     ([], fresh_conn (ref_libs [([], 0)])) = Inl Null_pointer"
  by (rule garbage_on_fresh_connection [where n = 0 and prs = "[]"]) (simp_all add: reply_new_def)

text \<open>The reply after \<^verbatim>\<open>create\<close> on an empty content.\<close>

lemma conn_create_empty:
  assumes "avro_law L" and "p_avro_tx (c_reply c) = Some os" and "os_content L os = []"
  shows "conn_create L s c = Inr (c\<lparr>c_reply := (c_reply c)\<lparr>p_status := Some s,
           p_headers := [\<lparr>name = ''Content-Length'', val = ''0''\<rparr>]\<rparr>\<rparr>)"
  using assms
  by (simp add: conn_create_def reply_create_eq avro_lawD vec_resize_def content_headers_def)

lemma http_handle_read_bad:
  assumes "http_parse L buf (issue [Timer_cancel] c) = Inr (n, c1)" and "n \<noteq> length buf"
  shows "http_handle_read L E1 E2 Success buf (hs, c)
       = bindE (conn_create L bad_request c1) (\<lambda>c. bindE (http_send_reply L E2 c) (\<lambda>c. Inr (hs, c)))"
  using assms by (simp add: http_handle_read_def)

text \<open>Only the beginning of a message touches the reply, and only the end of its headers the method.\<close>

lemma callback_reply:
  assumes "parser_settings L ev c = Inr (r, c')"
  shows "c_reply c' = (if ev = Message_begin then reply_reset L (c_reply c) else c_reply c)"
proof (cases ev)
  case (Url at)
  with assms show ?thesis by (auto elim!: on_url_cases)
next
  case (Header_field at)
  with assms show ?thesis by (auto elim!: on_header_field_cases)
next
  case (Headers_complete n m)
  with assms show ?thesis by (auto elim!: on_headers_complete_cases)
qed (use assms in \<open>auto simp: on_message_begin_def on_header_value_def on_body_def
    on_message_complete_def Let_def\<close>)

fun is_headers_complete :: "parser_event \<Rightarrow> bool" where
  "is_headers_complete (Headers_complete n m) = True"
| "is_headers_complete ev = False"

lemma callback_method:
  assumes "parser_settings L ev c = Inr (r, c')" and "\<not> is_headers_complete ev"
  shows "r_method (c_request c') = r_method (c_request c)"
proof (cases ev)
  case (Url at)
  with assms show ?thesis by (auto elim!: on_url_cases)
next
  case (Header_field at)
  with assms show ?thesis by (auto simp: push_header_def Let_def elim!: on_header_field_cases)
qed (use assms in \<open>auto simp: on_message_begin_def request_reset_def on_header_value_def on_body_def
    on_message_complete_def Let_def\<close>)

lemma feed_reply:
  "feed L evs c = Inr c' \<Longrightarrow> \<exists>r. c_reply c = reply_reset L r \<Longrightarrow> \<exists>r. c_reply c' = reply_reset L r"
proof (induction evs arbitrary: c)
  case (Cons ev evs)
  then obtain r c1 where ev: "parser_settings L ev c = Inr (r, c1)" and rest: "feed L evs c1 = Inr c'"
    by auto
  from callback_reply [OF ev] Cons.prems(2) have "\<exists>r. c_reply c1 = reply_reset L r" by auto
  with Cons.IH [OF rest] show ?case .
qed simp

lemma feed_method:
  "feed L evs c = Inr c' \<Longrightarrow> \<forall>ev \<in> set evs. \<not> is_headers_complete ev \<Longrightarrow>
   r_method (c_request c') = r_method (c_request c)"
  by (induction evs arbitrary: c) (auto dest: callback_method)

lemma refused_reply:
  assumes "avro_law L" and "http_parse L buf (issue [Timer_cancel] c) = Inr (n, c1)" and "n \<noteq> length buf"
    and "c_reply c1 = reply_reset L r" and "io c1 = [Timer_cancel]" and "loggable E2 c1"
  shows "\<exists>c' bufs. http_handle_read L E1 E2 Success buf (hs, c) = Inr (hs, c')
      \<and> io c' = [Timer_cancel, Async_write bufs]
      \<and> read_reply (concat bufs) = Some (status_text bad_request,
          [\<lparr>name = ''Content-Length'', val = ''0''\<rparr>] @ closing_headers (c_keep_alive c1), [])"
proof -
  define c2 where "c2 = c1\<lparr>c_reply := (c_reply c1)\<lparr>p_status := Some bad_request,
    p_headers := [\<lparr>name = ''Content-Length'', val = ''0''\<rparr>]\<rparr>\<rparr>"
  have "conn_create L bad_request c1 = Inr c2"
    using conn_create_empty [OF assms(1), of c1 "lib_os_new L"] assms(1)
    by (simp add: assms(4) reply_reset_def avro_lawD c2_def)
  moreover have c2: "loggable E2 c2" "p_avro_tx (c_reply c2) = Some (lib_os_new L)"
    "p_status (c_reply c2) = Some bad_request" "c_keep_alive c2 = c_keep_alive c1"
    "p_headers (c_reply c2) = [\<lparr>name = ''Content-Length'', val = ''0''\<rparr>]" "io c2 = [Timer_cancel]"
    using assms(4-6) by (simp_all add: c2_def loggable_def reply_reset_def)
  moreover have "\<forall>h \<in> set (p_headers (c_reply c2)). wf_header h"
    by (simp add: c2(5) wf_header_def CR_def)
  from http_send_reply_wire [OF assms(1) c2(1-3) this]
  obtain c' bufs where "http_send_reply L E2 c2 = Inr c'" "io c' = io c2 @ [Async_write bufs]"
    "read_reply (concat bufs) = Some (status_text bad_request,
       p_headers (c_reply c2) @ closing_headers (c_keep_alive c2), os_content L (lib_os_new L))"
    by blast
  ultimately show ?thesis
    using http_handle_read_bad [OF assms(2,3)] assms(1) by (simp add: avro_lawD)
qed

lemma refused_unlogged:
  assumes "avro_law L" and "http_parse L buf (issue [Timer_cancel] c) = Inr (n, c1)" and "n \<noteq> length buf"
    and "c_reply c1 = reply_reset L r" and "r_method (c_request c1) = None" and "log_info E2" and "log_peer E2 \<noteq> None"
  shows "http_handle_read L E1 E2 Success buf (hs, c) = Inl Uninitialised"
proof -
  have "\<exists>r'. conn_create L bad_request c1 = Inr (c1\<lparr>c_reply := r'\<rparr>)"
    using conn_create_empty [OF assms(1), of c1 "lib_os_new L" bad_request] assms(1,4)
    by (auto simp: reply_reset_def avro_lawD)
  with assms(5) obtain c2 where c2: "conn_create L bad_request c1 = Inr c2" "r_method (c_request c2) = None"
    by auto
  then have "http_send_reply L E2 c2 = Inl Uninitialised"
    using assms(6,7) by (auto simp: http_send_reply_def log_request_end_def log_endpoint_def log_method_def)
  with c2 show ?thesis using http_handle_read_bad [OF assms(2,3)] by simp
qed

text \<open>
  Once a message has begun, a block the parser refuses half-way is answered with 400
  and no content, no handler runs, and the write is the only transfer started, provided
  the log line of \<^verbatim>\<open>send_reply\<close> can be written. The reply announces the end of the
  connection unless an earlier message on it asked to keep it.
\<close>

theorem bad_request_answered:
  assumes "avro_law L" and "io c = []"
    and "lib_execute L (c_parser c) buf = calls (Message_begin # evs) (n, prs)" and "n < length buf"
    and "http_parse L buf (issue [Timer_cancel] c) = Inr (n, c1)" and "loggable E2 c1"
  shows "\<exists>c' bufs. http_handle_read L E1 E2 Success buf (hs, c) = Inr (hs, c')
      \<and> io c' = [Timer_cancel, Async_write bufs]
      \<and> read_reply (concat bufs) = Some (status_text bad_request,
          [\<lparr>name = ''Content-Length'', val = ''0''\<rparr>] @ closing_headers (c_keep_alive c1), [])"
proof -
  obtain c0 where feed: "feed L (Message_begin # evs) (issue [Timer_cancel] c) = Inr c0"
    and c1: "c1 = c0\<lparr>c_parser := prs\<rparr>"
    using http_parse_callsD [OF assms(5), of "Message_begin # evs" n prs] assms(3)
    by (auto simp del: feed.simps)
  from feed obtain ca where ca: "parser_settings L Message_begin (issue [Timer_cancel] c) = Inr (0, ca)"
    "feed L evs ca = Inr c0"
    by (auto simp: message_begin_eq)
  from feed_reply [OF ca(2)] callback_reply [OF ca(1)]
  obtain r where "c_reply c1 = reply_reset L r" by (auto simp: c1)
  moreover have "io c1 = [Timer_cancel]" using assms(2) http_parse_io [OF assms(5)] by simp
  ultimately show ?thesis using refused_reply [OF assms(1,5)] assms(4,6) by simp
qed

theorem bad_request_answered_witness:
  "let L = ref_libs [([Message_begin, Url ''/a''], 7)] in
   \<exists>c' bufs. http_handle_read L sample_env sample_env Success ''GET /a bad'' ([], fresh_conn L) = Inr ([], c')
      \<and> io c' = [Timer_cancel, Async_write bufs]
      \<and> read_reply (concat bufs) = Some (status_text bad_request,
          [\<lparr>name = ''Content-Length'', val = ''0''\<rparr>, \<lparr>name = ''Connection'', val = ''close''\<rparr>], [])"
proof -
  define L where "L = ref_libs [([Message_begin, Url ''/a''], 7)]"
  have exec: "lib_execute L (c_parser (fresh_conn L)) ''GET /a bad'' = calls (Message_begin # [Url ''/a'']) (7, [])"
    by (simp add: L_def)
  obtain c1 where c1: "http_parse L ''GET /a bad'' (issue [Timer_cancel] (fresh_conn L)) = Inr (7, c1)"
    "\<not> c_keep_alive c1"
    by (simp add: L_def http_parse_def message_begin_eq on_url_def append_component_def substr_at_def)
  have "loggable sample_env c1" by (simp add: loggable_def sample_env_def)
  from bad_request_answered [OF _ _ exec _ c1(1) this, of sample_env "[]"] c1(2)
  have "\<exists>c' bufs. http_handle_read L sample_env sample_env Success ''GET /a bad'' ([], fresh_conn L) = Inr ([], c')
      \<and> io c' = [Timer_cancel, Async_write bufs]
      \<and> read_reply (concat bufs) = Some (status_text bad_request,
          [\<lparr>name = ''Content-Length'', val = ''0''\<rparr>, \<lparr>name = ''Connection'', val = ''close''\<rparr>], [])"
    by (simp add: L_def closing_headers_def)
  then show ?thesis by (simp only: Let_def L_def)
qed

text \<open>
  With the severity \<^verbatim>\<open>info\<close> enabled, as it is by default, a block refused before the end
  of the headers of the connection's first request is not answered: \<^verbatim>\<open>send_reply\<close> first
  prints \<^verbatim>\<open>request().method()\<close>, which nothing has written yet, and indexes the table of
  method names with it.
\<close>

theorem bad_request_log_reads_garbage:
  assumes "r_method (c_request c) = None" and "log_info E2" and "log_peer E2 \<noteq> None" and "avro_law L"
    and "lib_execute L (c_parser c) buf = calls (Message_begin # evs) (n, prs)" and "n < length buf"
    and "http_parse L buf (issue [Timer_cancel] c) = Inr (n, c1)"
    and "\<forall>ev \<in> set evs. \<not> is_headers_complete ev"
  shows "http_handle_read L E1 E2 Success buf (hs, c) = Inl Uninitialised"
proof -
  obtain c0 where feed: "feed L (Message_begin # evs) (issue [Timer_cancel] c) = Inr c0"
    and c1: "c1 = c0\<lparr>c_parser := prs\<rparr>"
    using http_parse_callsD [OF assms(7), of "Message_begin # evs" n prs] assms(5)
    by (auto simp del: feed.simps)
  from feed_method [OF feed] assms(1,8) have "r_method (c_request c1) = None" by (simp add: c1)
  from feed obtain ca where ca: "parser_settings L Message_begin (issue [Timer_cancel] c) = Inr (0, ca)"
    "feed L evs ca = Inr c0"
    by (auto simp: message_begin_eq)
  from feed_reply [OF ca(2)] callback_reply [OF ca(1)]
  obtain r where "c_reply c1 = reply_reset L r" by (auto simp: c1)
  from refused_unlogged [OF assms(4,7) _ this _ assms(2,3)] \<open>r_method (c_request c1) = None\<close> assms(6)
  show ?thesis by simp
qed

theorem bad_request_log_reads_garbage_witness:
  "let L = ref_libs [([Message_begin, Url ''/a''], 7)] in
   http_handle_read L peer_env peer_env Success ''GET /a bad'' ([], fresh_conn L) = Inl Uninitialised"
proof -
  define L where "L = ref_libs [([Message_begin, Url ''/a''], 7)]"
  have exec: "lib_execute L (c_parser (fresh_conn L)) ''GET /a bad'' = calls (Message_begin # [Url ''/a'']) (7, [])"
    by (simp add: L_def)
  obtain c1 where c1: "http_parse L ''GET /a bad'' (issue [Timer_cancel] (fresh_conn L)) = Inr (7, c1)"
    by (simp add: L_def http_parse_def message_begin_eq on_url_def append_component_def substr_at_def)
  have "http_handle_read L peer_env peer_env Success ''GET /a bad'' ([], fresh_conn L) = Inl Uninitialised"
    using bad_request_log_reads_garbage [OF _ _ _ _ exec _ c1, of peer_env peer_env "[]"]
    by (simp add: L_def request_new_def peer_env_def)
  then show ?thesis by (simp only: Let_def L_def)
qed

section \<open>A read that ends inside the target\<close>

text \<open>
  C7. A request is refused because of how the network cut it: when a read ends inside the
  target, \<^verbatim>\<open>on_url\<close> is called for the first part and, with the next read, for the rest, and has
  \<^verbatim>\<open>http_parser_parse_url\<close> parse each by itself. A rest that is no target of its own (every one
  that does not begin with a slash, say) makes \<^verbatim>\<open>on_url\<close> return an error, the parser stops, and
  the well-formed request is answered with 400 and no content; no handler runs. On the first
  request of a connection, with the severity \<^verbatim>\<open>info\<close> enabled, even that reply is not sent: its log
  line reads the method, which nothing has written yet.
\<close>

theorem split_target_refused:
  assumes "avro_law L" and "io c = []"
    and "\<forall>u \<in> set us. piece_ok L u \<and> url_in_range L u" and "\<not> piece_ok L u"
    and "lib_execute L (c_parser c) buf = calls (Message_begin # map Url us) (length buf, p)"
    and "lib_execute L p buf' = obeying (Url u # evs) res" and "fst (res evs) < length buf'"
    and "log_peer E2 \<noteq> None"
    and "\<forall>m. r_method (c_request c) = Some m \<longrightarrow> method_code m < length method_strings"
  shows "\<exists>c1. http_handle_read L E E1 Success buf (hs, c) = Inr (hs, c1)
      \<and> io c1 = [Timer_cancel, Timer_expires 5, Timer_wait Handle_timer, Async_read]
      \<and> r_url (c_request c1) = concat (map (piece_path L) us)
      \<and> (if log_info E2 \<and> r_method (c_request c) = None
         then http_handle_read L E1 E2 Success buf' (hs, c1\<lparr>io := []\<rparr>) = Inl Uninitialised
         else \<exists>c2 bufs. http_handle_read L E1 E2 Success buf' (hs, c1\<lparr>io := []\<rparr>) = Inr (hs, c2)
           \<and> io c2 = [Timer_cancel, Async_write bufs]
           \<and> read_reply (concat bufs) = Some (status_text bad_request,
               [\<lparr>name = ''Content-Length'', val = ''0''\<rparr>] @ closing_headers (c_keep_alive c), []))"
proof -
  let ?c = "issue [Timer_cancel] c"
  define c0 where "c0 = ?c\<lparr>c_request := request_reset L (c_request c), c_reply := reply_reset L (c_reply c),
     c_request_complete := False, last_header_was_value := Some False,
     header_key := cbuf_clear (header_key c), header_val := cbuf_clear (header_val c)\<rparr>"
  obtain d where d: "feed L (Message_begin # map Url us) ?c = Inr d" "\<not> c_request_complete d"
    "r_url (c_request d) = concat (map (piece_path L) us)" "c_reply d = reply_reset L (c_reply c)"
    "c_keep_alive d = c_keep_alive c" "r_method (c_request d) = r_method (c_request c)" "io d = [Timer_cancel]"
    using feed_urls [OF assms(3), of c0] assms(2) by (auto simp: message_begin_eq c0_def request_reset_def issue_def)
  define c1 where "c1 = issue [Timer_expires 5, Timer_wait Handle_timer, Async_read] (d\<lparr>c_parser := p\<rparr>)"
  have "http_parse L buf ?c = Inr (length buf, d\<lparr>c_parser := p\<rparr>)"
    using http_parse_calls [of L ?c buf "Message_begin # map Url us" "length buf" p] assms(5) d(1)
    by (simp del: feed.simps calls.simps)
  with d(2) have first: "http_handle_read L E E1 Success buf (hs, c) = Inr (hs, c1)"
    by (simp add: http_handle_read_def c1_def)
  let ?d = "(issue [Timer_cancel] (c1\<lparr>io := []\<rparr>))\<lparr>c_parser_url := Some (snd (lib_parse_url L u)), c_parser := snd (res evs)\<rparr>"
  have "c_parser c1 = p" by (simp add: c1_def)
  then have parse: "http_parse L buf' (issue [Timer_cancel] (c1\<lparr>io := []\<rparr>)) = Inr (fst (res evs), ?d)"
    using assms(6) run_refused [OF assms(4), of evs res "issue [Timer_cancel] (c1\<lparr>io := []\<rparr>)"]
    by (simp add: http_parse_def case_prod_beta del: obeying.simps)
  have n: "fst (res evs) \<noteq> length buf'" using assms(7) by simp
  have same: "c_reply ?d = reply_reset L (c_reply c)" "r_method (c_request ?d) = r_method (c_request c)"
    "io ?d = [Timer_cancel]" "c_keep_alive ?d = c_keep_alive c"
    using d(4-6) by (simp_all add: c1_def issue_def)
  have io1: "io c1 = [Timer_cancel, Timer_expires 5, Timer_wait Handle_timer, Async_read]"
    "r_url (c_request c1) = concat (map (piece_path L) us)"
    using d(3,7) by (simp_all add: c1_def issue_def)
  show ?thesis
  proof (cases "log_info E2 \<and> r_method (c_request c) = None")
    case True
    then have "http_handle_read L E1 E2 Success buf' (hs, c1\<lparr>io := []\<rparr>) = Inl Uninitialised"
      using refused_unlogged [OF assms(1) parse n same(1), of E2 E1 hs] same(2) assms(8) by simp
    with True first io1 show ?thesis by auto
  next
    case False
    then have "loggable E2 ?d" using assms(8,9) same(2) by (auto simp: loggable_def)
    from refused_reply [OF assms(1) parse n same(1,3) this, of E1 hs] False first io1 show ?thesis
      unfolding same(4) by auto
  qed
qed

text \<open>The target \<^verbatim>\<open>/abc\<close> in two reads, on a connection with the log filtered and with the log on.\<close>

definition cut_libs :: "(string, script) libs" where
  "cut_libs = (origin_libs [([Message_begin, Url ''/a''], 6)])\<lparr>lib_execute := (\<lambda>p buf.
     if p = [] then obeying [Url ''bc'', Headers_complete 0 1, Message_complete 1]
       (\<lambda>rest. (if rest = [] then length buf else 0, []))
     else script_execute p buf)\<rparr>"

theorem split_target_refused_witness:
  "\<exists>c1 c2 bufs. http_handle_read cut_libs peer_env sample_env Success ''GET /a'' ([], fresh_conn cut_libs) = Inr ([], c1)
     \<and> http_handle_read cut_libs sample_env (peer_env\<lparr>log_info := False\<rparr>) Success ''bc HTTP'' ([], c1\<lparr>io := []\<rparr>) = Inr ([], c2)
     \<and> io c2 = [Timer_cancel, Async_write bufs]
     \<and> read_reply (concat bufs) = Some (status_text bad_request,
         [\<lparr>name = ''Content-Length'', val = ''0''\<rparr>, \<lparr>name = ''Connection'', val = ''close''\<rparr>], [])
     \<and> http_handle_read cut_libs sample_env peer_env Success ''bc HTTP'' ([], c1\<lparr>io := []\<rparr>) = Inl Uninitialised"
proof -
  have law: "avro_law cut_libs" by (simp add: cut_libs_def)
  have pieces: "\<forall>u \<in> set [''/a'']. piece_ok cut_libs u \<and> url_in_range cut_libs u" "\<not> piece_ok cut_libs ''bc''"
    by (simp_all add: cut_libs_def origin_libs_def piece_ok_def url_in_range_def in_range_def)
  have first: "lib_execute cut_libs (c_parser (fresh_conn cut_libs)) ''GET /a'' = calls (Message_begin # map Url [''/a'']) (length ''GET /a'', [])"
    by (simp add: cut_libs_def origin_libs_def eval_nat_numeral)
  have second: "lib_execute cut_libs [] ''bc HTTP'' = obeying (Url ''bc'' # [Headers_complete 0 1, Message_complete 1])
      (\<lambda>rest. (if rest = [] then length ''bc HTTP'' else 0, []))"
    by (simp add: cut_libs_def)
  have refused: "\<exists>c1. http_handle_read cut_libs peer_env sample_env Success ''GET /a'' ([], fresh_conn cut_libs) = Inr ([], c1)
      \<and> io c1 = [Timer_cancel, Timer_expires 5, Timer_wait Handle_timer, Async_read]
      \<and> r_url (c_request c1) = concat (map (piece_path cut_libs) [''/a''])
      \<and> (if log_info E2 \<and> r_method (c_request (fresh_conn cut_libs)) = None
         then http_handle_read cut_libs sample_env E2 Success ''bc HTTP'' ([], c1\<lparr>io := []\<rparr>) = Inl Uninitialised
         else \<exists>c2 bufs. http_handle_read cut_libs sample_env E2 Success ''bc HTTP'' ([], c1\<lparr>io := []\<rparr>) = Inr ([], c2)
           \<and> io c2 = [Timer_cancel, Async_write bufs]
           \<and> read_reply (concat bufs) = Some (status_text bad_request,
               [\<lparr>name = ''Content-Length'', val = ''0''\<rparr>] @ closing_headers (c_keep_alive (fresh_conn cut_libs)), []))"
    if peer: "log_peer E2 \<noteq> None" for E2
    by (rule split_target_refused [OF law _ pieces first second _ peer]) (simp_all add: request_new_def)
  from refused [of peer_env] refused [of "peer_env\<lparr>log_info := False\<rparr>"] show ?thesis
    by (auto simp: peer_env_def request_new_def closing_headers_def)
qed

section \<open>More than one request in a block\<close>

text \<open>
  C40. A client that pipelines loses requests: when a block holds a whole request and the
  first byte of the next, the callback for the second message wipes the first before
  \<^verbatim>\<open>handle_read\<close> looks at it. No handler runs, nothing is written, no trace of the first
  request remains, and the connection goes on reading.
\<close>

theorem pipelined_request_lost:
  assumes "text_law L" and "conn_ok L c" and "\<not> waiting_for_async_reply c" and "io c = []"
    and "acceptable L u uf fs"
    and "lib_execute L (c_parser c) buf
           = calls (request_events u fs n m bs k @ [Message_begin]) (length buf, prs)"
  shows "\<exists>c'. http_handle_read L E1 E2 Success buf (hs, c) = Inr (hs, c')
      \<and> io c' = [Timer_cancel, Timer_expires 5, Timer_wait Handle_timer, Async_read]
      \<and> r_url (c_request c') = [] \<and> r_headers (c_request c') = []
      \<and> r_rx (c_request c') = lib_os_new L"
proof -
  let ?c = "issue [Timer_cancel] c"
  obtain c0 where c0: "feed L (request_events u fs n m bs k) ?c = Inr c0"
    "waiting_for_async_reply c0 = waiting_for_async_reply ?c"
    using feed_request [OF assms(1) _ assms(5), of ?c n m bs k] assms(2) by auto
  obtain c1 where c1: "on_message_begin L c0 = Inr (0, c1)" "\<not> c_request_complete c1"
    "c_request c1 = request_reset L (c_request c0)"
    by (simp add: message_begin_eq)
  have parse: "http_parse L buf ?c = Inr (length buf, c1\<lparr>c_parser := prs\<rparr>)"
    using http_parse_calls [of L ?c buf] assms(6) c0(1) c1(1) by (simp add: feed_append)
  have "io c1 = [Timer_cancel]" using http_parse_io [OF parse] assms(4) by simp
  with parse c1(2,3) show ?thesis
    by (simp add: http_handle_read_def request_reset_def)
qed

theorem pipelined_request_lost_witness:
  "let L = ref_libs [(request_events ''/a'' [] 0 1 [] 1 @ [Message_begin], 2)];
       hs = [handler_data_new split_slash ''#'' (respond L (\<lambda>ps r. (ok, ''text/plain'', ''hi''))) 0]
   in \<exists>c'. http_handle_read L peer_env peer_env Success ''..'' (hs, fresh_conn L) = Inr (hs, c')
      \<and> io c' = [Timer_cancel, Timer_expires 5, Timer_wait Handle_timer, Async_read]
      \<and> r_url (c_request c') = [] \<and> r_headers (c_request c') = []
      \<and> r_rx (c_request c') = lib_os_new L"
proof -
  define L where "L = ref_libs [(request_events ''/a'' [] 0 1 [] 1 @ [Message_begin], 2)]"
  let ?uf = "\<lparr>uf_path = Some (0, 2), uf_query = None\<rparr>"
  have fits: "acceptable L ''/a'' ?uf []" by (simp add: acceptable_def L_def in_range_def)
  have exec: "lib_execute L (c_parser (fresh_conn L)) ''..''
      = calls (request_events ''/a'' [] 0 1 [] 1 @ [Message_begin]) (length ''..'', [])"
    by (simp add: L_def numeral_2_eq_2)
  have lower: "text_law L" by (simp add: L_def)
  show ?thesis
    unfolding Let_def L_def [symmetric]
    by (rule pipelined_request_lost [OF lower conn_ok_fresh _ _ fits exec]) simp_all
qed

section \<open>Methods newer than the table\<close>

text \<open>
  A parser that knows more methods than the 26 of \<^verbatim>\<open>method_t\<close> makes a complete, well
  formed request with such a method index past the end of the table of method names,
  as soon as the log line at the start of a request is enabled.
\<close>

theorem unknown_method_out_of_bounds:
  assumes "text_law L" and "conn_ok L c" and "\<not> waiting_for_async_reply c"
    and "acceptable L u uf fs" and "26 \<le> m" and "log_info E1" and "log_peer E1 \<noteq> None"
    and "lib_execute L (c_parser c) buf = calls (request_events u fs n m bs k) (length buf, prs)"
  shows "http_handle_read L E1 E2 Success buf (hs, c) = Inl Out_of_bounds"
proof -
  let ?c = "issue [Timer_cancel] c"
  obtain c0 where c0: "feed L (request_events u fs n m bs k) ?c = Inr c0"
    "c_request c0 = received L u uf fs n m bs" "c_request_complete c0"
    using feed_request [OF assms(1) _ assms(4), of ?c n m bs k] assms(2) by auto
  have parse: "http_parse L buf ?c = Inr (length buf, c0\<lparr>c_parser := prs\<rparr>)"
    using http_parse_calls [of L ?c buf] assms(8) c0(1) by simp
  have "log_method (touch_request_id L E1 (c0\<lparr>c_parser := prs\<rparr>)) = Inl Out_of_bounds"
    using assms(5) by (simp add: log_method_def c0(2) method_to_string_of_code)
  then have "log_request_begin L E1 (c0\<lparr>c_parser := prs\<rparr>) = Inl Out_of_bounds"
    using assms(6,7) by (auto simp: log_request_begin_def log_endpoint_def Let_def)
  with parse c0(3) show ?thesis by (simp add: http_handle_read_def)
qed

theorem unknown_method_out_of_bounds_witness:
  "let L = ref_libs [(request_events ''/a'' [] 0 28 [] 1, 2)] in
   http_handle_read L peer_env peer_env Success ''..'' ([], fresh_conn L) = Inl Out_of_bounds"
proof -
  define L where "L = ref_libs [(request_events ''/a'' [] 0 28 [] 1, 2)]"
  let ?uf = "\<lparr>uf_path = Some (0, 2), uf_query = None\<rparr>"
  have "acceptable L ''/a'' ?uf []" by (simp add: acceptable_def L_def in_range_def)
  moreover have "lib_execute L (c_parser (fresh_conn L)) ''..''
      = calls (request_events ''/a'' [] 0 28 [] 1) (length ''..'', [])"
    by (simp add: L_def numeral_2_eq_2)
  ultimately have "http_handle_read L peer_env peer_env Success ''..'' ([], fresh_conn L) = Inl Out_of_bounds"
    using unknown_method_out_of_bounds [of L "fresh_conn L" "''/a''" ?uf "[]" 28 peer_env "''..''" 0 "[]" 1]
    by (simp add: L_def peer_env_def)
  then show ?thesis by (simp only: Let_def L_def)
qed

section \<open>The announced length\<close>

text \<open>
  \<^verbatim>\<open>content_length()\<close> of a whole request returns the size of its body when the client
  announced no length or exactly that one, and runs into its \<^verbatim>\<open>assert\<close> otherwise: with the
  value \<open>2 ^ 64 - 1\<close> the parser uses for a message without a length, every shorter body does.
\<close>

theorem content_length_assertion:
  assumes "text_law L" and "avro_law L" and "conn_ok L (c :: ('os, 'p) async_conn)" and "acceptable L u uf fs"
    and "lib_execute L (c_parser c) buf = calls (request_events u fs n m bs k) (length buf, prs)"
  shows "\<exists>c1. http_parse L buf c = Inr (length buf, c1)
     \<and> request_content_length L (c_request c1)
         = (if n = 0 \<or> unat n = length (concat bs) then Inr (length (concat bs)) else Inl Assertion)"
proof -
  obtain c1 where c1: "http_parse L buf c = Inr (length buf, c1)" "c_request c1 = received L u uf fs n m bs"
    using request_parsed [OF assms(1,3-5)] by blast
  have "lib_os_count L (r_rx (c_request c1)) = length (concat bs)"
    using os_content_foldl [OF assms(2), of "lib_os_new L" bs] assms(2) by (simp add: c1(2) received_def avro_lawD)
  then have "request_content_length L (c_request c1)
      = (if n = 0 \<or> unat n = length (concat bs) then Inr (length (concat bs)) else Inl Assertion)"
    by (auto simp: request_content_length_def c1(2) received_def word_neq_0_conv [symmetric])
  with c1(1) show ?thesis by blast
qed

theorem content_length_assertion_witness:
  "let L = ref_libs [(request_events ''/a'' [] 5 3 [''hi''] 1, 2)] in
   \<exists>c1. http_parse L ''..'' (fresh_conn L) = Inr (2, c1) \<and> request_content_length L (c_request c1) = Inl Assertion"
proof -
  define L where "L = ref_libs [(request_events ''/a'' [] 5 3 [''hi''] 1, 2)]"
  let ?uf = "\<lparr>uf_path = Some (0, 2), uf_query = None\<rparr>"
  have fits: "acceptable L ''/a'' ?uf []" by (simp add: acceptable_def L_def in_range_def)
  have exec: "lib_execute L (c_parser (fresh_conn L)) ''..''
      = calls (request_events ''/a'' [] 5 3 [''hi''] 1) (length ''..'', [])"
    by (simp add: L_def numeral_2_eq_2)
  have laws: "text_law L" "avro_law L" by (simp_all add: L_def)
  have two: "length ''..'' = 2" and other: "(5 :: 64 word) \<noteq> 0" "unat (5 :: 64 word) \<noteq> length (concat [''hi''])"
    by simp_all
  show ?thesis
    unfolding Let_def L_def [symmetric]
    using content_length_assertion [OF laws conn_ok_fresh fits exec]
    by (simp only: two other if_False simp_thms)
qed

end
