(* ===== verification/Https_Connection.thy ===== *)
theory Https_Connection
  imports Http_Exchange
begin

text \<open>
  \<^verbatim>\<open>csi::http::https_connection\<close> (\<^verbatim>\<open>server/https_connection.h\<close>,
  \<^verbatim>\<open>server/https_connection.cpp\<close>): the handlers of the TLS connection. Without asynchronous
  replies they keep the same discipline as the plain connection; with them they do not,
  because the wait that stands for a pending reply is aborted by the next timer that is
  armed, and its abortion sends the reply.
\<close>

section \<open>The code\<close>

definition https_start :: "('os, 'p) async_conn \<Rightarrow> ('os, 'p) async_conn" where
  "https_start c = issue [Async_handshake] c"

definition https_send_reply ::
  "('os, 'p) libs \<Rightarrow> log_env \<Rightarrow> ('os, 'p) async_conn \<Rightarrow> ('os, 'p) async_conn res" where
  "https_send_reply L E c =
     bindE (log_request_end L E c) (\<lambda>c.
       let c = c\<lparr>waiting_for_async_reply := False\<rparr>;
           c = (if \<not> c_keep_alive c
                then c\<lparr>c_reply := reply_add \<lparr>name = ''Connection'', val = ''close''\<rparr> (c_reply c)\<rparr>
                else c)
       in bindE (to_buffers L (c_reply c)) (\<lambda>(bufs, r).
            Inr (issue [Async_write bufs] (c\<lparr>c_reply := r\<rparr>))))"

definition https_wait_for_async_reply :: "('os, 'p) async_conn \<Rightarrow> ('os, 'p) async_conn" where
  "https_wait_for_async_reply c =
     (let c = c\<lparr>waiting_for_async_reply := True\<rparr>
      in issue [Timer_expires 3660, Timer_wait Handle_async_call] c)"

definition https_notify_async_reply_done ::
  "('os, 'p) libs \<Rightarrow> log_env \<Rightarrow> ('os, 'p) async_conn \<Rightarrow> ('os, 'p) async_conn" where
  "https_notify_async_reply_done L E c =
     (let c = (if log_info E then touch_request_id L E c else c)
      in issue [Timer_cancel] c)"

definition https_handle_handshake :: "error_code \<Rightarrow> ('os, 'p) async_conn \<Rightarrow> ('os, 'p) async_conn" where
  "https_handle_handshake e c = (if e = Success then issue [Async_read] c else c)"

text \<open>\<^verbatim>\<open>request().request_uuid()\<close> before the request is logged and dispatched.\<close>

definition force_request_uuid ::
  "('os, 'p) libs \<Rightarrow> uuid \<Rightarrow> ('os, 'p) async_conn \<Rightarrow> ('os, 'p) async_conn" where
  "force_request_uuid L rnd c =
     c\<lparr>c_request := snd (request_uuid L rnd default_request_id_header (c_request c))\<rparr>"

definition https_handle_read ::
  "('os, 'p) libs \<Rightarrow> log_env \<Rightarrow> log_env \<Rightarrow> error_code \<Rightarrow> string \<Rightarrow> ('os, 'p) session \<Rightarrow>
   ('os, 'p) session res" where
  "https_handle_read L E1 E2 e buf s =
     (case s of (hs, c) \<Rightarrow>
      if e = Operation_aborted then Inr (hs, c)
      else if e = Success then
        bindE (http_parse L buf c) (\<lambda>(nparsed, c).
          if nparsed \<noteq> length buf then
            bindE (conn_create L bad_request c) (\<lambda>c.
              bindE (https_send_reply L E2 c) (\<lambda>c. Inr (hs, c)))
          else if c_request_complete c then
            (let c = force_request_uuid L (log_rnd E1) c in
             bindE (log_request_begin L E1 c) (\<lambda>c.
               bindE (conn_handle_request L hs c) (\<lambda>(hs, c).
                 if waiting_for_async_reply c then
                   Inr (hs, issue [Timer_expires 3605, Timer_wait Handle_timer] c)
                 else
                   bindE (https_send_reply L E2 c) (\<lambda>c. Inr (hs, c)))))
          else
            Inr (hs, issue [Timer_expires 5, Timer_wait Handle_timer, Async_read] c))
      else Inr (hs, c))"

definition https_handle_write_complete ::
  "('os, 'p) libs \<Rightarrow> error_code \<Rightarrow> ('os, 'p) async_conn \<Rightarrow> ('os, 'p) async_conn" where
  "https_handle_write_complete L e c =
     (if e = Operation_aborted then c
      else if e = Success then
        (let c = c\<lparr>c_reply := reply_reset L (c_reply c)\<rparr>
         in issue [Timer_cancel, Timer_expires 5, Timer_wait Handle_timer, Async_read] c)
      else c)"

text \<open>\<^verbatim>\<open>handle_shutdown\<close> does nothing whatever the error code.\<close>

definition https_handle_shutdown :: "error_code \<Rightarrow> ('os, 'p) async_conn \<Rightarrow> ('os, 'p) async_conn" where
  "https_handle_shutdown e c = c"

definition https_handle_timer :: "error_code \<Rightarrow> ('os, 'p) async_conn \<Rightarrow> ('os, 'p) async_conn" where
  "https_handle_timer e c =
     (if e = Operation_aborted then c
      else if e = Success then issue [Async_shutdown] c
      else c)"

definition https_handle_async_call ::
  "('os, 'p) libs \<Rightarrow> log_env \<Rightarrow> error_code \<Rightarrow> ('os, 'p) async_conn \<Rightarrow> ('os, 'p) async_conn res" where
  "https_handle_async_call L E e c =
     (if e = Operation_aborted then https_send_reply L E c
      else if e = Success then Inr (issue [Async_shutdown] c)
      else Inr c)"

text \<open>Which handler each completion runs; the class posts nothing to the \<^verbatim>\<open>io_service\<close>.\<close>

fun https_handlers :: "('os, 'p) libs \<Rightarrow> ('os, 'p) handlers" where
  "https_handlers L (Handshake_done e) (hs, c) = Inr (hs, https_handle_handshake e c)"
| "https_handlers L (Shutdown_done e) (hs, c) = Inr (hs, https_handle_shutdown e c)"
| "https_handlers L (Read_done E E' e buf) s = https_handle_read L E E' e buf s"
| "https_handlers L (Write_done E e) (hs, c) = Inr (hs, https_handle_write_complete L e c)"
| "https_handlers L (Wait_done Handle_timer E e) (hs, c) = Inr (hs, https_handle_timer e c)"
| "https_handlers L (Wait_done Handle_async_call E e) (hs, c) =
     map_sum id (Pair hs) (https_handle_async_call L E e c)"
| "https_handlers L (Post_done E) s = Inl Assertion"
| "https_handlers L (Notify E) (hs, c) = Inr (hs, https_notify_async_reply_done L E c)"

definition https_initial ::
  "('os, 'p) libs \<Rightarrow> ('os, 'p) conn_server \<Rightarrow> string \<Rightarrow> char list \<Rightarrow> char list \<Rightarrow>
   ('os, 'p) session \<times> pending" where
  "https_initial L hs tag key value =
     (let c = https_start (async_conn_new L tag key value)
      in ((hs, c), settle c c no_pending))"

section \<open>Without asynchronous replies\<close>

lemma https_send_reply_http: "https_send_reply = http_send_reply"
  by (simp add: fun_eq_iff https_send_reply_def http_send_reply_def)

text \<open>The registered handlers answer at once: they touch neither Asio nor the waiting flag.\<close>

definition prompt_handler :: "('os, 'p) async_conn handler_data \<Rightarrow> bool" where
  "prompt_handler h \<longleftrightarrow> (\<forall>ps c c'. handler h ps c = Inr c' \<longrightarrow>
     io c' = io c \<and> waiting_for_async_reply c' = waiting_for_async_reply c)"

definition prompt_server :: "('os, 'p) conn_server \<Rightarrow> bool" where
  "prompt_server hs \<longleftrightarrow> (\<forall>h \<in> set hs. prompt_handler h)"

lemma handler_call_prompt:
  assumes "handler_call h ps c = Inr (h', c')" and "prompt_handler h"
  shows "prompt_handler h' \<and> io c' = io c \<and> waiting_for_async_reply c' = waiting_for_async_reply c"
proof -
  from assms(1) have h': "handler h' = handler h"
    and c': "handler (h\<lparr>nr_of_requests := nr_of_requests h + 1\<rparr>) ps c = Inr c'"
    by (auto simp: handler_call_def Let_def)
  from c' have "handler h ps c = Inr c'" by simp
  with assms(2) show ?thesis by (auto simp: prompt_handler_def h')
qed

lemma conn_handle_request_prompt:
  assumes "conn_handle_request L hs c = Inr (hs', c')" and "prompt_server hs"
  shows "prompt_server hs' \<and> io c' = io c \<and> waiting_for_async_reply c' = waiting_for_async_reply c"
proof -
  let ?ps = "lib_split L (conn_url c)"
  note run = assms(1) [unfolded conn_handle_request_def handle_request_def]
  show ?thesis
  proof (cases rule: hd.dispatch_cases [of hs ?ps])
    case (hit as h bs)
    with run obtain h' where call: "handler_call h ?ps c = Inr (h', c')" and hs': "hs' = as @ h' # bs"
      by (auto simp: hd.dispatch_hit)
    from assms(2) hit(1) have "prompt_handler h" by (simp add: prompt_server_def)
    with handler_call_prompt [OF call] hs' assms(2) hit(1) show ?thesis
      by (auto simp: prompt_server_def)
  next
    case miss
    with run assms(2) show ?thesis
      by (auto simp: hd.dispatch_miss dest: conn_create_io)
  qed
qed

lemma force_request_uuid_frame [simp]:
  "io (force_request_uuid L rnd c) = io c"
  "waiting_for_async_reply (force_request_uuid L rnd c) = waiting_for_async_reply c"
  by (simp_all add: force_request_uuid_def)

lemma https_handle_read_io:
  assumes "https_handle_read L E1 E2 e buf (hs, c) = Inr (hs', c')"
    and "prompt_server hs" and "\<not> waiting_for_async_reply c"
  shows "prompt_server hs' \<and> \<not> waiting_for_async_reply c'
    \<and> (io c' = io c \<or> (\<exists>bufs. io c' = io c @ [Async_write bufs])
       \<or> io c' = io c @ [Timer_expires 5, Timer_wait Handle_timer, Async_read])"
proof (cases "e = Success")
  case True
  with assms(1) obtain n c1 where parse: "http_parse L buf c = Inr (n, c1)"
    unfolding https_handle_read_def by auto
  have c1: "io c1 = io c" "\<not> waiting_for_async_reply c1"
    using http_parse_io [OF parse] http_parse_waiting [OF parse] assms(3) by simp_all
  consider (bad) "n \<noteq> length buf" | (incomplete) "n = length buf" "\<not> c_request_complete c1"
    | (complete) "n = length buf" "c_request_complete c1" by blast
  then show ?thesis
  proof cases
    case bad
    with assms(1) True parse obtain c2 where "conn_create L bad_request c1 = Inr c2"
      "https_send_reply L E2 c2 = Inr c'" "hs' = hs"
      unfolding https_handle_read_def by auto
    with c1 assms(2) show ?thesis
      using conn_create_io [of L bad_request c1 c2] http_send_reply_io [of L E2 c2 c'] by (auto simp: https_send_reply_http)
  next
    case incomplete
    with assms(1,2) True parse c1 show ?thesis unfolding https_handle_read_def by auto
  next
    case complete
    with assms(1) True parse obtain c2 hs1 c3
      where log: "log_request_begin L E1 (force_request_uuid L (log_rnd E1) c1) = Inr c2"
        and run: "conn_handle_request L hs c2 = Inr (hs1, c3)"
      unfolding https_handle_read_def by (auto simp: Let_def)
    have c2: "io c2 = io c" "\<not> waiting_for_async_reply c2"
      using log_request_begin_cases [OF log] c1 by auto
    with conn_handle_request_prompt [OF run assms(2)]
    have c3: "prompt_server hs1" "io c3 = io c" "\<not> waiting_for_async_reply c3" by auto
    with assms(1) True parse complete log run have "https_send_reply L E2 c3 = Inr c'" "hs' = hs1"
      unfolding https_handle_read_def by (auto simp: Let_def)
    with c3 show ?thesis
      using http_send_reply_io [of L E2 c3 c'] by (auto simp: https_send_reply_http)
  qed
next
  case False
  with assms show ?thesis by (cases e) (auto simp: https_handle_read_def)
qed

text \<open>So without asynchronous replies the TLS connection keeps the discipline of the plain one.\<close>

interpretation https: serial_handlers "https_handlers L" prompt_server False for L
proof (unfold_locales, goal_cases)
  case (1 hs c e hs' c')
  then show ?case by (auto simp: https_handle_handshake_def split: if_splits)
next
  case (2 hs c e hs' c')
  then show ?case by (auto simp: https_handle_shutdown_def)
next
  case (3 hs c E E' e buf hs' c')
  then show ?case using https_handle_read_io [of L E E' e buf hs c hs' c'] by auto
next
  case (4 hs c E e hs' c')
  then show ?case by (auto simp: https_handle_write_complete_def Let_def split: if_splits)
next
  case (5 hs c h E e hs' c')
  then show ?case by (auto simp: https_handle_timer_def split: if_splits)
next
  case (6 hs c E hs' c')
  then show ?case by simp
next
  case (7 hs c E hs' c')
  then show ?case by simp
qed

section \<open>Properties\<close>

lemma https_initial_inv: "prompt_server hs \<Longrightarrow> https.serial_inv (https_initial L hs tag key value)"
  by (simp add: https_initial_def https_start_def async_conn_new_def connection_new_def
      connection.defs async_conn.defs issue_def Let_def https.serial_inv_def settle_tokens owed_posts_settle)
    (simp add: no_pending_def tokens_def settle_def)

lemma https_reachable_inv:
  "reachable (https_handlers L) (https_initial L hs tag key value) s \<Longrightarrow> prompt_server hs \<Longrightarrow> https.serial_inv s"
  using https.reachable_inv https_initial_inv by blast

text \<open>
  C29. A TLS connection whose handlers answer at once never has more than one handshake,
  read or write outstanding together, no posted completion and no promised reply; it never waits
  for an asynchronous reply, and its reply changes during a write only when that write
  completes. Shutdowns are not counted: the timer starts one whatever is outstanding, so a
  shutdown can run beside a read, as it does in the witness.
\<close>

theorem https_prompt_one_at_a_time:
  assumes "prompt_server hs0"
    and "reachable (https_handlers L) (https_initial L hs0 tag key value) ((hs, c), p)"
  shows "handshakes p + reads p + writes p \<le> 1 \<and> owed p = 0 \<and> posts p = 0
    \<and> \<not> waiting_for_async_reply c
    \<and> (\<forall>hs' c' p'. writes p > 0 \<and> conn_step (https_handlers L) ((hs, c), p) ((hs', c'), p')
          \<and> c_reply c' \<noteq> c_reply c
        \<longrightarrow> (\<exists>e. c' = https_handle_write_complete L e (c\<lparr>io := []\<rparr>)))"
proof -
  have inv: "https.serial_inv ((hs, c), p)" using https_reachable_inv [OF assms(2,1)] .
  then have "handshakes p + reads p + writes p \<le> 1 \<and> owed p = 0 \<and> posts p = 0
    \<and> \<not> waiting_for_async_reply c"
    by (simp add: https.serial_inv_def tokens_def)
  moreover have "\<exists>e. c' = https_handle_write_complete L e (c\<lparr>io := []\<rparr>)"
    if "writes p > 0" "conn_step (https_handlers L) ((hs, c), p) ((hs', c'), p')" "c_reply c' \<noteq> c_reply c"
    for hs' c' p'
    using https.reply_stable_while_writing [OF inv that] by auto
  ultimately show ?thesis by blast
qed

theorem https_prompt_one_at_a_time_witness:
  "let L = ref_libs [([], 1)]; s0 = https_initial L [] ''request_id''
     (replicate MAX_HEADER_SIZE NUL) (replicate MAX_HEADER_SIZE NUL) in
   \<exists>hs c p. reachable (https_handlers L) s0 ((hs, c), p) \<and> reads p = 1 \<and> shutdowns p = 1
     \<and> handshakes p + reads p + writes p \<le> 1 \<and> owed p = 0 \<and> posts p = 0"
proof -
  define L where "L = ref_libs [([], 1)]"
  define s0 where "s0 = https_initial L [] ''request_id''
     (replicate MAX_HEADER_SIZE NUL) (replicate MAX_HEADER_SIZE NUL)"
  define c0 where "c0 = snd (fst s0)"
  define p0 where "p0 = snd s0"
  have s0: "s0 = (([], c0), p0)" by (simp add: c0_def p0_def s0_def https_initial_def Let_def)
  have p0: "p0 = no_pending\<lparr>handshakes := 1\<rparr>" "c_parser c0 = [([], 1)]" "\<not> c_request_complete c0"
    "\<not> waiting_for_async_reply c0"
    by (simp_all add: c0_def p0_def s0_def https_initial_def Let_def https_start_def async_conn_new_def
        connection_new_def connection.defs async_conn.defs issue_def settle_def no_pending_def L_def)
  define c1 where "c1 = https_handle_handshake Success (c0\<lparr>io := []\<rparr>)"
  have step1: "conn_step (https_handlers L) (([], c0), p0) (([], c1), settle c0 c1 (p0\<lparr>handshakes := handshakes p0 - 1\<rparr>))"
    unfolding c1_def using p0 by (intro conn_step.handshake [where e = Success]) auto
  have c1: "settle c0 c1 (p0\<lparr>handshakes := handshakes p0 - 1\<rparr>) = no_pending\<lparr>reads := 1\<rparr>"
    "c_parser c1 = [([], 1)]" "\<not> c_request_complete c1" "\<not> waiting_for_async_reply c1"
    using p0 by (simp_all add: c1_def https_handle_handshake_def settle_def Let_def no_pending_def)
  have run1: "reachable (https_handlers L) s0 (([], c1), no_pending\<lparr>reads := 1\<rparr>)"
    unfolding s0 by (rule reachable.step [OF reachable.init step1 [unfolded c1(1)]])
  define c2 where "c2 = issue [Timer_expires 5, Timer_wait Handle_timer, Async_read] (c1\<lparr>io := [], c_parser := []\<rparr>)"
  have read: "https_handlers L (Read_done peer_env peer_env Success ''x'') ([], c1\<lparr>io := []\<rparr>) = Inr ([], c2)"
    using c1(2,3) by (simp add: https_handle_read_def http_parse_def c2_def L_def)
  define p2 where "p2 = no_pending\<lparr>reads := 1, waits := [(Handle_timer, False)]\<rparr>"
  have step2: "conn_step (https_handlers L) (([], c1), no_pending\<lparr>reads := 1\<rparr>)
      (([], c2), settle c1 c2 (no_pending\<lparr>reads := 1\<rparr>\<lparr>reads := reads (no_pending\<lparr>reads := 1\<rparr>) - 1\<rparr>))"
    by (rule conn_step.read [where E = peer_env and E' = peer_env and e = Success and buf = "''x''"]) (use read in simp_all)
  have p2: "settle c1 c2 (no_pending\<lparr>reads := 1\<rparr>\<lparr>reads := reads (no_pending\<lparr>reads := 1\<rparr>) - 1\<rparr>) = p2"
    using c1(4) by (simp add: c2_def settle_def Let_def no_pending_def p2_def issue_def)
  have run2: "reachable (https_handlers L) s0 (([], c2), p2)"
    by (rule reachable.step [OF run1 step2 [unfolded p2]])
  define c3 where "c3 = https_handle_timer Success (c2\<lparr>io := []\<rparr>)"
  have step3: "conn_step (https_handlers L) (([], c2), p2) (([], c3), settle c2 c3 (p2\<lparr>waits := [] @ []\<rparr>))"
    by (rule conn_step.wait [where h = Handle_timer and x = False and E = peer_env and e = Success])
      (simp_all add: p2_def c3_def)
  have p3: "settle c2 c3 (p2\<lparr>waits := [] @ []\<rparr>) = no_pending\<lparr>reads := 1, shutdowns := 1\<rparr>"
    by (simp add: c3_def https_handle_timer_def settle_def Let_def no_pending_def p2_def issue_def)
  have run: "reachable (https_handlers L) s0 (([], c3), no_pending\<lparr>reads := 1, shutdowns := 1\<rparr>)"
    by (rule reachable.step [OF run2 step3 [unfolded p3]])
  have "prompt_server []" by (simp add: prompt_server_def)
  from https_prompt_one_at_a_time [OF this run [unfolded s0_def]] run show ?thesis
    unfolding Let_def s0_def [symmetric] L_def [symmetric] by (intro exI conjI) (assumption, simp_all)
qed

section \<open>A request on the TLS connection\<close>

lemma request_uuid_only_id:
  "(snd (request_uuid L rnd h r))\<lparr>r_id := [], r_uuid := 0\<rparr> = r\<lparr>r_id := [], r_uuid := 0\<rparr>"
  by (auto simp: request_uuid_def Let_def split: option.split)

lemma https_request_reaches_server:
  assumes "text_law L" and "conn_ok L c" and "\<not> waiting_for_async_reply c" and "io c = []"
    and "acceptable L u uf fs" and "m < 26" and "log_peer E1 \<noteq> None"
    and "lib_execute L (c_parser c) buf = calls (request_events u fs n m bs k) (length buf, prs)"
  obtains c2 where "\<And>hs. https_handle_read L E1 E2 Success buf (hs, c) =
      bindE (conn_handle_request L hs c2) (\<lambda>(hs, c).
        if waiting_for_async_reply c then
          Inr (hs, issue [Timer_expires 3605, Timer_wait Handle_timer] c)
        else bindE (http_send_reply L E2 c) (\<lambda>c. Inr (hs, c)))"
    "(c_request c2)\<lparr>r_id := [], r_uuid := 0\<rparr> = received L u uf fs n m bs"
    "c_reply c2 = reply_reset L (c_reply c)" "c_keep_alive c2 = (k \<noteq> 0)"
    "\<not> waiting_for_async_reply c2" "io c2 = []"
    "conn_url c2 = component u (uf_path uf)" "r_method (c_request c2) = Some (method_of_code m)"
proof -
  obtain c0 where c0: "http_parse L buf c = Inr (length buf, c0)"
    "c_request c0 = received L u uf fs n m bs" "c_reply c0 = reply_reset L (c_reply c)"
    "c_request_complete c0" "c_keep_alive c0 = (k \<noteq> 0)" "\<not> waiting_for_async_reply c0" "io c0 = []"
    by (rule request_parsed [OF assms(1,2,5,8)]) (use assms(3,4) in auto)
  define c1 where "c1 = force_request_uuid L (log_rnd E1) c0"
  have c1: "(c_request c1)\<lparr>r_id := [], r_uuid := 0\<rparr> = received L u uf fs n m bs"
    "c_reply c1 = reply_reset L (c_reply c)" "c_keep_alive c1 = (k \<noteq> 0)"
    "\<not> waiting_for_async_reply c1" "io c1 = []" "conn_url c1 = component u (uf_path uf)"
    "r_method (c_request c1) = Some (method_of_code m)"
    using c0 by (simp_all add: c1_def force_request_uuid_def request_uuid_only_id conn_url_def)
  have "loggable E1 c1" using c1(7) assms(6,7) by (simp add: loggable_def method_code_of_code)
  then obtain c2 where log: "log_request_begin L E1 c1 = Inr c2" and c2: "c2 = c1 \<or> c2 = touch_request_id L E1 c1"
    by (rule log_request_begin_loggable)
  have "(c_request c2)\<lparr>r_id := [], r_uuid := 0\<rparr> = received L u uf fs n m bs"
    using c2 c1(1) by (auto simp: touch_request_id_def request_id_only_id)
  moreover have "c_reply c2 = reply_reset L (c_reply c)" "c_keep_alive c2 = (k \<noteq> 0)"
    "\<not> waiting_for_async_reply c2" "io c2 = []" "conn_url c2 = component u (uf_path uf)"
    "r_method (c_request c2) = Some (method_of_code m)"
    using c2 c1 by (auto simp: conn_url_def)
  ultimately show ?thesis
    using c0(1,4) log by (intro that [of c2]) (simp_all add: https_handle_read_def c1_def https_send_reply_http cong: if_cong)
qed

text \<open>
  The counterpart of \<open>http_exchange\<close> on the TLS connection, which starts the write without
  stopping the timer of the read and has given the request a uuid first. That both connections
  send the same bytes is \<open>tls_sends_the_same_bytes\<close> of theory \<open>Both_Sessions\<close>.
\<close>

theorem https_exchange:
  assumes "text_law L" and "avro_law L" and "split_law (lib_split L)"
    and "conn_ok L c" and "\<not> waiting_for_async_reply c" and "io c = []"
    and "acceptable L u uf fs" and "m < 26" and "log_peer E1 \<noteq> None" and "log_peer E2 \<noteq> None"
    and "lib_execute L (c_parser c) buf = calls (request_events u fs n m bs k) (length buf, prs)"
    and "ps = lib_split L (component u (uf_path uf))"
    and "\<forall>a \<in> set as. \<not> serves a ps" and "uri_matches (lib_split L pat) ps"
    and "\<forall>r. CR \<notin> set (fst (snd (g ps r)))"
  shows "\<exists>c' bufs r s ct b.
      https_handle_read L E1 E2 Success buf
          (as @ handler_data_new (lib_split L) pat (respond L g) cnt # hs, c)
        = Inr (as @ handler_data_new (lib_split L) pat (respond L g) (cnt + 1) # hs, c')
      \<and> io c' = [Async_write bufs]
      \<and> r\<lparr>r_id := [], r_uuid := 0\<rparr> = received L u uf fs n m bs \<and> g ps r = (s, ct, b)
      \<and> read_reply (concat bufs)
          = Some (status_text s, content_headers ct (length b) @ closing_headers (k \<noteq> 0), b)"
proof -
  obtain c2 where c2: "\<And>hs. https_handle_read L E1 E2 Success buf (hs, c) =
      bindE (conn_handle_request L hs c2) (\<lambda>(hs, c).
        if waiting_for_async_reply c then
          Inr (hs, issue [Timer_expires 3605, Timer_wait Handle_timer] c)
        else bindE (http_send_reply L E2 c) (\<lambda>c. Inr (hs, c)))"
    "(c_request c2)\<lparr>r_id := [], r_uuid := 0\<rparr> = received L u uf fs n m bs"
    "c_reply c2 = reply_reset L (c_reply c)" "c_keep_alive c2 = (k \<noteq> 0)"
    "\<not> waiting_for_async_reply c2" "io c2 = []"
    "conn_url c2 = component u (uf_path uf)" "r_method (c_request c2) = Some (method_of_code m)"
    using https_request_reaches_server [OF assms(1,4-9,11), of E2 thesis] by blast
  have "loggable E2 c2"
    using c2(8) assms(8,10) by (simp add: loggable_def method_code_of_code)
  moreover have ps: "lib_split L (conn_url c2) = ps" using assms(12) c2(7) by simp
  ultimately obtain c' bufs s ct b where run: "bindE (conn_handle_request L
        (as @ handler_data_new (lib_split L) pat (respond L g) cnt # hs) c2) (\<lambda>(hs, c).
          if waiting_for_async_reply c then
            Inr (hs, issue [Timer_expires 3605, Timer_wait Handle_timer] c)
          else bindE (http_send_reply L E2 c) (\<lambda>c. Inr (hs, c)))
      = Inr (as @ handler_data_new (lib_split L) pat (respond L g) (cnt + 1) # hs, c')"
    and wire: "io c' = io c2 @ [Async_write bufs]" "g ps (c_request c2) = (s, ct, b)"
    "read_reply (concat bufs)
       = Some (status_text s, content_headers ct (length b) @ closing_headers (c_keep_alive c2), b)"
    using served_at_once [of L E2 c2 "c_reply c" as pat g cnt hs, unfolded ps] assms(2,3,13-15) c2(3,5)
    by blast
  from run have "https_handle_read L E1 E2 Success buf
      (as @ handler_data_new (lib_split L) pat (respond L g) cnt # hs, c)
        = Inr (as @ handler_data_new (lib_split L) pat (respond L g) (cnt + 1) # hs, c')"
    by (simp only: c2(1))
  then show ?thesis using c2(2,4,6) wire by auto
qed

theorem https_exchange_witness:
  "let L = ref_libs [(request_events ''/a'' [] 0 1 [] 0, 2)];
       g = (\<lambda>ps r. (created, ''text/plain'', r_url r))
   in \<exists>c' bufs. https_handle_read L peer_env peer_env Success ''..''
          ([handler_data_new split_slash ''#'' (respond L g) 4], fresh_conn L)
        = Inr ([handler_data_new split_slash ''#'' (respond L g) 5], c')
      \<and> io c' = [Async_write bufs]
      \<and> read_reply (concat bufs) = Some (status_text created,
          content_headers ''text/plain'' 2 @ [\<lparr>name = ''Connection'', val = ''close''\<rparr>], ''/a'')"
proof -
  define L where "L = ref_libs [(request_events ''/a'' [] 0 1 [] 0, 2)]"
  define g where "g = (\<lambda>(ps :: string list) (r :: string request_t). (created, ''text/plain'', r_url r))"
  let ?uf = "\<lparr>uf_path = Some (0, 2), uf_query = None\<rparr>"
  have fits: "acceptable L ''/a'' ?uf []" by (simp add: acceptable_def L_def in_range_def)
  have exec: "lib_execute L (c_parser (fresh_conn L)) ''..''
      = calls (request_events ''/a'' [] 0 1 [] 0) (length ''..'', [])"
    by (simp add: L_def numeral_2_eq_2)
  have laws: "text_law L" "avro_law L" "split_law (lib_split L)" by (simp_all add: L_def split_law_split_slash)
  have peer: "log_peer peer_env \<noteq> None" by (simp add: peer_env_def)
  have path: "[[], ''a''] = lib_split L (component ''/a'' (uf_path ?uf))" by (simp add: L_def component_def)
  have match: "uri_matches (lib_split L ''#'') [[], ''a'']" by (simp add: L_def uri_matches_Cons)
  have type: "\<forall>r. CR \<notin> set (fst (snd (g [[], ''a''] r)))" by (simp add: g_def CR_def)
  obtain c' bufs r s ct b where run: "https_handle_read L peer_env peer_env Success ''..''
          ([] @ handler_data_new (lib_split L) ''#'' (respond L g) 4 # [], fresh_conn L)
        = Inr ([] @ handler_data_new (lib_split L) ''#'' (respond L g) (4 + 1) # [], c')"
      "io c' = [Async_write bufs]"
      "r\<lparr>r_id := [], r_uuid := 0\<rparr> = received L ''/a'' ?uf [] 0 1 []"
      "g [[], ''a''] r = (s, ct, b)"
      "read_reply (concat bufs) = Some (status_text s, content_headers ct (length b) @ closing_headers ((0::int) \<noteq> 0), b)"
    using https_exchange [of L "fresh_conn L" "''/a''" ?uf "[]" 1 peer_env peer_env "''..''" 0
        "[]" 0 "[]" "[[], ''a'']" "[]" "''#''" g 4 "[]"]
      laws fits peer exec path match type
    by simp blast
  have "r_url r = ''/a''"
    using arg_cong [OF run(3), of r_url] by (simp add: component_def)
  then have "s = created" "ct = ''text/plain''" "b = ''/a''"
    using run(4) by (auto simp: g_def)
  with run(1,2,5) have "\<exists>c' bufs. https_handle_read L peer_env peer_env Success ''..''
          ([handler_data_new split_slash ''#'' (respond L g) 4], fresh_conn L)
        = Inr ([handler_data_new split_slash ''#'' (respond L g) 5], c')
      \<and> io c' = [Async_write bufs]
      \<and> read_reply (concat bufs) = Some (status_text created,
          content_headers ''text/plain'' 2 @ [\<lparr>name = ''Connection'', val = ''close''\<rparr>], ''/a'')"
    by (intro exI [of _ c'] exI [of _ bufs]) (simp add: closing_headers_def L_def eval_nat_numeral)
  then show ?thesis by (simp only: Let_def g_def L_def)
qed

text \<open>What an aborted call sends when the reply was only reset.\<close>

lemma async_call_aborted:
  assumes "avro_law L" and "loggable E c" and "c_reply c = reply_reset L r" and "io c = []"
  shows "case p_status r of
      None \<Rightarrow> https_handle_async_call L E Operation_aborted c = Inl Uninitialised
    | Some s \<Rightarrow> \<exists>c' bufs. https_handle_async_call L E Operation_aborted c = Inr c'
        \<and> io c' = [Async_write bufs] \<and> \<not> waiting_for_async_reply c'
        \<and> read_reply (concat bufs) = Some (status_text s, closing_headers (c_keep_alive c), [])"
proof (cases "p_status r")
  case None
  have "http_send_reply L E c = Inl Uninitialised"
  proof (cases "log_info E")
    case True
    with assms(2) obtain ep m where "log_peer E = Some ep" "r_method (c_request c) = Some m"
      "method_code m < length method_strings"
      by (auto simp: loggable_def)
    with True log_method_ok [of "touch_request_id L E c" m] have "log_request_end L E c = Inl Uninitialised"
      by (auto simp: log_request_end_def log_endpoint_def reply_status_def assms(3) reply_reset_def None)
    then show ?thesis by (simp add: http_send_reply_def)
  next
    case False
    then have "log_request_end L E c = Inr c" by (simp add: log_request_end_def)
    then show ?thesis
      by (simp add: http_send_reply_eq to_buffers_def reply_status_def reply_ready_def assms(3)
          reply_reset_def reply_add_def None)
  qed
  then show ?thesis by (simp add: https_handle_async_call_def https_send_reply_http None)
next
  case (Some s)
  have r: "p_avro_tx (c_reply c) = Some (lib_os_new L)" "p_status (c_reply c) = Some s"
    "\<forall>h \<in> set (p_headers (c_reply c)). wf_header h"
    by (simp_all add: assms(3) reply_reset_def Some)
  obtain c' bufs where c': "http_send_reply L E c = Inr c'" "io c' = io c @ [Async_write bufs]"
    "read_reply (concat bufs) = Some (status_text s,
       p_headers (c_reply c) @ closing_headers (c_keep_alive c), os_content L (lib_os_new L))"
    using http_send_reply_wire [OF assms(1,2) r, of thesis] by blast
  with assms(1,3,4) http_send_reply_io(2) [OF c'(1)] show ?thesis
    by (simp add: https_handle_async_call_def https_send_reply_http Some avro_lawD reply_reset_def)
qed

text \<open>A handler that asks for an asynchronous reply, whatever else it looks at before it does.\<close>

lemma https_deferred_aborted:
  assumes "text_law L" and "avro_law L" and "split_law (lib_split L)"
    and "conn_ok L c" and "\<not> waiting_for_async_reply c" and "io c = []"
    and "acceptable L u uf fs" and "m < 26" and "log_peer E1 \<noteq> None" and "log_peer E2 \<noteq> None"
    and "lib_execute L (c_parser c) buf = calls (request_events u fs n m bs k) (length buf, prs)"
    and "uri_matches (lib_split L pat) (lib_split L (component u (uf_path uf)))"
    and f: "\<And>ps d. (c_request d)\<lparr>r_id := [], r_uuid := 0\<rparr> = received L u uf fs n m bs \<Longrightarrow>
              r_method (c_request d) = Some (method_of_code m) \<Longrightarrow> f ps d = Inr (https_wait_for_async_reply d)"
  shows "\<exists>c1.
      https_handle_read L E1 E2 Success buf ([handler_data_new (lib_split L) pat f cnt], c)
        = Inr ([handler_data_new (lib_split L) pat f (cnt + 1)], c1)
      \<and> waiting_for_async_reply c1
      \<and> (Handle_async_call, True) \<in> set (waits (settle c c1 p)) \<and> owed (settle c c1 p) = owed p + 1
      \<and> (case p_status (c_reply c) of
           None \<Rightarrow> https_handle_async_call L E2 Operation_aborted (c1\<lparr>io := []\<rparr>) = Inl Uninitialised
         | Some s \<Rightarrow> \<exists>c2 bufs. https_handle_async_call L E2 Operation_aborted (c1\<lparr>io := []\<rparr>) = Inr c2
                     \<and> io c2 = [Async_write bufs] \<and> \<not> waiting_for_async_reply c2
                     \<and> read_reply (concat bufs) = Some (status_text s, closing_headers (k \<noteq> 0), []))"
proof -
  let ?hs = "\<lambda>n. [handler_data_new (lib_split L) pat f n]"
  obtain c0 where c0: "\<And>hs. https_handle_read L E1 E2 Success buf (hs, c) =
      bindE (conn_handle_request L hs c0) (\<lambda>(hs, c).
        if waiting_for_async_reply c then
          Inr (hs, issue [Timer_expires 3605, Timer_wait Handle_timer] c)
        else bindE (http_send_reply L E2 c) (\<lambda>c. Inr (hs, c)))"
    "c_reply c0 = reply_reset L (c_reply c)" "c_keep_alive c0 = (k \<noteq> 0)" "io c0 = []"
    "conn_url c0 = component u (uf_path uf)" "r_method (c_request c0) = Some (method_of_code m)"
    "(c_request c0)\<lparr>r_id := [], r_uuid := 0\<rparr> = received L u uf fs n m bs"
    using https_request_reaches_server [OF assms(1,4-9,11), of E2 thesis] by blast
  have "conn_handle_request L (?hs cnt) c0 = Inr (?hs (cnt + 1), https_wait_for_async_reply c0)"
    using conn_handle_request_hit [of "[]" L c0 pat f cnt "[]"] f [OF c0(7,6)] assms(3,12) c0(5) by simp
  then obtain c1 where c1: "https_handle_read L E1 E2 Success buf (?hs cnt, c) = Inr (?hs (cnt + 1), c1)"
    "c1 = issue [Timer_expires 3605, Timer_wait Handle_timer] (https_wait_for_async_reply c0)"
    by (simp add: c0(1) https_wait_for_async_reply_def Let_def)
  let ?c = "c1\<lparr>io := []\<rparr>"
  have c1': "waiting_for_async_reply c1" "c_reply ?c = reply_reset L (c_reply c)"
    "c_keep_alive ?c = (k \<noteq> 0)" "r_method (c_request ?c) = Some (method_of_code m)"
    "io c1 = [Timer_expires 3660, Timer_wait Handle_async_call, Timer_expires 3605, Timer_wait Handle_timer]"
    using c0(2-4,6) c1(2) by (simp_all add: https_wait_for_async_reply_def Let_def)
  have log: "loggable E2 ?c"
    using c1'(4) assms(8,10) by (simp add: loggable_def method_code_of_code)
  have "(Handle_async_call, True) \<in> set (waits (settle c c1 p))" "owed (settle c c1 p) = owed p + 1"
    using c1'(1,5) assms(5) by (simp_all add: settle_def Let_def)
  moreover have "case p_status (c_reply c) of
           None \<Rightarrow> https_handle_async_call L E2 Operation_aborted ?c = Inl Uninitialised
         | Some s \<Rightarrow> \<exists>c2 bufs. https_handle_async_call L E2 Operation_aborted ?c = Inr c2
                     \<and> io c2 = [Async_write bufs] \<and> \<not> waiting_for_async_reply c2
                     \<and> read_reply (concat bufs) = Some (status_text s, closing_headers (k \<noteq> 0), [])"
    using async_call_aborted [OF assms(2) log c1'(2), unfolded c1'(3)] by simp
  ultimately show ?thesis using c1(1) c1'(1) by (intro exI [of _ c1]) simp
qed

text \<open>
  C31. An asynchronous reply on the TLS connection goes out before its owner has given
  it. \<^verbatim>\<open>wait_for_async_reply\<close> waits with \<^verbatim>\<open>handle_async_call\<close>; \<^verbatim>\<open>handle_read\<close> then sets the
  timer anew, which aborts that wait; and \<^verbatim>\<open>handle_async_call\<close> takes the abortion for the
  reply. What it sends has no content and no content headers, under the status of the
  previous reply on the connection; on the first request it reads a status nothing has
  written.
\<close>

theorem https_premature_reply:
  assumes "text_law L" and "avro_law L" and "split_law (lib_split L)"
    and "conn_ok L c" and "\<not> waiting_for_async_reply c" and "io c = []"
    and "acceptable L u uf fs" and "m < 26" and "log_peer E1 \<noteq> None" and "log_peer E2 \<noteq> None"
    and "lib_execute L (c_parser c) buf = calls (request_events u fs n m bs k) (length buf, prs)"
    and "uri_matches (lib_split L pat) (lib_split L (component u (uf_path uf)))"
  shows "\<exists>hs' c1.
      https_handle_read L E1 E2 Success buf
          ([handler_data_new (lib_split L) pat (\<lambda>ps c. Inr (https_wait_for_async_reply c)) cnt], c) = Inr (hs', c1)
      \<and> waiting_for_async_reply c1
      \<and> (Handle_async_call, True) \<in> set (waits (settle c c1 p)) \<and> owed (settle c c1 p) = owed p + 1
      \<and> (case p_status (c_reply c) of
           None \<Rightarrow> https_handlers L (Wait_done Handle_async_call E2 Operation_aborted) (hs', c1\<lparr>io := []\<rparr>)
                     = Inl Uninitialised
         | Some s \<Rightarrow> \<exists>c2 bufs. https_handlers L (Wait_done Handle_async_call E2 Operation_aborted) (hs', c1\<lparr>io := []\<rparr>)
                       = Inr (hs', c2) \<and> io c2 = [Async_write bufs] \<and> \<not> waiting_for_async_reply c2
                     \<and> read_reply (concat bufs) = Some (status_text s, closing_headers (k \<noteq> 0), []))"
proof -
  let ?f = "\<lambda>(ps :: string list) c. Inr (https_wait_for_async_reply c)"
  from https_deferred_aborted [OF assms, of ?f cnt p] obtain c1 where
    "https_handle_read L E1 E2 Success buf ([handler_data_new (lib_split L) pat ?f cnt], c)
        = Inr ([handler_data_new (lib_split L) pat ?f (cnt + 1)], c1)"
    "waiting_for_async_reply c1" "(Handle_async_call, True) \<in> set (waits (settle c c1 p))"
    "owed (settle c c1 p) = owed p + 1"
    "case p_status (c_reply c) of
           None \<Rightarrow> https_handle_async_call L E2 Operation_aborted (c1\<lparr>io := []\<rparr>) = Inl Uninitialised
         | Some s \<Rightarrow> \<exists>c2 bufs. https_handle_async_call L E2 Operation_aborted (c1\<lparr>io := []\<rparr>) = Inr c2
                     \<and> io c2 = [Async_write bufs] \<and> \<not> waiting_for_async_reply c2
                     \<and> read_reply (concat bufs) = Some (status_text s, closing_headers (k \<noteq> 0), [])"
    by blast
  then show ?thesis
    by (intro exI [of _ "[handler_data_new (lib_split L) pat ?f (cnt + 1)]"] exI [of _ c1])
      (auto split: option.splits)
qed

theorem https_premature_reply_witness:
  "let L = ref_libs [(request_events ''/a'' [] 0 1 [] 1, 2)];
       c = (fresh_conn L)\<lparr>c_reply := reply_new\<lparr>p_status := Some ok\<rparr>\<rparr>
   in \<exists>hs' c1 c2 bufs.
      https_handle_read L peer_env peer_env Success ''..''
          ([handler_data_new split_slash ''#'' (\<lambda>ps c. Inr (https_wait_for_async_reply c)) 0], c) = Inr (hs', c1)
      \<and> (Handle_async_call, True) \<in> set (waits (settle c c1 no_pending)) \<and> owed (settle c c1 no_pending) = 1
      \<and> https_handlers L (Wait_done Handle_async_call peer_env Operation_aborted) (hs', c1\<lparr>io := []\<rparr>) = Inr (hs', c2)
      \<and> io c2 = [Async_write bufs] \<and> read_reply (concat bufs) = Some (status_text ok, [], [])"
proof -
  define L where "L = ref_libs [(request_events ''/a'' [] 0 1 [] 1, 2)]"
  define c where "c = (fresh_conn L)\<lparr>c_reply := reply_new\<lparr>p_status := Some ok\<rparr>\<rparr>"
  let ?uf = "\<lparr>uf_path = Some (0, 2), uf_query = None\<rparr>"
  have c: "conn_ok L c" "\<not> waiting_for_async_reply c" "io c = []" "p_status (c_reply c) = Some ok"
    using conn_ok_fresh [of L] by (simp_all add: c_def conn_ok_def message_begun_def)
  have fits: "acceptable L ''/a'' ?uf []" by (simp add: acceptable_def L_def in_range_def)
  have exec: "lib_execute L (c_parser c) ''..'' = calls (request_events ''/a'' [] 0 1 [] 1) (length ''..'', [])"
    by (simp add: c_def L_def numeral_2_eq_2)
  have laws: "text_law L" "avro_law L" "split_law (lib_split L)" by (simp_all add: L_def split_law_split_slash)
  have peer: "log_peer peer_env \<noteq> None" by (simp add: peer_env_def)
  have match: "uri_matches (lib_split L ''#'') (lib_split L (component ''/a'' (uf_path ?uf)))"
    by (simp add: L_def component_def uri_matches_Cons)
  have split: "lib_split L = split_slash" by (simp add: L_def)
  show ?thesis
    unfolding Let_def L_def [symmetric] c_def [symmetric]
    using https_premature_reply [OF laws c(1-3) fits _ peer peer exec match, of 0 no_pending] c(4) split
    by (simp add: closing_headers_def no_pending_def) blast
qed

text \<open>
  The TLS connection does not close after a reply that said it would: whether the
  client asked to keep the connection or not, a completed write is followed by the next
  read, with the identification of the request just answered still in place until the
  next message begins.
\<close>

theorem https_reads_after_close:
  assumes "\<not> c_keep_alive c" and "io c = []"
  shows "io (https_handle_write_complete L Success c)
           = [Timer_cancel, Timer_expires 5, Timer_wait Handle_timer, Async_read]
    \<and> c_request (https_handle_write_complete L Success c) = c_request c
    \<and> io (http_handle_write L Success c) = [Timer_cancel]"
  using assms by (simp add: https_handle_write_complete_def http_handle_write_def Let_def)

theorem https_reads_after_close_witness:
  "io (https_handle_write_complete (ref_libs []) Success (fresh_conn (ref_libs [])))
     = [Timer_cancel, Timer_expires 5, Timer_wait Handle_timer, Async_read]"
  using https_reads_after_close [of "fresh_conn (ref_libs [])" "ref_libs []"] by simp

end
