(* ===== verification/Listener.thy ===== *)
theory Listener
  imports Https_Connection
begin

text \<open>
  The two servers as far as they are not the template of theory \<open>Server\<close>: the constructors of
  \<^verbatim>\<open>http_server\<close> and \<^verbatim>\<open>https_server\<close> and their \<^verbatim>\<open>handle_accept\<close> (\<^verbatim>\<open>server/http_server.cpp\<close>,
  \<^verbatim>\<open>server/https_server.cpp\<close>), and the address argument of the sample servers. The calls
  on resolver and acceptor are a list; each may fail, which is an exception.
\<close>

section \<open>Listening\<close>

datatype endpoint = Resolved string string | Any_v4 int

datatype acceptor_call =
    Resolve string string
  | Open_acceptor
  | Reuse_address
  | Bind endpoint
  | Listen

text \<open>
  What the servers keep: the connection the next client will get, whether an
  \<^verbatim>\<open>async_accept\<close> is pending, and the sessions started so far.
\<close>

record 'c listener =
  new_connection :: 'c
  accepting :: bool
  sessions :: "'c list"

fun do_calls :: "(acceptor_call \<Rightarrow> bool) \<Rightarrow> acceptor_call list \<Rightarrow> unit res" where
  "do_calls fails [] = Inr ()"
| "do_calls fails (a # as) = (if fails a then Inl (Exception ''acceptor'') else do_calls fails as)"

definition listen_calls :: "endpoint \<Rightarrow> acceptor_call list" where
  "listen_calls ep = [Open_acceptor, Reuse_address, Bind ep, Listen]"

text \<open>\<open>mk\<close> makes a connection of the server's class.\<close>

definition listener_new :: "'c \<Rightarrow> 'c listener" where
  "listener_new c = \<lparr>new_connection = c, accepting = True, sessions = []\<rparr>"

definition http_server_new_at :: "(acceptor_call \<Rightarrow> bool) \<Rightarrow> 'c \<Rightarrow> string \<Rightarrow> int \<Rightarrow> 'c listener res" where
  "http_server_new_at fails mk address port =
     bindE (do_calls fails (Resolve address (show_int port) # listen_calls (Resolved address (show_int port))))
       (\<lambda>_. Inr (listener_new mk))"

definition http_server_new_any :: "(acceptor_call \<Rightarrow> bool) \<Rightarrow> 'c \<Rightarrow> int \<Rightarrow> 'c listener res" where
  "http_server_new_any fails mk port =
     bindE (do_calls fails (listen_calls (Any_v4 port))) (\<lambda>_. Inr (listener_new mk))"

definition https_server_new :: "(acceptor_call \<Rightarrow> bool) \<Rightarrow> 'c \<Rightarrow> string \<Rightarrow> int \<Rightarrow> 'c listener res" where
  "https_server_new fails mk address port =
     bindE (do_calls fails (Resolve address (show_int port) # listen_calls (Resolved address (show_int port))))
       (\<lambda>_. Inr (listener_new mk))"

section \<open>Accepting\<close>

text \<open>\<open>start\<close> is the \<^verbatim>\<open>start\<close> of the class; the argument tells whether the accept succeeded.\<close>

definition http_handle_accept :: "('c \<Rightarrow> 'c) \<Rightarrow> 'c \<Rightarrow> bool \<Rightarrow> 'c listener \<Rightarrow> 'c listener" where
  "http_handle_accept start mk success s =
     (if success then
        let s = s\<lparr>sessions := sessions s @ [start (new_connection s)]\<rparr>;
            s = s\<lparr>new_connection := mk\<rparr>
        in s\<lparr>accepting := True\<rparr>
      else s)"

definition https_handle_accept :: "('c \<Rightarrow> 'c) \<Rightarrow> 'c \<Rightarrow> bool \<Rightarrow> 'c listener \<Rightarrow> 'c listener" where
  "https_handle_accept start mk success s =
     (if success then
        let s = s\<lparr>sessions := sessions s @ [start (new_connection s)]\<rparr>;
            s = s\<lparr>new_connection := mk\<rparr>
        in s\<lparr>accepting := True\<rparr>
      else s)"

text \<open>
  The completions the acceptor delivers, one for each accept that is pending: a completion
  takes the pending accept away, and without one nothing is delivered.
\<close>

fun run_accepts :: "(bool \<Rightarrow> 'c listener \<Rightarrow> 'c listener) \<Rightarrow> bool list \<Rightarrow> 'c listener \<Rightarrow> 'c listener" where
  "run_accepts h [] s = s"
| "run_accepts h (b # bs) s = (if accepting s then run_accepts h bs (h b (s\<lparr>accepting := False\<rparr>)) else s)"

locale acceptor =
  fixes handle :: "bool \<Rightarrow> 'c listener \<Rightarrow> 'c listener" and start :: "'c \<Rightarrow> 'c" and mk :: 'c
  assumes accepted: "handle True s = \<lparr>new_connection = mk, accepting = True, sessions = sessions s @ [start (new_connection s)]\<rparr>"
    and failed: "handle False s = s"
begin

lemma deaf: "\<not> accepting s \<Longrightarrow> run_accepts handle bs s = s"
  by (cases bs) simp_all

lemma started:
  "accepting s \<Longrightarrow> new_connection s = mk \<Longrightarrow>
   sessions (run_accepts handle bs s) = sessions s @ replicate (length (takeWhile id bs)) (start mk)
   \<and> (accepting (run_accepts handle bs s) \<longleftrightarrow> list_all id bs)"
proof (induction bs arbitrary: s)
  case Nil
  then show ?case by simp
next
  case (Cons b bs)
  show ?case
  proof (cases b)
    case True
    with Cons show ?thesis by (simp add: accepted)
  next
    case False
    with Cons.prems show ?thesis by (simp add: failed deaf)
  qed
qed

end

interpretation plain: acceptor "http_handle_accept start mk" start mk for start mk
  by unfold_locales (simp_all add: http_handle_accept_def Let_def)

interpretation tls: acceptor "https_handle_accept start mk" start mk for start mk
  by unfold_locales (simp_all add: https_handle_accept_def Let_def)

section \<open>The address argument of the sample servers\<close>

text \<open>The digits \<^verbatim>\<open>atoi\<close> reads, after white space and a sign; values beyond \<^verbatim>\<open>int\<close> are undefined.\<close>

definition c_digits :: "string \<Rightarrow> nat" where
  "c_digits s = (case read_nat (takeWhile (\<lambda>c. digit_value c \<noteq> None) s) of None \<Rightarrow> 0 | Some n \<Rightarrow> n)"

definition c_atoi :: "string \<Rightarrow> int" where
  "c_atoi s =
     (case dropWhile (\<lambda>c. c \<in> set '' '' \<or> c \<in> {CHR 0x09, LF, CHR 0x0B, CHR 0x0C, CR}) s of
        [] \<Rightarrow> 0
      | c # cs \<Rightarrow> if c = CHR ''-'' then - int (c_digits cs)
                  else if c = CHR ''+'' then int (c_digits cs) else int (c_digits (c # cs)))"

text \<open>\<^verbatim>\<open>find_last_of(':')\<close>\<close>

fun last_colon :: "string \<Rightarrow> nat option" where
  "last_colon [] = None"
| "last_colon (c # cs) =
     (case last_colon cs of Some i \<Rightarrow> Some (Suc i) | None \<Rightarrow> if c = CHR '':'' then Some 0 else None)"

definition server_address :: "string option \<Rightarrow> string \<times> int" where
  "server_address arg =
     (let my_address = (case arg of None \<Rightarrow> ''127.0.0.1'' | Some a \<Rightarrow> a) in
      case last_colon my_address of
        None \<Rightarrow> (my_address, 8090)
      | Some i \<Rightarrow> (take i my_address, c_atoi (drop (Suc i) my_address)))"

section \<open>Properties\<close>

text \<open>
  C37. A server that was constructed accepts until the first accept fails: every connection
  before it is started, in order, and none after it, however many clients come. Nothing
  logs or repeats the failed accept, so one failure (no descriptor left, a client that
  reset early) leaves the server deaf.
\<close>

theorem accepts_until_failure:
  assumes "http_server_new_at fails mk address port = Inr s"
  shows "sessions (run_accepts (http_handle_accept start mk) bs s) = replicate (length (takeWhile id bs)) (start mk)
    \<and> (accepting (run_accepts (http_handle_accept start mk) bs s) \<longleftrightarrow> list_all id bs)
    \<and> run_accepts (https_handle_accept start mk) bs s = run_accepts (http_handle_accept start mk) bs s"
proof -
  from assms have s: "accepting s" "new_connection s = mk" "sessions s = []"
    by (auto simp: http_server_new_at_def listener_new_def)
  have "https_handle_accept start mk = http_handle_accept start mk"
    by (intro ext) (simp add: http_handle_accept_def https_handle_accept_def)
  with plain.started [OF s(1,2), of start bs] s(3) show ?thesis by simp
qed

theorem accepts_until_failure_witness:
  "\<exists>s. http_server_new_at (\<lambda>_. False) (fresh_conn (ref_libs [])) ''::'' 80 = Inr s
     \<and> sessions (run_accepts (http_handle_accept http_start (fresh_conn (ref_libs []))) [True, True, False, True] s)
       = replicate 2 (http_start (fresh_conn (ref_libs [])))"
proof -
  obtain s where s: "http_server_new_at (\<lambda>_. False) (fresh_conn (ref_libs [])) ''::'' 80 = Inr s"
    by (simp add: http_server_new_at_def listen_calls_def)
  with accepts_until_failure [OF s, of http_start "[True, True, False, True]"] show ?thesis
    by (simp add: numeral_2_eq_2)
qed

lemma last_colon_append: "CHR '':'' \<notin> set b \<Longrightarrow> last_colon (a @ CHR '':'' # b) = Some (length a)"
proof -
  assume "CHR '':'' \<notin> set b"
  then have "last_colon b = None" by (induction b) auto
  then show ?thesis by (induction a) auto
qed

lemma digits_show_nat: "takeWhile (\<lambda>c. digit_value c \<noteq> None) (show_nat n) = show_nat n"
  using set_show_nat [of n] by (auto simp: takeWhile_eq_all_conv)

lemma c_atoi_show_nat: "c_atoi (show_nat n) = int n"
proof -
  obtain c cs where c: "show_nat n = c # cs" by (cases "show_nat n") auto
  then obtain d where d: "d < 10" "c = digit d" using set_show_nat [of n] by auto
  from less_10_cases [OF d(1)]
  have *: "c \<noteq> CHR ''-''" "c \<noteq> CHR ''+''" "c \<notin> set '' ''" "c \<notin> {CHR 0x09, LF, CHR 0x0B, CHR 0x0C, CR}"
    by (auto simp: d(2) digit_def LF_def CR_def)
  then have "c_atoi (show_nat n) = int (c_digits (show_nat n))" by (simp add: c_atoi_def c)
  then show ?thesis by (simp only: c_digits_def digits_show_nat read_nat_show_nat option.case)
qed

text \<open>
  The sample servers listen where their argument says: an address followed by a colon
  and a port gives that address and that port, colons in the address (as in IPv6) or not;
  without an argument it is port 8090 of 127.0.0.1. An IPv6 address without a port loses
  its last group to the port.
\<close>

theorem address_argument:
  "server_address (Some (a @ '':'' @ show_nat port)) = (a, int port)
   \<and> server_address None = (''127.0.0.1'', 8090)
   \<and> server_address (Some ''fe80::12'') = (''fe80:'', 12)"
proof -
  have "CHR '':'' \<notin> set (show_nat port)" by (rule colon_notin_show_nat)
  then have "server_address (Some (a @ '':'' @ show_nat port)) = (a, int port)"
    by (simp add: server_address_def last_colon_append c_atoi_show_nat)
  moreover have "c_atoi ''12'' = 12"
    by (simp add: c_atoi_def c_digits_def read_nat_def read_digit_def digit_value_def upt_rec LF_def CR_def)
  ultimately show ?thesis by (simp add: server_address_def)
qed

end
