(* ===== verification/Server_Process.thy ===== *)
theory Server_Process
  imports Listener
begin

text \<open>
  A whole server: the listener of theory \<open>Listener\<close>, every connection it has accepted with
  the operations outstanding for it, and the registered handlers, which all connections share
  (\<^verbatim>\<open>http_connection\<close> keeps a pointer to its server). One thread runs the \<^verbatim>\<open>io_service\<close>: it
  takes one completion after the other, of any connection or of the acceptor. A run is
  executable: \<open>run_process\<close> maps the completions that the environment delivers to the state
  they leave, or to the fault or exception that leaves \<^verbatim>\<open>io_service::run\<close>.

  What the connections owe to each other is the locale \<open>isolated\<close>, in the two laws of a
  separation kernel: a handler leaves the registrations alone except for their counters, and
  what it does with its connection does not depend on those counters. So connections do not
  influence each other through the server, until one of them ends the process. Two things are
  taken for granted here: that each accepted connection is an object of its own, which
  \<^verbatim>\<open>handle_accept\<close> sees to by giving \<^verbatim>\<open>_new_connection\<close> a new one before it accepts again, and that the
  registered functions share no state of the application.
\<close>

section \<open>State\<close>

record ('os, 'p) process =
  registered :: "('os, 'p) conn_server"
  front :: "('os, 'p) async_conn listener"
  outstanding :: "pending list"

text \<open>
  What distinguishes the servers: the completion handlers, \<^verbatim>\<open>start\<close> and \<^verbatim>\<open>handle_accept\<close> of
  their classes (the new connection lies on memory that the environment chooses), and what the
  application does when it gives a reply that it has deferred.
\<close>

record ('os, 'p) server_class =
  sc_handlers :: "('os, 'p) handlers"
  sc_accept :: "char list \<Rightarrow> char list \<Rightarrow> bool \<Rightarrow> ('os, 'p) async_conn listener \<Rightarrow> ('os, 'p) async_conn listener"
  sc_service :: "log_env \<Rightarrow> ('os, 'p) async_conn \<Rightarrow> ('os, 'p) async_conn res"

definition http_class ::
  "('os, 'p) libs \<Rightarrow> (log_env \<Rightarrow> ('os, 'p) async_conn \<Rightarrow> ('os, 'p) async_conn res) \<Rightarrow> string \<Rightarrow> ('os, 'p) server_class" where
  "http_class L service tag =
     \<lparr>sc_handlers = http_handlers L,
      sc_accept = (\<lambda>key value. http_handle_accept http_start (async_conn_new L tag key value)),
      sc_service = service\<rparr>"

definition https_class ::
  "('os, 'p) libs \<Rightarrow> (log_env \<Rightarrow> ('os, 'p) async_conn \<Rightarrow> ('os, 'p) async_conn res) \<Rightarrow> string \<Rightarrow> ('os, 'p) server_class" where
  "https_class L service tag =
     \<lparr>sc_handlers = https_handlers L,
      sc_accept = (\<lambda>key value. https_handle_accept https_start (async_conn_new L tag key value)),
      sc_service = service\<rparr>"

section \<open>Steps\<close>

text \<open>
  \<open>Delivered k ev\<close> completes an operation of a connection; \<open>k\<close> says which of its waits, when
  it is one. \<open>Answered E\<close> is the application giving a deferred reply.
\<close>

datatype conn_event = Delivered nat event | Answered log_env

datatype process_event = Accept_done "char list" "char list" bool | On_connection nat conn_event

text \<open>The outstanding operation that an event completes is taken away; \<open>None\<close> when there is none.\<close>

fun take_event :: "conn_event \<Rightarrow> pending \<Rightarrow> pending option" where
  "take_event (Delivered k (Handshake_done e)) p =
     (if handshakes p > 0 then Some (p\<lparr>handshakes := handshakes p - 1\<rparr>) else None)"
| "take_event (Delivered k (Shutdown_done e)) p =
     (if shutdowns p > 0 then Some (p\<lparr>shutdowns := shutdowns p - 1\<rparr>) else None)"
| "take_event (Delivered k (Read_done E E' e buf)) p =
     (if reads p > 0 then Some (p\<lparr>reads := reads p - 1\<rparr>) else None)"
| "take_event (Delivered k (Write_done E e)) p =
     (if writes p > 0 then Some (p\<lparr>writes := writes p - 1\<rparr>) else None)"
| "take_event (Delivered k (Wait_done h E e)) p =
     (if k < length (waits p) \<and> fst (waits p ! k) = h \<and> (snd (waits p ! k) \<or> e \<noteq> Operation_aborted)
      then Some (p\<lparr>waits := take k (waits p) @ drop (Suc k) (waits p)\<rparr>) else None)"
| "take_event (Delivered k (Post_done E)) p =
     (if posts p > 0 then Some (p\<lparr>posts := posts p - 1\<rparr>) else None)"
| "take_event (Delivered k (Notify E)) p =
     (if owed p > 0 then Some (p\<lparr>owed := owed p - 1\<rparr>) else None)"
| "take_event (Answered E) p =
     (if owed p > 0 then Some (p\<lparr>owed := owed p - 1\<rparr>) else None)"

fun handle_event :: "('os, 'p) server_class \<Rightarrow> conn_event \<Rightarrow> ('os, 'p) session \<Rightarrow> ('os, 'p) session res" where
  "handle_event K (Delivered k ev) s = sc_handlers K ev s"
| "handle_event K (Answered E) (hs, c) = map_sum id (Pair hs) (sc_service K E c)"

definition deliver ::
  "('os, 'p) server_class \<Rightarrow> conn_event \<Rightarrow> ('os, 'p) session \<times> pending \<Rightarrow> (('os, 'p) session \<times> pending) res" where
  "deliver K ev s = (case s of ((hs, c), p) \<Rightarrow>
     (case take_event ev p of
        None \<Rightarrow> Inr ((hs, c), p)
      | Some q \<Rightarrow> bindE (handle_event K ev (hs, c\<lparr>io := []\<rparr>)) (\<lambda>(hs', c'). Inr ((hs', c'), settle c c' q))))"

definition process_new :: "('os, 'p) async_conn listener \<Rightarrow> ('os, 'p) process" where
  "process_new l = \<lparr>registered = [], front = l, outstanding = []\<rparr>"

text \<open>The connection that was started last has its first operation outstanding.\<close>

fun process_step ::
  "('os, 'p) server_class \<Rightarrow> process_event \<Rightarrow> ('os, 'p) process \<Rightarrow> ('os, 'p) process res" where
  "process_step K (Accept_done key value success) s =
     (if accepting (front s) then
        let l = sc_accept K key value success ((front s)\<lparr>accepting := False\<rparr>)
        in Inr (s\<lparr>front := l, outstanding := outstanding s @
                    map (\<lambda>c. settle c c no_pending) (drop (length (sessions (front s))) (sessions l))\<rparr>)
      else Inr s)"
| "process_step K (On_connection i ev) s =
     (if i < length (sessions (front s)) then
        bindE (deliver K ev ((registered s, sessions (front s) ! i), outstanding s ! i)) (\<lambda>((hs, c), p).
          Inr (s\<lparr>registered := hs, front := (front s)\<lparr>sessions := (sessions (front s))[i := c]\<rparr>,
                 outstanding := (outstanding s)[i := p]\<rparr>))
      else Inr s)"

fun run_process ::
  "('os, 'p) server_class \<Rightarrow> process_event list \<Rightarrow> ('os, 'p) process \<Rightarrow> ('os, 'p) process res" where
  "run_process K [] s = Inr s"
| "run_process K (ev # evs) s = bindE (process_step K ev s) (run_process K evs)"

lemma run_process_append:
  "run_process K (es @ es') s = bindE (run_process K es s) (run_process K es')"
  by (induction es arbitrary: s) (auto simp: bindE_assoc intro: bindE_cong)

text \<open>\<^verbatim>\<open>io_service::run\<close> returns when nothing is outstanding any more.\<close>

definition conn_idle :: "pending \<Rightarrow> bool" where
  "conn_idle p \<longleftrightarrow> tokens p = 0 \<and> shutdowns p = 0 \<and> waits p = []"

definition out_of_work :: "('os, 'p) process \<Rightarrow> bool" where
  "out_of_work s \<longleftrightarrow> \<not> accepting (front s) \<and> list_all conn_idle (outstanding s)"

section \<open>Single connections\<close>

text \<open>The events of one connection among those of all, and the connection run with them alone.\<close>

fun events_of :: "nat \<Rightarrow> process_event list \<Rightarrow> conn_event list" where
  "events_of i [] = []"
| "events_of i (On_connection j ev # es) = (if j = i then ev # events_of i es else events_of i es)"
| "events_of i (Accept_done key value success # es) = events_of i es"

fun run_alone ::
  "('os, 'p) server_class \<Rightarrow> conn_event list \<Rightarrow> ('os, 'p) session \<times> pending \<Rightarrow> (('os, 'p) session \<times> pending) res" where
  "run_alone K [] s = Inr s"
| "run_alone K (ev # evs) s = bindE (deliver K ev s) (run_alone K evs)"

definition connection_at :: "nat \<Rightarrow> ('os, 'p) process \<Rightarrow> ('os, 'p) session \<times> pending" where
  "connection_at i s = ((registered s, sessions (front s) ! i), outstanding s ! i)"

definition process_ok :: "('os, 'p) process \<Rightarrow> bool" where
  "process_ok s \<longleftrightarrow> length (outstanding s) = length (sessions (front s))"

text \<open>The classes of the code accept as the locale \<open>acceptor\<close> says.\<close>

definition accepts_with :: "('os, 'p) server_class \<Rightarrow> (('os, 'p) async_conn \<Rightarrow> ('os, 'p) async_conn) \<Rightarrow> bool" where
  "accepts_with K start \<longleftrightarrow> (\<forall>key value l. sc_accept K key value False l = l \<and>
     (\<exists>c. io c = [] \<and> \<not> waiting_for_async_reply c \<and> sc_accept K key value True l
       = \<lparr>new_connection = c, accepting = True, sessions = sessions l @ [start (new_connection l)]\<rparr>))"

lemma async_conn_new_io [simp]:
  "io (async_conn_new L tag key value) = []" "\<not> waiting_for_async_reply (async_conn_new L tag key value)"
  by (simp_all add: async_conn_new_def connection_new_def connection.defs async_conn.defs)

lemma accepts_http: "accepts_with (http_class L service tag) http_start"
  by (simp add: accepts_with_def http_class_def plain.accepted plain.failed)

lemma accepts_https: "accepts_with (https_class L service tag) https_start"
  by (simp add: accepts_with_def https_class_def tls.accepted tls.failed)

lemma accept_step:
  assumes "accepts_with K start" and "accepting (front s)"
  obtains c where "io c = []" "\<not> waiting_for_async_reply c" "process_step K (Accept_done key value True) s = Inr (s\<lparr>
      front := \<lparr>new_connection = c, accepting = True, sessions = sessions (front s) @ [start (new_connection (front s))]\<rparr>,
      outstanding := outstanding s @ [settle (start (new_connection (front s))) (start (new_connection (front s))) no_pending]\<rparr>)"
proof -
  from assms(1) obtain c where "io c = []" "\<not> waiting_for_async_reply c" "sc_accept K key value True ((front s)\<lparr>accepting := False\<rparr>)
      = \<lparr>new_connection = c, accepting = True, sessions = sessions (front s) @ [start (new_connection (front s))]\<rparr>"
    unfolding accepts_with_def by (metis listener.select_convs(1,3) listener.surjective listener.update_convs(2))
  with that assms(2) show thesis by simp
qed

lemma accept_failed:
  assumes "accepts_with K start" and "accepting (front s)"
  shows "process_step K (Accept_done key value False) s = Inr (s\<lparr>front := (front s)\<lparr>accepting := False\<rparr>\<rparr>)"
proof -
  have "sc_accept K key value False ((front s)\<lparr>accepting := False\<rparr>) = (front s)\<lparr>accepting := False\<rparr>"
    using assms(1) by (simp add: accepts_with_def)
  then show ?thesis using assms(2) by simp
qed


lemma process_step_ok:
  assumes "accepts_with K start" and "process_step K e s = Inr t" and "process_ok s" and "i < length (sessions (front s))"
  shows "process_ok t \<and> i < length (sessions (front t))"
proof (cases e)
  case (Accept_done key val b)
  show ?thesis
  proof (cases "accepting (front s)")
    case False
    with assms(2-4) Accept_done show ?thesis by simp
  next
    case True
    have "\<exists>c. process_step K (Accept_done key val True) s = Inr (s\<lparr>
        front := \<lparr>new_connection = c, accepting = True, sessions = sessions (front s) @ [start (new_connection (front s))]\<rparr>,
        outstanding := outstanding s @ [settle (start (new_connection (front s))) (start (new_connection (front s))) no_pending]\<rparr>)"
      by (rule accept_step [OF assms(1) True, of key val]) blast
    with accept_failed [OF assms(1) True, of key val] assms(2-4) show ?thesis
      by (cases b) (auto simp: Accept_done process_ok_def simp del: process_step.simps)
  qed
next
  case (On_connection j ev)
  with assms(2-4) show ?thesis by (auto simp: process_ok_def split: if_splits)
qed

section \<open>Isolation\<close>

text \<open>The registrations without their counters.\<close>

definition uncounted :: "'c server \<Rightarrow> 'c server" where
  "uncounted hs = map (\<lambda>h. h\<lparr>nr_of_requests := 0\<rparr>) hs"

lemma uncounted_simps [simp]:
  "uncounted [] = []" "uncounted (h # hs) = h\<lparr>nr_of_requests := 0\<rparr> # uncounted hs"
  "uncounted (hs @ hs') = uncounted hs @ uncounted hs'"
  by (simp_all add: uncounted_def)

lemma uncounted_same:
  assumes "h\<lparr>nr_of_requests := 0\<rparr> = h'\<lparr>nr_of_requests := 0\<rparr>"
  shows "pattern h = pattern h'" and "handler h = handler h'"
  using arg_cong [OF assms, of pattern] arg_cong [OF assms, of handler] by simp_all

lemma uncounted_Cons:
  "uncounted hs' = h\<lparr>nr_of_requests := 0\<rparr> # uncounted hs \<longleftrightarrow>
   (\<exists>h' hs''. hs' = h' # hs'' \<and> h'\<lparr>nr_of_requests := 0\<rparr> = h\<lparr>nr_of_requests := 0\<rparr> \<and> uncounted hs'' = uncounted hs)"
  by (cases hs') auto

text \<open>\<open>outcome_of\<close> is what a handler does to its connection, or its fault.\<close>

abbreviation outcome_of :: "('a \<times> 'c) res \<Rightarrow> 'c res" where
  "outcome_of \<equiv> map_sum id snd"

lemma map_sum_eq_Inr_iff: "map_sum f g m = Inr b \<longleftrightarrow> (\<exists>a. m = Inr a \<and> b = g a)"
  by (cases m) auto

lemma outcome_bindE:
  assumes "outcome_of m = outcome_of m'" and "\<And>a b c. outcome_of (f (a, c)) = outcome_of (g (b, c))"
  shows "outcome_of (bindE m f) = outcome_of (bindE m' g)"
  using assms by (cases m; cases m') auto

lemma bindE_outcome:
  "(\<And>a. outcome_of (f a) = outcome_of (g a)) \<Longrightarrow> outcome_of (bindE m f) = outcome_of (bindE m g)"
  by (cases m) auto

lemma if_cases: "f x = f y \<Longrightarrow> f x' = f y' \<Longrightarrow> f (if b then x else x') = f (if b then y else y')"
  by simp

locale isolated =
  fixes H :: "('os, 'p) handlers"
  assumes respects: "H ev (hs, c) = Inr (hs', c') \<Longrightarrow> uncounted hs' = uncounted hs"
    and consistent: "uncounted hs = uncounted hs' \<Longrightarrow> outcome_of (H ev (hs, c)) = outcome_of (H ev (hs', c))"
begin

lemma deliver_respects:
  assumes "sc_handlers K = H" and "deliver K ev ((hs, c), p) = Inr ((hs', c'), p')"
  shows "uncounted hs' = uncounted hs"
  using assms respects by (cases ev) (auto simp: deliver_def map_sum_eq_Inr_iff split: option.splits)

lemma deliver_consistent:
  assumes "sc_handlers K = H" and "uncounted hs1 = uncounted hs2" and "deliver K ev ((hs1, c), p) = Inr ((hs1', c'), p')"
  shows "\<exists>hs2'. deliver K ev ((hs2, c), p) = Inr ((hs2', c'), p') \<and> uncounted hs2' = uncounted hs1'"
proof (cases "take_event ev p")
  case None
  with assms show ?thesis by (simp add: deliver_def)
next
  case (Some q)
  with assms(3) have run: "handle_event K ev (hs1, c\<lparr>io := []\<rparr>) = Inr (hs1', c')" and p': "p' = settle c c' q"
    by (auto simp: deliver_def)
  have "\<exists>hs2'. handle_event K ev (hs2, c\<lparr>io := []\<rparr>) = Inr (hs2', c')"
  proof (cases ev)
    case (Delivered k e)
    then have "outcome_of (H e (hs2, c\<lparr>io := []\<rparr>)) = Inr c'"
      using run assms(1) consistent [OF assms(2), of e "c\<lparr>io := []\<rparr>"] by simp
    then show ?thesis using Delivered assms(1) by (cases "H e (hs2, c\<lparr>io := []\<rparr>)") auto
  next
    case (Answered E)
    then show ?thesis using run by (cases "sc_service K E (c\<lparr>io := []\<rparr>)") auto
  qed
  then obtain hs2' where "deliver K ev ((hs2, c), p) = Inr ((hs2', c'), p')"
    using Some p' by (auto simp: deliver_def)
  with deliver_respects [OF assms(1)] assms(2,3) show ?thesis by metis
qed

lemma run_respects:
  assumes "sc_handlers K = H"
  shows "run_process K es s = Inr t \<Longrightarrow> uncounted (registered t) = uncounted (registered s)"
proof (induction es arbitrary: s)
  case (Cons e es)
  from Cons.prems obtain s1 where s1: "process_step K e s = Inr s1" "run_process K es s1 = Inr t" by auto
  have "uncounted (registered s1) = uncounted (registered s)"
    using s1(1) by (cases e) (auto simp: Let_def split: if_splits dest: deliver_respects [OF assms])
  with Cons.IH [OF s1(2)] show ?case by simp
qed simp

text \<open>What one connection of a process goes through is what it goes through alone.\<close>

lemma run_isolated:
  assumes K: "sc_handlers K = H" "accepts_with K start"
  shows "run_process K es s = Inr s' \<Longrightarrow> process_ok s \<Longrightarrow> i < length (sessions (front s)) \<Longrightarrow>
     uncounted hs = uncounted (registered s) \<Longrightarrow>
     \<exists>hs'. run_alone K (events_of i es) ((hs, sessions (front s) ! i), outstanding s ! i)
        = Inr ((hs', sessions (front s') ! i), outstanding s' ! i) \<and> uncounted hs' = uncounted (registered s')"
proof (induction es arbitrary: s hs)
  case Nil
  then show ?case by auto
next
  case (Cons e es)
  from Cons.prems(1) obtain s1 where s1: "process_step K e s = Inr s1" and rest: "run_process K es s1 = Inr s'" by auto
  show ?case
  proof (cases e)
    case (Accept_done key val b)
    show ?thesis
    proof (cases "accepting (front s)")
      case False
      with s1 rest Cons Accept_done show ?thesis by simp
    next
      case True
      have "registered s1 = registered s \<and> process_ok s1 \<and> i < length (sessions (front s1))
          \<and> sessions (front s1) ! i = sessions (front s) ! i \<and> outstanding s1 ! i = outstanding s ! i"
      proof (cases b)
        case b: True
        obtain c where "io c = []" "\<not> waiting_for_async_reply c" "process_step K e s = Inr (s\<lparr>
            front := \<lparr>new_connection = c, accepting = True, sessions = sessions (front s) @ [start (new_connection (front s))]\<rparr>,
            outstanding := outstanding s @ [settle (start (new_connection (front s))) (start (new_connection (front s))) no_pending]\<rparr>)"
          using accept_step [OF K(2) True, of key val] b by (auto simp: Accept_done simp del: process_step.simps)
        with s1 Cons.prems(2,3) show ?thesis
          by (auto simp: process_ok_def nth_append simp del: process_step.simps)
      next
        case False
        with s1 accept_failed [OF K(2) True, of key val] Cons.prems(2,3) Accept_done show ?thesis
          by (auto simp: process_ok_def simp del: process_step.simps)
      qed
      with Cons.IH [OF rest, of hs] Cons.prems(4) Accept_done show ?thesis by simp
    qed
  next
    case (On_connection j ev)
    show ?thesis
    proof (cases "j < length (sessions (front s))")
      case False
      with s1 rest Cons On_connection show ?thesis by (auto simp: bindE_def)
    next
      case True
      with s1 On_connection obtain hs1 c1 p1 where
        d: "deliver K ev ((registered s, sessions (front s) ! j), outstanding s ! j) = Inr ((hs1, c1), p1)"
        and s1': "s1 = s\<lparr>registered := hs1, front := (front s)\<lparr>sessions := (sessions (front s))[j := c1]\<rparr>,
                 outstanding := (outstanding s)[j := p1]\<rparr>" by auto
      have same: "uncounted hs1 = uncounted (registered s)" using deliver_respects [OF K(1) d] .
      have ok: "process_ok s1" "i < length (sessions (front s1))" using Cons.prems(2,3) s1' by (auto simp: process_ok_def)
      show ?thesis
      proof (cases "j = i")
        case False
        with Cons.IH [OF rest ok, of hs] Cons.prems(4) same s1' On_connection show ?thesis by simp
      next
        case eq: True
        from deliver_consistent [OF K(1) _ d, of hs] Cons.prems(4) obtain hs2 where
          d2: "deliver K ev ((hs, sessions (front s) ! i), outstanding s ! i) = Inr ((hs2, c1), p1)"
          and u2: "uncounted hs2 = uncounted hs1" using eq by auto
        have "sessions (front s1) ! i = c1" "outstanding s1 ! i = p1" "registered s1 = hs1"
          using s1' eq True Cons.prems(2) by (auto simp: process_ok_def)
        with Cons.IH [OF rest ok, of hs2] u2 d2 eq On_connection show ?thesis by simp
      qed
    qed
  qed
qed

end


section \<open>Both classes are isolated\<close>

lemma dispatch_loop_respects:
  "dispatch_loop handler_match handler_call nf hs ps c = Inr (hs', c') \<Longrightarrow> uncounted hs' = uncounted hs"
  by (induction hs arbitrary: hs') (auto simp: handler_call_def Let_def split: if_splits)

lemma handler_call_outcome: "outcome_of (handler_call h ps c) = handler h ps c"
  by (cases "handler h ps c") (simp_all add: handler_call_def Let_def)

lemma dispatch_loop_consistent:
  "uncounted hs = uncounted hs' \<Longrightarrow>
   outcome_of (dispatch_loop handler_match handler_call nf hs ps c)
     = outcome_of (dispatch_loop handler_match handler_call nf hs' ps c)"
proof (induction hs arbitrary: hs')
  case Nil
  then show ?case by (cases hs') auto
next
  case (Cons h hs)
  then obtain h' hs1 where hs': "hs' = h' # hs1" and h: "h\<lparr>nr_of_requests := 0\<rparr> = h'\<lparr>nr_of_requests := 0\<rparr>"
    and u: "uncounted hs = uncounted hs1" by (cases hs') auto
  have eq: "handler_match h' = handler_match h" "outcome_of (handler_call h' ps c) = outcome_of (handler_call h ps c)"
    using uncounted_same [OF h] by (auto simp: handler_match_def fun_eq_iff handler_call_outcome)
  have hit: "outcome_of (bindE (handler_call h ps c) (\<lambda>(h', c'). Inr (h' # hs, c')))
      = outcome_of (bindE (handler_call h' ps c) (\<lambda>(h', c'). Inr (h' # hs1, c')))"
    by (rule outcome_bindE [OF eq(2) [symmetric]]) simp
  have miss: "outcome_of (bindE (dispatch_loop handler_match handler_call nf hs ps c) (\<lambda>(hs', c'). Inr (h # hs', c')))
      = outcome_of (bindE (dispatch_loop handler_match handler_call nf hs1 ps c) (\<lambda>(hs', c'). Inr (h' # hs', c')))"
    by (rule outcome_bindE [OF Cons.IH [OF u]]) simp
  show ?case unfolding hs' dispatch_loop.simps eq(1)
    by (rule bindE_outcome, rule if_cases) (rule hit, rule miss)
qed

lemma conn_handle_request_respects:
  "conn_handle_request L hs c = Inr (hs', c') \<Longrightarrow> uncounted hs' = uncounted hs"
  by (auto simp: conn_handle_request_def handle_request_def dest: dispatch_loop_respects)

lemma conn_handle_request_consistent:
  "uncounted hs = uncounted hs' \<Longrightarrow> outcome_of (conn_handle_request L hs c) = outcome_of (conn_handle_request L hs' c)"
  unfolding conn_handle_request_def handle_request_def by (rule dispatch_loop_consistent)

text \<open>Both \<^verbatim>\<open>handle_read\<close> go on in the same way after the dispatch.\<close>

lemma after_dispatch:
  assumes "uncounted hs = uncounted hs'"
  shows "outcome_of (bindE (conn_handle_request L hs c) (\<lambda>(hs, c). if w c then Inr (hs, f c) else bindE (g c) (\<lambda>c. Inr (hs, c))))
     = outcome_of (bindE (conn_handle_request L hs' c) (\<lambda>(hs, c). if w c then Inr (hs, f c) else bindE (g c) (\<lambda>c. Inr (hs, c))))"
  by (rule outcome_bindE [OF conn_handle_request_consistent [OF assms]]) (auto simp: bindE_def split: sum.splits)

lemma http_handle_read_respects:
  "http_handle_read L E E' e buf (hs, c) = Inr (hs', c') \<Longrightarrow> uncounted hs' = uncounted hs"
  by (erule http_handle_read_cases) (auto dest: conn_handle_request_respects)

lemma http_handle_read_consistent:
  assumes "uncounted hs = uncounted hs'"
  shows "outcome_of (http_handle_read L E E' e buf (hs, c)) = outcome_of (http_handle_read L E E' e buf (hs', c))"
  unfolding http_handle_read_def Let_def
  by (auto intro!: bindE_outcome simp: after_dispatch [OF assms] split: prod.split simp del: issue_simps)


lemma https_handle_read_respects:
  "https_handle_read L E E' e buf (hs, c) = Inr (hs', c') \<Longrightarrow> uncounted hs' = uncounted hs"
  by (auto simp: https_handle_read_def Let_def dest: conn_handle_request_respects split: if_splits)

lemma https_handle_read_consistent:
  assumes "uncounted hs = uncounted hs'"
  shows "outcome_of (https_handle_read L E E' e buf (hs, c)) = outcome_of (https_handle_read L E E' e buf (hs', c))"
  unfolding https_handle_read_def Let_def
  by (auto intro!: bindE_outcome simp: after_dispatch [OF assms] split: prod.split simp del: issue_simps)

interpretation http_isolated: isolated "http_handlers L" for L
proof (unfold_locales, goal_cases)
  case (1 ev hs c hs' c')
  then show ?case by (cases ev) (auto simp: map_sum_eq_Inr_iff dest: http_handle_read_respects)
next
  case (2 hs hs' ev c)
  then show ?case
    by (cases ev) (auto simp: sum.map_comp o_def dest: http_handle_read_consistent)
qed

interpretation https_isolated: isolated "https_handlers L" for L
proof (unfold_locales, goal_cases)
  case (1 ev hs c hs' c')
  then show ?case
    by (cases "(L, ev, (hs, c))" rule: https_handlers.cases)
      (auto simp: map_sum_eq_Inr_iff dest: https_handle_read_respects)
next
  case (2 hs hs' ev c)
  then show ?case
    by (cases "(L, ev, (hs, c))" rule: https_handlers.cases)
      (auto simp: sum.map_comp o_def dest: https_handle_read_consistent)
qed

section \<open>Processes are serial\<close>

text \<open>
  The application answers a deferred request by filling the reply and calling
  \<^verbatim>\<open>notify_async_reply_done\<close>: two steps of \<open>conn_step\<close>.
\<close>

definition notifying :: "('os, 'p) server_class \<Rightarrow> bool" where
  "notifying K \<longleftrightarrow> (\<forall>E c c'. sc_service K E c = Inr c' \<longrightarrow>
     (\<exists>r E'. \<forall>hs. sc_handlers K (Notify E') (hs, c\<lparr>c_reply := r\<rparr>) = Inr (hs, c')))"

lemma reply_io_commute:
  fixes c :: "('os, 'p) async_conn"
  shows "c\<lparr>io := q, c_reply := r\<rparr> = c\<lparr>c_reply := r, io := q\<rparr>"
  by (cases c) simp

lemma deliver_steps:
  assumes "notifying K" and "deliver K ev ((hs, c), p) = Inr t"
  shows "(conn_step (sc_handlers K))\<^sup>*\<^sup>* ((hs, c), p) t"
proof (cases "take_event ev p")
  case None
  with assms(2) show ?thesis by (simp add: deliver_def)
next
  case (Some q)
  with assms(2) obtain hs' c' where run: "handle_event K ev (hs, c\<lparr>io := []\<rparr>) = Inr (hs', c')"
    and t: "t = ((hs', c'), settle c c' q)" by (auto simp: deliver_def)
  show ?thesis
  proof (cases ev)
    case (Delivered k e)
    have "conn_step (sc_handlers K) ((hs, c), p) t"
    proof (cases e)
      case (Wait_done h E err)
      with Some Delivered have k: "k < length (waits p)" "waits p ! k = (h, snd (waits p ! k))"
        by (auto simp: prod_eq_iff split: if_splits)
      from id_take_nth_drop [OF k(1)] k(2)
      have "waits p = take k (waits p) @ (h, snd (waits p ! k)) # drop (Suc k) (waits p)" by simp
      with Some Delivered run t Wait_done show ?thesis
        by (auto intro!: conn_step.wait [where x = "snd (waits p ! k)"] split: if_splits)
    qed (use Some Delivered run t in \<open>auto intro: conn_step.intros [unfolded One_nat_def] split: if_splits\<close>)
    then show ?thesis by simp
  next
    case (Answered E)
    with run have hs': "hs' = hs" and svc: "sc_service K E (c\<lparr>io := []\<rparr>) = Inr c'" by (auto simp: map_sum_eq_Inr_iff)
    from Some Answered have p: "owed p > 0" "q = p\<lparr>owed := owed p - 1\<rparr>" by (auto split: if_splits)
    from assms(1) svc obtain r E' where "sc_handlers K (Notify E') (hs, c\<lparr>io := [], c_reply := r\<rparr>) = Inr (hs, c')"
      unfolding notifying_def by blast
    then have n: "sc_handlers K (Notify E') (hs, c\<lparr>c_reply := r, io := []\<rparr>) = Inr (hs, c')"
      by (metis reply_io_commute)
    have "conn_step (sc_handlers K) ((hs, c\<lparr>c_reply := r\<rparr>), p) ((hs, c'), settle (c\<lparr>c_reply := r\<rparr>) c' q)"
      unfolding p(2) using conn_step.notify [where H = "sc_handlers K" and c = "c\<lparr>c_reply := r\<rparr>", OF p(1)] n by blast
    moreover have "settle (c\<lparr>c_reply := r\<rparr>) c' q = settle c c' q" by (simp add: settle_def)
    ultimately show ?thesis
      using conn_step.fill [OF p(1), of "sc_handlers K" hs c r] t hs' by auto
  qed
qed

text \<open>Every connection of a process keeps the invariant of its class.\<close>

context serial_handlers
begin

definition process_inv :: "('os, 'p) process \<Rightarrow> bool" where
  "process_inv s \<longleftrightarrow> process_ok s \<and> good (registered s)
     \<and> io (new_connection (front s)) = [] \<and> \<not> waiting_for_async_reply (new_connection (front s))
     \<and> (\<forall>i < length (sessions (front s)). serial_inv (connection_at i s))"

lemma serial_inv_good: "serial_inv ((hs, c), p) \<Longrightarrow> good hs' \<Longrightarrow> serial_inv ((hs', c), p)"
  by (simp add: serial_inv_def)

lemma deliver_inv:
  assumes "sc_handlers K = H" and "notifying K" and "deliver K ev s = Inr t" and "serial_inv s"
  shows "serial_inv t"
proof -
  obtain hs c p where s: "s = ((hs, c), p)" by (metis prod.collapse)
  have "(conn_step H)\<^sup>*\<^sup>* s t" using deliver_steps [OF assms(2), of ev hs c p t] assms(1,3) s by simp
  then show ?thesis using assms(4) by (induction rule: rtranclp_induct) (auto intro: step_inv)
qed

lemma process_step_inv:
  assumes K: "sc_handlers K = H" "accepts_with K start" "notifying K"
    and started: "\<And>c. io c = [] \<Longrightarrow> \<not> waiting_for_async_reply c \<Longrightarrow>
      transfers (io (start c)) \<le> 1 \<and> posted (io (start c)) = 0 \<and> timers_only (io (start c))
      \<and> \<not> waiting_for_async_reply (start c)"
    and inv: "process_inv s" and step: "process_step K e s = Inr t"
  shows "process_inv t"
proof (cases e)
  case (Accept_done key val b)
  show ?thesis
  proof (cases "accepting (front s)")
    case False
    with step inv Accept_done show ?thesis by simp
  next
    case acc: True
    show ?thesis
    proof (cases b)
      case False
      with step accept_failed [OF K(2) acc, of key val] inv Accept_done show ?thesis
        by (auto simp: process_inv_def process_ok_def connection_at_def simp del: process_step.simps)
    next
      case True
      let ?c = "start (new_connection (front s))"
      obtain c where c: "io c = []" "\<not> waiting_for_async_reply c" "process_step K e s = Inr (s\<lparr>
          front := \<lparr>new_connection = c, accepting = True, sessions = sessions (front s) @ [?c]\<rparr>,
          outstanding := outstanding s @ [settle ?c ?c no_pending]\<rparr>)"
        using accept_step [OF K(2) acc, of key val] True by (auto simp: Accept_done simp del: process_step.simps)
      have new: "serial_inv ((registered s, ?c), settle ?c ?c no_pending)"
        using started [of "new_connection (front s)"] inv waits_timers_only [of no_pending ?c ?c]
        by (simp add: process_inv_def inv_simps) (simp add: no_pending_def tokens_def)
      have t: "t = s\<lparr>front := \<lparr>new_connection = c, accepting = True, sessions = sessions (front s) @ [?c]\<rparr>,
          outstanding := outstanding s @ [settle ?c ?c no_pending]\<rparr>"
        using step c(3) by simp
      have "serial_inv (connection_at i t)" if "i < length (sessions (front t))" for i
      proof (cases "i = length (sessions (front s))")
        case True
        with new inv t show ?thesis by (simp add: connection_at_def process_inv_def process_ok_def nth_append)
      next
        case False
        then have "i < length (sessions (front s))" using that t by simp
        with inv t show ?thesis by (auto simp: connection_at_def process_inv_def process_ok_def nth_append)
      qed
      with inv t c(1,2) show ?thesis by (simp add: process_inv_def process_ok_def)
    qed
  qed
next
  case (On_connection j ev)
  show ?thesis
  proof (cases "j < length (sessions (front s))")
    case False
    with step inv On_connection show ?thesis by simp
  next
    case True
    with step On_connection obtain hs1 c1 p1 where
      d: "deliver K ev (connection_at j s) = Inr ((hs1, c1), p1)"
      and t: "t = s\<lparr>registered := hs1, front := (front s)\<lparr>sessions := (sessions (front s))[j := c1]\<rparr>,
               outstanding := (outstanding s)[j := p1]\<rparr>" by (auto simp: connection_at_def)
    have new: "serial_inv ((hs1, c1), p1)" by (rule deliver_inv [OF K(1,3) d]) (use inv True in \<open>simp add: process_inv_def\<close>)
    then have good: "good hs1" by (simp add: serial_inv_def)
    have "serial_inv (connection_at i t)" if "i < length (sessions (front t))" for i
    proof (cases "i = j")
      case True
      with new that inv t show ?thesis by (simp add: connection_at_def process_inv_def process_ok_def)
    next
      case False
      with inv that t show ?thesis
        by (auto simp: connection_at_def process_inv_def intro: serial_inv_good [OF _ good])
    qed
    with good inv t show ?thesis by (simp add: process_inv_def process_ok_def)
  qed
qed

lemma run_process_inv:
  assumes K: "sc_handlers K = H" "accepts_with K start" "notifying K"
    and started: "\<And>c. io c = [] \<Longrightarrow> \<not> waiting_for_async_reply c \<Longrightarrow>
      transfers (io (start c)) \<le> 1 \<and> posted (io (start c)) = 0 \<and> timers_only (io (start c))
      \<and> \<not> waiting_for_async_reply (start c)"
  shows "process_inv s \<Longrightarrow> run_process K es s = Inr t \<Longrightarrow> process_inv t"
  by (induction es arbitrary: s) (auto intro: process_step_inv [OF K started])

end

text \<open>A server after its constructor and the registration of \<open>hs\<close>.\<close>

definition listening :: "('os, 'p) libs \<Rightarrow> string \<Rightarrow> ('os, 'p) conn_server \<Rightarrow> ('os, 'p) process" where
  "listening L tag hs =
     (process_new (listener_new (async_conn_new L tag (replicate MAX_HEADER_SIZE NUL) (replicate MAX_HEADER_SIZE NUL))))
       \<lparr>registered := hs\<rparr>"

lemma listening_simps [simp]:
  "registered (listening L tag hs) = hs" "sessions (front (listening L tag hs)) = []"
  "outstanding (listening L tag hs) = []" "accepting (front (listening L tag hs))"
  "process_ok (listening L tag hs)"
  by (simp_all add: listening_def process_new_def listener_new_def process_ok_def)

lemma listening_front:
  "front (listening L ''request_id'' hs) = \<lparr>new_connection = fresh_conn L, accepting = True, sessions = []\<rparr>"
  by (simp add: listening_def process_new_def listener_new_def fresh_conn_def)

lemma listening_new [simp]:
  "io (new_connection (front (listening L tag hs))) = []"
  "\<not> waiting_for_async_reply (new_connection (front (listening L tag hs)))"
  by (simp_all add: listening_def process_new_def listener_new_def)

lemma http_listening_inv: "quiet_server hs \<Longrightarrow> http.process_inv (listening L tag hs)"
  by (simp add: http.process_inv_def)

lemma https_listening_inv: "prompt_server hs \<Longrightarrow> https.process_inv (listening L tag hs)"
  by (simp add: https.process_inv_def)

section \<open>New connections\<close>

text \<open>Memory for the two header arrays of each new connection.\<close>

fun sized :: "process_event \<Rightarrow> bool" where
  "sized (Accept_done key value success) \<longleftrightarrow> length key = MAX_HEADER_SIZE \<and> length value = MAX_HEADER_SIZE"
| "sized (On_connection i ev) \<longleftrightarrow> True"

definition fresh_on :: "('os, 'p) libs \<Rightarrow> ('os, 'p) async_conn \<Rightarrow> bool" where
  "fresh_on L c \<longleftrightarrow> (\<exists>key value. length key = MAX_HEADER_SIZE \<and> length value = MAX_HEADER_SIZE
     \<and> c = async_conn_new L default_request_id_header key value)"

lemma fresh_on_new:
  "length key = MAX_HEADER_SIZE \<Longrightarrow> length value = MAX_HEADER_SIZE \<Longrightarrow>
   fresh_on L (async_conn_new L default_request_id_header key value)"
  by (auto simp: fresh_on_def)

lemma fresh_on_ok: "fresh_on L c \<Longrightarrow> conn_ok L c \<and> io c = [] \<and> \<not> waiting_for_async_reply c \<and> c_parser c = lib_parser_init L"
  by (auto simp: fresh_on_def conn_ok_def message_begun_def async_conn_new_def connection_new_def
      connection.defs async_conn.defs cbuf_alloc_def)

definition fresh_front :: "('os, 'p) libs \<Rightarrow> ('os, 'p) process \<Rightarrow> bool" where
  "fresh_front L s \<longleftrightarrow> process_ok s \<and> fresh_on L (new_connection (front s))"

lemma fresh_front_step:
  assumes "sized e" and "fresh_front L s" and "process_step (http_class L service default_request_id_header) e s = Inr t"
  shows "fresh_front L t"
proof (cases e)
  case (Accept_done key val b)
  with assms(1) have "fresh_on L (async_conn_new L default_request_id_header key val)" by (simp add: fresh_on_new)
  with assms(2,3) Accept_done show ?thesis
    by (cases b; cases "accepting (front s)")
      (auto simp: fresh_front_def process_ok_def http_class_def http_handle_accept_def)
next
  case (On_connection i ev)
  with assms(2,3) show ?thesis by (auto simp: fresh_front_def process_ok_def split: if_splits)
qed

lemma fresh_front_run:
  "list_all sized es \<Longrightarrow> fresh_front L s \<Longrightarrow> run_process (http_class L service default_request_id_header) es s = Inr t \<Longrightarrow>
   fresh_front L t"
proof (induction es arbitrary: s)
  case (Cons e es)
  from Cons.prems(3) obtain s1 where s1: "process_step (http_class L service default_request_id_header) e s = Inr s1"
    "run_process (http_class L service default_request_id_header) es s1 = Inr t" by auto
  from Cons.prems(1) have "sized e" "list_all sized es" by simp_all
  with Cons.IH [OF _ fresh_front_step [OF _ Cons.prems(2) s1(1)] s1(2)] show ?case by blast
qed simp

text \<open>The next client that is accepted finds a new connection, and its first read outstanding.\<close>

lemma next_client:
  assumes "fresh_front L s" and "accepting (front s)"
  obtains c t where "fresh_on L c"
    "process_step (http_class L service default_request_id_header) (Accept_done k v True) s = Inr t"
    "registered t = registered s" "length (sessions (front s)) < length (sessions (front t))"
    "sessions (front t) ! length (sessions (front s)) = http_start c"
    "reads (outstanding t ! length (sessions (front s))) = 1"
    "writes (outstanding t ! length (sessions (front s))) = 0"
proof -
  let ?n = "new_connection (front s)" and ?c = "http_start (new_connection (front s))"
  have n: "fresh_on L ?n" "process_ok s" using assms(1) by (simp_all add: fresh_front_def)
  then have "reads (settle ?c ?c no_pending) = 1" "writes (settle ?c ?c no_pending) = 0"
    using fresh_on_ok [OF n(1)] by (simp_all add: settle_def http_start_def no_pending_def)
  then show thesis
    using n assms(2)
    by (intro that [OF n(1), where t = "s\<lparr>front := (front s)\<lparr>accepting := True,
          sessions := sessions (front s) @ [?c], new_connection := async_conn_new L default_request_id_header k v\<rparr>,
        outstanding := outstanding s @ [settle ?c ?c no_pending]\<rparr>"])
      (auto simp: http_class_def http_handle_accept_def process_ok_def nth_append)
qed

lemma uncounted_single:
  assumes "uncounted hs = uncounted [handler_data_new split pat f n]"
  obtains m where "hs = [handler_data_new split pat f m]"
proof -
  from assms obtain h where h: "hs = [h]" "h\<lparr>nr_of_requests := 0\<rparr> = (handler_data_new split pat f n)\<lparr>nr_of_requests := 0\<rparr>"
    by (cases hs) (auto simp: uncounted_def)
  with uncounted_same [OF h(2)] have "h = handler_data_new split pat f (nr_of_requests h)"
    by (cases h) (simp add: handler_data_new_def)
  with that h(1) show thesis by blast
qed

section \<open>Properties\<close>

text \<open>A process of two connections, for the witnesses: one is answered while the other breaks off.\<close>

definition two_events :: "process_event list" where
  "two_events = [Accept_done [] [] True, Accept_done [] [] True,
     On_connection 0 (Delivered 0 (Read_done sample_env sample_env Success ''GET /'')),
     On_connection 1 (Delivered 0 (Read_done sample_env sample_env Other_error []))]"

abbreviation two_class :: "(string, script) server_class" where
  "two_class \<equiv> http_class sample_libs (\<lambda>E c. Inr (http_notify_async_reply_done sample_libs E c)) ''request_id''"

lemma two_events_run:
  "\<exists>s. run_process two_class two_events (listening sample_libs ''request_id'' []) = Inr s
     \<and> length (sessions (front s)) = 2 \<and> writes (outstanding s ! 0) = 1 \<and> tokens (outstanding s ! 1) = 0"
proof -
  define c0 where "c0 = http_start (fresh_conn sample_libs)"
  define c1 where "c1 = http_start (async_conn_new sample_libs ''request_id'' [] [])"
  have c0: "c0 = snd (fst sample_start)" by (simp add: c0_def fresh_conn_def sample_start_def http_initial_def Let_def)
  obtain c' bufs where c': "http_handle_read sample_libs sample_env sample_env Success ''GET /'' ([], c0\<lparr>io := []\<rparr>) = Inr ([], c')"
    "io c' = [Timer_cancel, Async_write bufs]" "\<not> waiting_for_async_reply c'"
    using sample_read unfolding c0 by blast
  have io: "io c0 = [Async_read]" "\<not> waiting_for_async_reply c0" "io c1 = [Async_read]" "\<not> waiting_for_async_reply c1"
    by (simp_all add: c0_def c1_def http_start_def)
  define s0 where "s0 = listening sample_libs ''request_id'' []"
  define s2 where "s2 = s0\<lparr>front := \<lparr>new_connection = async_conn_new sample_libs ''request_id'' [] [], accepting = True, sessions = [c0, c1]\<rparr>,
      outstanding := [settle c0 c0 no_pending, settle c1 c1 no_pending]\<rparr>"
  have accepted: "run_process two_class (take 2 two_events) s0 = Inr s2"
    by (simp add: two_events_def http_class_def http_handle_accept_def s0_def s2_def c0_def c1_def
        listening_front)
  have p: "settle c0 c0 no_pending = no_pending\<lparr>reads := 1\<rparr>" "settle c1 c1 no_pending = no_pending\<lparr>reads := 1\<rparr>"
    using io by (simp_all add: settle_def no_pending_def)
  define d where "d = issue [Timer_cancel] (c1\<lparr>io := []\<rparr>)"
  have d: "http_handle_read sample_libs sample_env sample_env Other_error [] ([], c1\<lparr>io := []\<rparr>) = Inr ([], d)"
    by (simp add: http_handle_read_def d_def)
  have sd: "settle c0 c' no_pending = no_pending\<lparr>writes := 1\<rparr>" "settle c1 d no_pending = no_pending"
    using c'(2,3) io by (simp_all add: settle_def no_pending_def d_def)
  have "deliver two_class (Delivered 0 (Read_done sample_env sample_env Success ''GET /'')) (([], c0), no_pending\<lparr>reads := 1\<rparr>)
      = Inr (([], c'), no_pending\<lparr>writes := 1\<rparr>)"
    using c'(1) sd by (simp add: deliver_def http_class_def no_pending_def)
  moreover have "deliver two_class (Delivered 0 (Read_done sample_env sample_env Other_error [])) (([], c1), no_pending\<lparr>reads := 1\<rparr>)
      = Inr (([], d), no_pending)"
    using d sd by (simp add: deliver_def http_class_def no_pending_def)
  ultimately have "run_process two_class (drop 2 two_events) s2 = Inr (s2\<lparr>
      front := \<lparr>new_connection = async_conn_new sample_libs ''request_id'' [] [], accepting = True, sessions = [c', d]\<rparr>,
      outstanding := [no_pending\<lparr>writes := 1\<rparr>, no_pending]\<rparr>)"
    by (simp add: two_events_def s2_def s0_def p)
  moreover have "run_process two_class two_events s0 = bindE (run_process two_class (take 2 two_events) s0)
      (run_process two_class (drop 2 two_events))"
    by (metis append_take_drop_id run_process_append)
  ultimately have "run_process two_class two_events s0 = Inr (s2\<lparr>
      front := \<lparr>new_connection = async_conn_new sample_libs ''request_id'' [] [], accepting = True, sessions = [c', d]\<rparr>,
      outstanding := [no_pending\<lparr>writes := 1\<rparr>, no_pending]\<rparr>)"
    using accepted by simp
  then show ?thesis by (simp add: s0_def tokens_def no_pending_def)
qed

text \<open>
  In a run that no fault ends, clients do not influence each other through the server: in
  whatever order the completions of all connections come, a connection ends in the state, the
  operations and the reply that its own events alone lead to. The one thing connections share in
  the model, the registered handlers, changes in its counters only. A fault in one handler is
  the end of all connections, and state that the registered functions share is not modelled.
\<close>

theorem connections_isolated:
  assumes "K = http_class L service tag \<or> K = https_class L service tag"
    and "run_process K es s = Inr s'" and "process_ok s" and "i < length (sessions (front s))"
  shows "\<exists>hs. run_alone K (events_of i es) (connection_at i s)
        = Inr ((hs, sessions (front s') ! i), outstanding s' ! i)
      \<and> uncounted hs = uncounted (registered s')"
proof -
  consider "sc_handlers K = http_handlers L" "accepts_with K http_start"
    | "sc_handlers K = https_handlers L" "accepts_with K https_start"
    using assms(1) accepts_http [of L service tag] accepts_https [of L service tag]
    by (auto simp: http_class_def https_class_def)
  then show ?thesis
    using http_isolated.run_isolated [OF _ _ assms(2-4)] https_isolated.run_isolated [OF _ _ assms(2-4)]
    unfolding connection_at_def by cases blast+
qed


theorem connections_isolated_witness:
  "\<exists>s hs. run_alone two_class (events_of 0 (drop 2 two_events))
       (connection_at 0 ((listening sample_libs ''request_id'' [])\<lparr>
          front := \<lparr>new_connection = fresh_conn sample_libs, accepting = True,
            sessions = [http_start (fresh_conn sample_libs), http_start (fresh_conn sample_libs)]\<rparr>,
          outstanding := [no_pending\<lparr>reads := 1\<rparr>, no_pending]\<rparr>))
     = Inr ((hs, s), no_pending\<lparr>writes := 1\<rparr>)"
proof -
  let ?c = "http_start (fresh_conn sample_libs)"
  let ?s = "(listening sample_libs ''request_id'' [])\<lparr>
      front := \<lparr>new_connection = fresh_conn sample_libs, accepting = True, sessions = [?c, ?c]\<rparr>,
      outstanding := [no_pending\<lparr>reads := 1\<rparr>, no_pending]\<rparr>"
  have c: "?c = snd (fst sample_start)" by (simp add: fresh_conn_def sample_start_def http_initial_def Let_def)
  obtain c' bufs where c': "http_handle_read sample_libs sample_env sample_env Success ''GET /'' ([], ?c\<lparr>io := []\<rparr>) = Inr ([], c')"
    "io c' = [Timer_cancel, Async_write bufs]" "\<not> waiting_for_async_reply c'"
    using sample_read unfolding c by blast
  then have "deliver two_class (Delivered 0 (Read_done sample_env sample_env Success ''GET /'')) (([], ?c), no_pending\<lparr>reads := 1\<rparr>)
      = Inr (([], c'), no_pending\<lparr>writes := 1\<rparr>)"
    by (simp add: deliver_def http_class_def no_pending_def settle_def)
  moreover have "deliver two_class (Delivered 0 (Read_done sample_env sample_env Other_error [])) (([], ?c), no_pending)
      = Inr (([], ?c), no_pending)"
    by (simp add: deliver_def no_pending_def)
  ultimately have run: "run_process two_class (drop 2 two_events) ?s = Inr (?s\<lparr>
      front := \<lparr>new_connection = fresh_conn sample_libs, accepting = True, sessions = [c', ?c]\<rparr>,
      outstanding := [no_pending\<lparr>writes := 1\<rparr>, no_pending]\<rparr>)"
    by (simp add: two_events_def)
  have "process_ok ?s" "0 < length (sessions (front ?s))" by (simp_all add: process_ok_def)
  from connections_isolated [OF disjI1 [OF refl] run this] show ?thesis by auto
qed

text \<open>
  C10. In every run of a plain server, from its constructor on and with any number of
  clients, no connection has more than one read, write, posted completion or promised reply
  outstanding, and one that is marked as waiting has exactly one reply on its way. The
  registered handlers may defer; the application answers by filling the reply and notifying.
\<close>

theorem process_one_at_a_time:
  assumes "quiet_server hs" and "notifying (http_class L service tag)"
    and "run_process (http_class L service tag) es (listening L tag hs) = Inr s"
    and "i < length (sessions (front s))"
  shows "handshakes (outstanding s ! i) + reads (outstanding s ! i) + writes (outstanding s ! i)
        + posts (outstanding s ! i) + owed (outstanding s ! i) \<le> 1
    \<and> (waiting_for_async_reply (sessions (front s) ! i) \<longrightarrow> owed (outstanding s ! i) + posts (outstanding s ! i) = 1)"
proof -
  have "http.process_inv s"
    by (rule http.run_process_inv [OF _ accepts_http assms(2) _ http_listening_inv [OF assms(1)] assms(3)])
      (simp_all add: http_class_def http_start_def)
  with assms(4) show ?thesis by (auto simp: http.process_inv_def http.serial_inv_def connection_at_def tokens_def)
qed

theorem process_one_at_a_time_witness:
  "\<exists>s. run_process two_class two_events (listening sample_libs ''request_id'' []) = Inr s
     \<and> length (sessions (front s)) = 2 \<and> writes (outstanding s ! 0) = 1
     \<and> reads (outstanding s ! 0) + owed (outstanding s ! 0) = 0"
proof -
  obtain s where s: "run_process two_class two_events (listening sample_libs ''request_id'' []) = Inr s"
    "length (sessions (front s)) = 2" "writes (outstanding s ! 0) = 1" using two_events_run by blast
  have "quiet_server []" by (simp add: quiet_server_def)
  moreover have "notifying two_class"
    unfolding notifying_def
  proof (intro allI impI)
    fix E c c'
    assume "sc_service two_class E c = Inr c'"
    then have "\<forall>hs. sc_handlers two_class (Notify E) (hs, c\<lparr>c_reply := c_reply c\<rparr>) = Inr (hs, c')"
      by (simp add: http_class_def)
    then show "\<exists>r E'. \<forall>hs. sc_handlers two_class (Notify E') (hs, c\<lparr>c_reply := r\<rparr>) = Inr (hs, c')" by blast
  qed
  ultimately show ?thesis using process_one_at_a_time [OF _ _ s(1), of 0] s by auto
qed

text \<open>The TLS server with handlers that answer at once.\<close>

theorem tls_process_one_at_a_time:
  assumes "prompt_server hs" and "notifying (https_class L service tag)"
    and "run_process (https_class L service tag) es (listening L tag hs) = Inr s"
    and "i < length (sessions (front s))"
  shows "handshakes (outstanding s ! i) + reads (outstanding s ! i) + writes (outstanding s ! i) \<le> 1
    \<and> owed (outstanding s ! i) = 0 \<and> \<not> waiting_for_async_reply (sessions (front s) ! i)"
proof -
  have "https.process_inv s"
    by (rule https.run_process_inv [OF _ accepts_https assms(2) _ https_listening_inv [OF assms(1)] assms(3)])
      (simp_all add: https_class_def https_start_def)
  with assms(4) show ?thesis by (auto simp: https.process_inv_def https.serial_inv_def connection_at_def tokens_def)
qed

end
