(* ===== verification/Session.thy ===== *)
theory Session
  imports Http_Exchange
begin

text \<open>
  A whole session on a connection: request after request, each in as many reads as the
  network makes of it. The abstract server of this theory maps a request to a reply; the
  locale \<open>answering\<close> is what the handlers of a connection promise about one block and about
  one exchange, and in it the session of the connection refines the abstract server. The
  theories \<open>Http_Session\<close> and \<open>Https_Session\<close> show that both connections keep the promise.
\<close>

section \<open>The abstract server\<close>

text \<open>A request and a reply as client and application see them.\<close>

record message =
  m_method :: "method_t option"
  m_path :: string
  m_query :: string
  m_headers :: "header_t list"
  m_body :: string

type_synonym answer = "status_type \<times> string \<times> string"

type_synonym routes = "(string \<times> (string list \<Rightarrow> message \<Rightarrow> answer)) list"

fun route :: "(string \<Rightarrow> string list) \<Rightarrow> routes \<Rightarrow> message \<Rightarrow> answer" where
  "route split [] q = (not_found, default_content_type, [])"
| "route split ((pat, g) # rs) q =
     (if uri_matches (split pat) (split (m_path q)) then g (split (m_path q)) q else route split rs q)"

text \<open>
  A request as the parser reports it: the fragments of the target, of the header fields and of
  the body, the announced length, the index of the method and \<^verbatim>\<open>http_should_keep_alive\<close>. It
  is well formed for this server when its headers fit the arrays, its method is one of the
  table, and each fragment of its target parses by itself, as \<^verbatim>\<open>on_url\<close> has it; path and
  query are then those of the fragments, one after the other. A target that arrives in one
  piece is the usual case; what becomes of one that a read cuts where it does not parse is
  \<open>split_target_refused\<close> of theory \<open>Http_Exchange\<close>.
\<close>

record wire =
  w_target :: "string list"
  w_fields :: "fragments list"
  w_length :: "64 word"
  w_method :: nat
  w_body :: "string list"
  w_keep :: int

definition wire_events :: "wire \<Rightarrow> parser_event list" where
  "wire_events w = message_events (w_target w) (w_fields w) (w_length w) (w_method w) (w_body w) (w_keep w)"

definition well_formed :: "('os, 'p) libs \<Rightarrow> wire \<Rightarrow> bool" where
  "well_formed L w \<longleftrightarrow> (\<forall>u \<in> set (w_target w). piece_ok L u \<and> url_in_range L u)
     \<and> (\<forall>f \<in> set (w_fields w). fits f) \<and> w_method w < 26"

definition message_of :: "('os, 'p) libs \<Rightarrow> wire \<Rightarrow> message" where
  "message_of L w =
     \<lparr>m_method = Some (method_of_code (w_method w)), m_path = concat (map (piece_path L) (w_target w)),
      m_query = concat (map (piece_query L) (w_target w)), m_headers = map (stored L) (w_fields w),
      m_body = concat (w_body w)\<rparr>"

definition reply_of :: "answer \<Rightarrow> bool \<Rightarrow> string \<times> header_t list \<times> string" where
  "reply_of a keep = (case a of (s, ct, b) \<Rightarrow>
     (status_text s, content_headers ct (length b) @ closing_headers keep, b))"

text \<open>The bytes of a reply, as \<^verbatim>\<open>to_buffers\<close> lays them out, and what a reader makes of them.\<close>

definition reply_bytes :: "answer \<Rightarrow> bool \<Rightarrow> string" where
  "reply_bytes a keep = (case a of (s, ct, b) \<Rightarrow>
     concat ([http_version_v1_1, status_buffer s]
       @ concat (map header_buffers (content_headers ct (length b) @ closing_headers keep))
       @ [crlf] @ (if b = [] then [] else [b])))"

lemma read_reply_bytes:
  assumes "CR \<notin> set (fst (snd a))"
  shows "read_reply (reply_bytes a keep) = Some (reply_of a keep)"
proof -
  obtain s ct b where a: "a = (s, ct, b)" by (metis prod_cases3)
  have "\<forall>h \<in> set (content_headers ct (length b) @ closing_headers keep). wf_header h"
    using wf_content_headers [of ct "length b"] wf_closing_headers [of keep] assms by (auto simp: a)
  from read_reply_buffers [OF this, of s b] show ?thesis by (simp only: a reply_bytes_def reply_of_def prod.case)
qed

text \<open>
  The replies of a session. \<open>goes_on\<close> says whether the connection reads on after a reply to a
  request that keeps the connection, or does not; where it does not, the session ends.
\<close>

fun session_replies ::
  "('os, 'p) libs \<Rightarrow> (bool \<Rightarrow> bool) \<Rightarrow> routes \<Rightarrow> wire list \<Rightarrow> (string \<times> header_t list \<times> string) list" where
  "session_replies L goes_on rs [] = []"
| "session_replies L goes_on rs (w # ws) =
     reply_of (route (lib_split L) rs (message_of L w)) (w_keep w \<noteq> 0)
       # (if goes_on (w_keep w \<noteq> 0) then session_replies L goes_on rs ws else [])"

fun session_bytes ::
  "('os, 'p) libs \<Rightarrow> (bool \<Rightarrow> bool) \<Rightarrow> routes \<Rightarrow> wire list \<Rightarrow> string list" where
  "session_bytes L goes_on rs [] = []"
| "session_bytes L goes_on rs (w # ws) =
     reply_bytes (route (lib_split L) rs (message_of L w)) (w_keep w \<noteq> 0)
       # (if goes_on (w_keep w \<noteq> 0) then session_bytes L goes_on rs ws else [])"

section \<open>The session of the code\<close>

text \<open>
  One read after the other, each with the environments of its two log lines; a write that a
  read leads to completes, without an error, before the next read. Nothing is read when no
  read is outstanding. The result lists the bytes of the writes. \<open>H\<close> is the table of handlers.
\<close>

type_synonym read_block = "log_env \<times> log_env \<times> string"

fun write_of :: "io_req list \<Rightarrow> string list option" where
  "write_of [] = None"
| "write_of (Async_write bufs # rs) = Some bufs"
| "write_of (r # rs) = write_of rs"

definition write_completes ::
  "('os, 'p) handlers \<Rightarrow> log_env \<Rightarrow> ('os, 'p) session \<Rightarrow> (string list \<times> ('os, 'p) session) res" where
  "write_completes H E s =
     (case s of (hs, c) \<Rightarrow> case write_of (io c) of None \<Rightarrow> Inr ([], s)
      | Some bufs \<Rightarrow> bindE (H (Write_done E Success) (hs, c\<lparr>io := []\<rparr>)) (\<lambda>t. Inr ([concat bufs], t)))"

fun session ::
  "('os, 'p) handlers \<Rightarrow> read_block list \<Rightarrow> ('os, 'p) session \<Rightarrow> (string list \<times> ('os, 'p) session) res" where
  "session H [] s = Inr ([], s)"
| "session H ((E1, E2, buf) # bs) (hs, c) =
     (if Async_read \<notin> set (io c) then Inr ([], (hs, c))
      else bindE (H (Read_done E1 E2 Success buf) (hs, c\<lparr>io := []\<rparr>)) (\<lambda>s.
        bindE (write_completes H E2 s) (\<lambda>(out, t).
          bindE (session H bs t) (\<lambda>(out', u). Inr (out @ out', u)))))"

text \<open>The handlers that put the abstract server behind the code, with their counters.\<close>

definition request_view :: "('os, 'p) libs \<Rightarrow> 'os request_t \<Rightarrow> message" where
  "request_view L r =
     \<lparr>m_method = r_method r, m_path = r_url r, m_query = r_query r, m_headers = r_headers r,
      m_body = os_content L (r_rx r)\<rparr>"

definition route_handler ::
  "('os, 'p) libs \<Rightarrow> string \<times> (string list \<Rightarrow> message \<Rightarrow> answer) \<Rightarrow> ('os, 'p) async_conn handler_data \<Rightarrow> bool" where
  "route_handler L r h \<longleftrightarrow> (\<exists>n. h = handler_data_new (lib_split L) (fst r)
     (respond L (\<lambda>ps q. snd r ps (request_view L q))) n)"

definition routed :: "('os, 'p) libs \<Rightarrow> routes \<Rightarrow> ('os, 'p) conn_server \<Rightarrow> bool" where
  "routed L rs hs \<longleftrightarrow> list_all2 (route_handler L) rs hs"

text \<open>Content types an application may use in a header.\<close>

definition plain_types :: "routes \<Rightarrow> bool" where
  "plain_types rs \<longleftrightarrow> (\<forall>(pat, g) \<in> set rs. \<forall>ps q. CR \<notin> set (fst (snd (g ps q))))"

text \<open>
  The blocks that bring one message to a parser: together they make its events, the last
  block brings its last event, and the first brings something (\<open>st\<close>: nothing has come yet).
\<close>

inductive arrives ::
  "('os, 'p) libs \<Rightarrow> bool \<Rightarrow> 'p \<Rightarrow> read_block list \<Rightarrow> parser_event list \<Rightarrow> 'p \<Rightarrow> bool" for L where
  last: "lib_execute L p buf = calls evs (length buf, p') \<Longrightarrow> evs \<noteq> [] \<Longrightarrow>
     log_peer E1 \<noteq> None \<Longrightarrow> log_peer E2 \<noteq> None \<Longrightarrow> arrives L st p [(E1, E2, buf)] evs p'"
| more: "lib_execute L p buf = calls evs (length buf, p1) \<Longrightarrow> (st \<longrightarrow> evs \<noteq> []) \<Longrightarrow>
     arrives L False p1 bs evs' p' \<Longrightarrow> arrives L st p ((E1, E2, buf) # bs) (evs @ evs') p'"

text \<open>
  A list of messages, one after the other. Nothing is asked of what comes after a message with
  which the connection stops reading.
\<close>

inductive all_arrive ::
  "('os, 'p) libs \<Rightarrow> (bool \<Rightarrow> bool) \<Rightarrow> 'p \<Rightarrow> read_block list \<Rightarrow> wire list \<Rightarrow> bool" for L goes_on where
  none: "all_arrive L goes_on p [] []"
| one: "arrives L True p bs (wire_events w) p' \<Longrightarrow> well_formed L w \<Longrightarrow>
     goes_on (w_keep w \<noteq> 0) \<longrightarrow> all_arrive L goes_on p' bs' ws \<Longrightarrow>
     all_arrive L goes_on p (bs @ bs') (w # ws)"

section \<open>A session is a run of the system\<close>

lemma requested_pending:
  "Async_read \<in> set rs \<or> reads p > 0 \<Longrightarrow> reads (fold apply_io rs p) > 0"
  "(\<exists>b. Async_write b \<in> set rs) \<or> writes p > 0 \<Longrightarrow> writes (fold apply_io rs p) > 0"
proof (induction rs arbitrary: p)
  case (Cons r rs)
  {
    case 1
    then have "Async_read \<in> set rs \<or> reads (apply_io r p) > 0" by (cases r) auto
    with Cons(1) show ?case by simp
  next
    case 2
    then have "(\<exists>b. Async_write b \<in> set rs) \<or> writes (apply_io r p) > 0" by (cases r) auto
    with Cons(2) show ?case by simp
  }
qed simp_all

lemma settle_pending:
  "Async_read \<in> set (io c') \<Longrightarrow> reads (settle c c' p) > 0"
  "Async_write b \<in> set (io c') \<Longrightarrow> writes (settle c c' p) > 0"
  using requested_pending [of "io c'" p] by (auto simp: settle_def Let_def)

lemma write_of_Some: "write_of rs = Some b \<Longrightarrow> Async_write b \<in> set rs"
  by (induction rs rule: write_of.induct) auto

lemma write_completes_reachable:
  assumes "write_completes H E (hs, c) = Inr (out, (hs', c'))" and "reachable H s0 ((hs, c), settle d c q)"
  shows "\<exists>p. reachable H s0 ((hs', c'), p) \<and> (Async_read \<in> set (io c') \<longrightarrow> reads p > 0)"
proof (cases "write_of (io c)")
  case None
  with assms show ?thesis
    using settle_pending(1) [of c d q] by (auto simp: write_completes_def)
next
  case (Some b)
  let ?p = "settle d c q"
  have "writes ?p > 0" using settle_pending(2) write_of_Some [OF Some] by blast
  moreover have "H (Write_done E Success) (hs, c\<lparr>io := []\<rparr>) = Inr (hs', c')"
    using assms(1) Some by (auto simp: write_completes_def)
  ultimately have "conn_step H ((hs, c), ?p) ((hs', c'), settle c c' (?p\<lparr>writes := writes ?p - 1\<rparr>))"
    by (rule conn_step.written)
  with assms(2) settle_pending(1) show ?thesis by (blast intro: reachable.step)
qed

lemma session_reachable:
  assumes "session H bs s = Inr (outs, t)"
    and "reachable H s0 (s, p)" and "Async_read \<in> set (io (snd s)) \<longrightarrow> reads p > 0"
  shows "\<exists>q. reachable H s0 (t, q)"
  using assms
proof (induction bs arbitrary: s outs p)
  case (Cons b bs)
  obtain E1 E2 buf where b: "b = (E1, E2, buf)" by (cases b)
  obtain hs c where s: "s = (hs, c)" by fastforce
  show ?case
  proof (cases "Async_read \<in> set (io c)")
    case False
    with Cons.prems show ?thesis by (auto simp: b s)
  next
    case True
    with Cons.prems(1) obtain hs1 c1 where read:
      "H (Read_done E1 E2 Success buf) (hs, c\<lparr>io := []\<rparr>) = Inr (hs1, c1)"
      by (auto simp: b s)
    with Cons.prems(1) True obtain out hs2 c2 outs' where run:
      "write_completes H E2 (hs1, c1) = Inr (out, (hs2, c2))" "session H bs (hs2, c2) = Inr (outs', t)"
      by (auto simp: b s)
    have "conn_step H ((hs, c), p) ((hs1, c1), settle c c1 (p\<lparr>reads := reads p - 1\<rparr>))"
      using Cons.prems(3) True read s by (intro conn_step.read) simp_all
    with Cons.prems(2) have "reachable H s0 ((hs1, c1), settle c c1 (p\<lparr>reads := reads p - 1\<rparr>))"
      unfolding s by (rule reachable.step)
    from write_completes_reachable [OF run(1) this] Cons.IH [OF run(2)] show ?thesis by auto
  qed
qed auto

section \<open>The callbacks look at neither the parser nor the requests to Asio\<close>

lemma callback_commute:
  fixes c :: "('os, 'p) async_conn"
  shows "parser_settings L ev (c\<lparr>c_parser := p, io := x\<rparr>)
     = map_sum id (apsnd (\<lambda>d. d\<lparr>c_parser := p, io := x\<rparr>)) (parser_settings L ev c)"
  by (cases c; cases ev)
    (simp_all add: callback_defs push_header_def Let_def bindE_def append_component_def
      split: sum.splits option.splits prod.splits)

lemma feed_commute:
  fixes c :: "('os, 'p) async_conn"
  shows "feed L evs (c\<lparr>c_parser := p, io := x\<rparr>)
     = map_sum id (\<lambda>d. d\<lparr>c_parser := p, io := x\<rparr>) (feed L evs c)"
proof (induction evs arbitrary: c)
  case (Cons ev evs)
  then show ?case by (cases "parser_settings L ev c") (auto simp: callback_commute simp del: feed.simps(1))
qed simp

text \<open>Only the end of a message completes a request, and only its beginning undoes that.\<close>

fun is_message_complete :: "parser_event \<Rightarrow> bool" where
  "is_message_complete (Message_complete k) = True"
| "is_message_complete ev = False"

lemma callback_complete:
  assumes "parser_settings L ev c = Inr (r, c')" and "\<not> is_message_complete ev"
  shows "c_request_complete c' = (c_request_complete c \<and> ev \<noteq> Message_begin)"
proof (cases ev)
  case (Url at)
  with assms show ?thesis by (auto elim!: on_url_cases)
next
  case (Header_field at)
  with assms show ?thesis by (auto elim!: on_header_field_cases)
next
  case (Headers_complete n m)
  with assms show ?thesis by (auto elim!: on_headers_complete_cases)
qed (use assms in \<open>auto simp: on_message_begin_def on_header_value_def on_body_def Let_def\<close>)

lemma feed_complete:
  "feed L evs c = Inr c' \<Longrightarrow> \<forall>ev \<in> set evs. \<not> is_message_complete ev \<Longrightarrow>
   c_request_complete c' = (c_request_complete c \<and> Message_begin \<notin> set evs)"
  by (induction evs arbitrary: c) (auto dest: callback_complete)

lemma wire_events_shape:
  "\<exists>evs. wire_events w = Message_begin # evs @ [Message_complete (w_keep w)]
     \<and> (\<forall>ev \<in> set evs. \<not> is_message_complete ev)"
  by (intro exI [of _ "map Url (w_target w) @ concat (map header_events (w_fields w))
      @ [Headers_complete (w_length w) (w_method w)] @ map Body (w_body w)"])
    (auto simp: wire_events_def message_events_def header_events_def)

lemma arrives_events: "arrives L st p bs evs p' \<Longrightarrow> evs \<noteq> []"
  by (induction rule: arrives.induct) auto

lemma feed_frame:
  fixes c :: "('os, 'p) async_conn"
  assumes "feed L evs c = Inr d"
  shows "c_parser d = c_parser c" and "io d = io c"
proof -
  have "feed L evs (c\<lparr>c_parser := c_parser c, io := io c\<rparr>) = Inr (d\<lparr>c_parser := c_parser c, io := io c\<rparr>)"
    by (simp only: feed_commute assms map_sum.simps)
  then have eq: "d = d\<lparr>c_parser := c_parser c, io := io c\<rparr>" using assms by simp
  from arg_cong [OF eq, of c_parser] show "c_parser d = c_parser c" by simp
  from arg_cong [OF eq, of io] show "io d = io c" by simp
qed

lemma http_parse_feed:
  fixes c :: "('os, 'p) async_conn"
  assumes "lib_execute L (c_parser c) buf = calls evs (length buf, p)" and "feed L evs c = Inr d"
  shows "http_parse L buf (c\<lparr>io := x\<rparr>) = Inr (length buf, d\<lparr>c_parser := p, io := x\<rparr>)"
proof -
  have "feed L evs (c\<lparr>c_parser := c_parser c, io := x\<rparr>) = Inr (d\<lparr>c_parser := c_parser c, io := x\<rparr>)"
    by (simp only: feed_commute assms(2) map_sum.simps)
  then show ?thesis
    using http_parse_calls [of L "c\<lparr>io := x\<rparr>" buf evs "length buf" p] assms(1) by simp
qed

text \<open>What \<^verbatim>\<open>handle_read\<close> does once the request is complete, the same on both connections.\<close>

definition serve_request ::
  "('os, 'p) libs \<Rightarrow> log_env \<Rightarrow> log_env \<Rightarrow> ('os, 'p) session \<Rightarrow> ('os, 'p) session res" where
  "serve_request L E1 E2 s = (case s of (hs, c) \<Rightarrow>
     bindE (log_request_begin L E1 c) (\<lambda>c. bindE (conn_handle_request L hs c) (\<lambda>(hs, c).
       if waiting_for_async_reply c then Inr (hs, issue [Timer_expires 3605, Timer_wait Handle_timer] c)
       else bindE (http_send_reply L E2 c) (\<lambda>c. Inr (hs, c)))))"

section \<open>One request and its reply\<close>

text \<open>The connection with the reply to an answer in it.\<close>

definition answered :: "'os \<Rightarrow> answer \<Rightarrow> ('os, 'p) async_conn \<Rightarrow> ('os, 'p) async_conn" where
  "answered os a c = (case a of (s, ct, b) \<Rightarrow>
     c\<lparr>c_reply := (c_reply c)\<lparr>p_avro_tx := Some os, p_status := Some s,
         p_headers := content_headers ct (length b)\<rparr>\<rparr>)"

lemma request_view_id [simp]: "request_view L (r\<lparr>r_id := i, r_uuid := u\<rparr>) = request_view L r"
  by (simp add: request_view_def)

lemma dispatch_routed:
  assumes "list_all2 (route_handler L) rs hs" and "avro_law L" and "split_law (lib_split L)"
    and "c_reply c = reply_reset L r0" and "m_path (request_view L (c_request c)) = u"
  shows "\<exists>hs' os. dispatch_loop handler_match handler_call (conn_create L not_found) hs (lib_split L u) c
        = Inr (hs', answered os (route (lib_split L) rs (request_view L (c_request c))) c)
      \<and> os_content L os = snd (snd (route (lib_split L) rs (request_view L (c_request c))))
      \<and> list_all2 (route_handler L) rs hs'"
  using assms(1)
proof (induction rule: list_all2_induct)
  case Nil
  have stream: "p_avro_tx (c_reply c) = Some (lib_os_new L)" "os_content L (lib_os_new L) = []"
    using assms(2,4) by (simp_all add: reply_reset_def avro_lawD)
  have "answered (lib_os_new L) (not_found, default_content_type, []) c
      = c\<lparr>c_reply := (c_reply c)\<lparr>p_status := Some not_found,
           p_headers := [\<lparr>name = ''Content-Length'', val = ''0''\<rparr>]\<rparr>\<rparr>"
    using stream(1) by (simp add: answered_def content_headers_def)
  with conn_create_empty [OF assms(2) stream, of not_found] stream(2) show ?case
    by (intro exI [of _ "[]"] exI [of _ "lib_os_new L"]) simp
next
  case (Cons r rs h hs)
  obtain pat g where r: "r = (pat, g)" by fastforce
  let ?f = "respond L (\<lambda>ps q. g ps (request_view L q))"
  from Cons.hyps(1) r obtain n where h: "h = handler_data_new (lib_split L) pat ?f n"
    by (auto simp: route_handler_def)
  have entry: "handler_match h (lib_split L u) = Inr (uri_matches (lib_split L pat) (lib_split L u))"
    "handler_call h (lib_split L u) c = bindE (?f (lib_split L u) c)
       (\<lambda>c'. Inr (handler_data_new (lib_split L) pat ?f (n + 1), c'))"
    using assms(3) by (simp_all add: h handler_match_answers serves_new handler_call_new)
  show ?case
  proof (cases "uri_matches (lib_split L pat) (lib_split L u)")
    case True
    obtain s ct b where g: "g (lib_split L u) (request_view L (c_request c)) = (s, ct, b)"
      by (metis prod_cases3)
    then obtain os where os: "?f (lib_split L u) c = Inr (answered os (s, ct, b) c)" "os_content L os = b"
      using respond_eq [of L c r0 "\<lambda>ps q. g ps (request_view L q)" "lib_split L u" s ct b] assms(2,4)
      by (auto simp: answered_def)
    have "route_handler L r (handler_data_new (lib_split L) pat ?f (n + 1))"
      by (auto simp: route_handler_def r)
    with True os g Cons.hyps(2) assms(5) show ?thesis
      by (intro exI [of _ "handler_data_new (lib_split L) pat ?f (n + 1) # hs"] exI [of _ os])
        (simp add: r entry)
  next
    case False
    from Cons.IH obtain hs' os where IH:
      "dispatch_loop handler_match handler_call (conn_create L not_found) hs (lib_split L u) c
        = Inr (hs', answered os (route (lib_split L) rs (request_view L (c_request c))) c)"
      "os_content L os = snd (snd (route (lib_split L) rs (request_view L (c_request c))))"
      "list_all2 (route_handler L) rs hs'" by blast
    with False Cons.hyps(1) assms(5) show ?thesis
      by (intro exI [of _ "h # hs'"] exI [of _ os])
        (simp add: r entry)
  qed
qed

lemma routed_handle_request:
  assumes "routed L rs hs" and "avro_law L" and "split_law (lib_split L)" and "c_reply c = reply_reset L r0"
  obtains hs' os where "conn_handle_request L hs c
      = Inr (hs', answered os (route (lib_split L) rs (request_view L (c_request c))) c)"
    "os_content L os = snd (snd (route (lib_split L) rs (request_view L (c_request c))))" "routed L rs hs'"
  using dispatch_routed [of L rs hs c r0 "conn_url c"] assms that
  by (auto simp: routed_def conn_handle_request_def handle_request_def request_view_def conn_url_def)

text \<open>What the parser and the callbacks left on the connection survives the reply.\<close>

definition parse_state ::
  "('os, 'p) async_conn \<Rightarrow> 'p \<times> cbuf \<times> cbuf \<times> bool option \<times> bool \<times> method_t option" where
  "parse_state c = (c_parser c, header_key c, header_val c, last_header_was_value c,
     c_request_complete c, r_method (c_request c))"

lemma parse_state_simps [simp]:
  "parse_state (touch_request_id L E c) = parse_state c"
  "parse_state (issue rs c) = parse_state c"
  "parse_state (reply_ready c) = parse_state c"
  "parse_state (answered os a c) = parse_state c"
  "parse_state (c\<lparr>c_reply := r\<rparr>) = parse_state c"
  "parse_state (c\<lparr>io := x\<rparr>) = parse_state c"
  by (simp_all add: parse_state_def touch_request_id_def issue_def reply_ready_def answered_def
      split: prod.split)

lemma http_send_reply_parse_state:
  assumes "http_send_reply L E c = Inr c'"
  shows "parse_state c' = parse_state c"
proof -
  from assms obtain c1 where log: "log_request_end L E c = Inr c1"
    unfolding http_send_reply_def bindE_eq_Inr_iff by blast
  then have "parse_state c1 = parse_state c" using log_request_end_cases [OF log] by auto
  with assms show ?thesis by (auto simp: http_send_reply_eq [OF log])
qed

text \<open>The identification of a request is all that changes in it.\<close>

definition same_message :: "('os, 'p) libs \<Rightarrow> 'os request_t \<Rightarrow> 'os request_t \<Rightarrow> bool" where
  "same_message L r r' \<longleftrightarrow> request_view L r' = request_view L r
     \<and> (uuid_law L \<and> id_consistent L r \<longrightarrow> id_consistent L r')"

lemma same_message_refl [simp]: "same_message L r r"
  by (simp add: same_message_def)

lemma same_message_trans: "same_message L r r' \<Longrightarrow> same_message L r' r'' \<Longrightarrow> same_message L r r''"
  by (simp add: same_message_def)

lemma same_message_request_id [simp]: "same_message L r (snd (request_id L rnd h r))"
  by (simp add: same_message_def request_view_def request_id_consistent)

lemma same_message_touch [simp]: "same_message L (c_request c) (c_request (touch_request_id L E c))"
  by (simp add: touch_request_id_def)

lemma http_send_reply_request:
  assumes "http_send_reply L E c = Inr c'"
  shows "same_message L (c_request c) (c_request c')"
proof -
  from assms obtain c1 where log: "log_request_end L E c = Inr c1"
    unfolding http_send_reply_def bindE_eq_Inr_iff by blast
  then have "same_message L (c_request c) (c_request c1)" using log_request_end_cases [OF log] by auto
  with assms show ?thesis by (auto simp: http_send_reply_eq [OF log])
qed

lemma route_plain:
  "plain_types rs \<Longrightarrow> CR \<notin> set (fst (snd (route split rs q)))"
proof (induction rs)
  case Nil
  then show ?case by (simp add: default_content_type_def CR_def)
next
  case (Cons r rs)
  then show ?case by (cases r) (simp add: plain_types_def)
qed

lemma read_session_bytes:
  "plain_types rs \<Longrightarrow>
   map read_reply (session_bytes L goes_on rs ws) = map Some (session_replies L goes_on rs ws)"
  by (induction ws) (simp_all add: read_reply_bytes route_plain)

lemma answered_simps [simp]:
  "io (answered os a c) = io c" "c_keep_alive (answered os a c) = c_keep_alive c"
  "waiting_for_async_reply (answered os a c) = waiting_for_async_reply c"
  "c_request (answered os a c) = c_request c"
  "p_avro_tx (c_reply (answered os a c)) = Some os" "p_status (c_reply (answered os a c)) = Some (fst a)"
  "p_headers (c_reply (answered os a c)) = content_headers (fst (snd a)) (length (snd (snd a)))"
  by (simp_all add: answered_def split: prod.split)

lemma http_send_reply_bytes:
  assumes "avro_law L" and "loggable E c" and "p_avro_tx (c_reply c) = Some os" and "p_status (c_reply c) = Some s"
  shows "\<exists>c'. http_send_reply L E c = Inr c' \<and> c_keep_alive c' = c_keep_alive c
     \<and> io c' = io c @ [Async_write ([http_version_v1_1, status_buffer s]
         @ concat (map header_buffers (p_headers (c_reply c) @ closing_headers (c_keep_alive c)))
         @ [crlf] @ (if os_content L os = [] then [] else [os_content L os]))]"
proof -
  obtain c1 where log: "log_request_end L E c = Inr c1" and c1: "c1 = c \<or> c1 = touch_request_id L E c"
    using log_request_end_loggable [OF assms(2)] assms(4) by auto
  then have same: "io c1 = io c" "c_reply c1 = c_reply c" "c_keep_alive c1 = c_keep_alive c" by auto
  let ?r = "c_reply (reply_ready c1)"
  have r: "p_avro_tx ?r = Some os" "p_status ?r = Some s"
    "p_headers ?r = p_headers (c_reply c) @ closing_headers (c_keep_alive c)"
    using assms(3,4) same by (simp_all add: reply_ready_def reply_add_def closing_headers_def)
  show ?thesis
    using http_send_reply_eq [OF log, unfolded to_buffers_eq [OF assms(1) r(1,2)] bindE_Inr prod.case] r(3) same
    by simp
qed

lemma serve_request_routed:
  assumes "routed L rs hs" and "plain_types rs" and "avro_law L" and "split_law (lib_split L)"
    and "c_reply c = reply_reset L r0" and "\<not> waiting_for_async_reply c"
    and "loggable E1 c" and "loggable E2 c"
  obtains hs' c' bufs where "serve_request L E1 E2 (hs, c) = Inr (hs', c')" "routed L rs hs'"
    "io c' = io c @ [Async_write bufs]" "\<not> waiting_for_async_reply c'" "c_keep_alive c' = c_keep_alive c"
    "parse_state c' = parse_state c" "same_message L (c_request c) (c_request c')"
    "concat bufs = reply_bytes (route (lib_split L) rs (request_view L (c_request c))) (c_keep_alive c)"
proof -
  define a where "a = route (lib_split L) rs (request_view L (c_request c))"
  obtain c1 where log: "log_request_begin L E1 c = Inr c1" and c1: "c1 = c \<or> c1 = touch_request_id L E1 c"
    using assms(7) by (rule log_request_begin_loggable)
  have req: "same_message L (c_request c) (c_request c1)" using c1 by auto
  then have view: "request_view L (c_request c1) = request_view L (c_request c)"
    by (simp add: same_message_def)
  have same: "io c1 = io c" "c_keep_alive c1 = c_keep_alive c" "parse_state c1 = parse_state c"
    "\<not> waiting_for_async_reply c1" "c_reply c1 = reply_reset L r0" "loggable E2 c1"
    using c1 assms(5,6,8) by (auto simp: loggable_def)
  obtain hs' os where run: "conn_handle_request L hs c1 = Inr (hs', answered os a c1)"
    and os: "os_content L os = snd (snd a)" and hs': "routed L rs hs'"
    using routed_handle_request [OF assms(1,3,4) same(5)] unfolding view a_def by blast
  have "loggable E2 (answered os a c1)" using same(6) by (simp add: loggable_def)
  from http_send_reply_bytes [OF assms(3) this, of os "fst a"] obtain c' bufs where c': "http_send_reply L E2 (answered os a c1) = Inr c'"
    "io c' = io c @ [Async_write bufs]" "c_keep_alive c' = c_keep_alive c"
    "concat bufs = reply_bytes a (c_keep_alive c)"
    using same(1,2) os by (auto simp: reply_bytes_def split: prod.split)
  have "serve_request L E1 E2 (hs, c) = Inr (hs', c')"
    using log run same(4) c'(1) by (simp add: serve_request_def)
  moreover have "\<not> waiting_for_async_reply c'" "parse_state c' = parse_state c"
    using http_send_reply_io(2) [OF c'(1)] http_send_reply_parse_state [OF c'(1)] same(3) by auto
  moreover have "same_message L (c_request c) (c_request c')"
    using same_message_trans [OF req] http_send_reply_request [OF c'(1)] by simp
  ultimately show ?thesis using hs' c'(2-4) that by (simp add: a_def)
qed

section \<open>The parsed request\<close>

lemma wire_parsed:
  assumes "text_law L" and "avro_law L" and "conn_ok L c" and "well_formed L w"
  obtains d where "feed L (wire_events w) c = Inr d" "conn_ok L d"
    "request_view L (c_request d) = message_of L w" "c_reply d = reply_reset L (c_reply c)"
    "c_keep_alive d = (w_keep w \<noteq> 0)" "waiting_for_async_reply d = waiting_for_async_reply c"
    "\<And>E. log_peer E \<noteq> None \<Longrightarrow> loggable E d" "c_request_complete d"
proof -
  have c: "cbuf_alloc (header_key c)" "cbuf_alloc (header_val c)" using assms(3) by (simp_all add: conn_ok_def)
  have ok: "\<forall>u \<in> set (w_target w). piece_ok L u \<and> url_in_range L u" "\<forall>f \<in> set (w_fields w). fits f" "w_method w < 26"
    using assms(4) by (simp_all add: well_formed_def)
  obtain d where d: "feed L (wire_events w) c = Inr d"
    "request_view L (c_request d) = message_of L w" "r_method (c_request d) = Some (method_of_code (w_method w))"
    "c_reply d = reply_reset L (c_reply c)" "c_keep_alive d = (w_keep w \<noteq> 0)"
    "waiting_for_async_reply d = waiting_for_async_reply c" "c_request_complete d"
    using message_of_events [OF assms(1) c ok(1,2), of "w_length w" "w_method w" "w_body w" "w_keep w"]
    by (auto simp: wire_events_def request_view_def message_of_def os_content_foldl [OF assms(2)] avro_lawD(1) [OF assms(2)])
  have "\<And>E. log_peer E \<noteq> None \<Longrightarrow> loggable E d"
    using d(3) ok(3) by (simp add: loggable_def method_code_of_code)
  with d feed_ok [OF d(1) assms(1,3)] that show ?thesis by blast
qed

section \<open>The promise of a connection\<close>

text \<open>
  A connection whose parser has just reported the end of a request, or one on which the last
  request is still marked as complete, with everything a reply needs.
\<close>

definition answerable ::
  "('os, 'p) libs \<Rightarrow> routes \<Rightarrow> ('os, 'p) conn_server \<Rightarrow> log_env \<Rightarrow> log_env \<Rightarrow> ('os, 'p) async_conn \<Rightarrow> bool" where
  "answerable L rs hs E1 E2 c \<longleftrightarrow> routed L rs hs \<and> plain_types rs \<and> conn_ok L c
     \<and> \<not> waiting_for_async_reply c \<and> c_request_complete c \<and> (\<exists>r. c_reply c = reply_reset L r)
     \<and> loggable E1 c \<and> loggable E2 c"

text \<open>
  A connection that reads on after a reply. The flag that the request is complete is still
  set, because only the beginning of the next message clears it; \<open>q\<close> is what is left of the
  request.
\<close>

definition reads_on ::
  "('os, 'p) libs \<Rightarrow> message \<Rightarrow> bool \<Rightarrow> 'p \<Rightarrow> ('os, 'p) async_conn \<Rightarrow> bool" where
  "reads_on L q keep p c \<longleftrightarrow> conn_ok L c \<and> \<not> waiting_for_async_reply c \<and> c_parser c = p
     \<and> Async_read \<in> set (io c) \<and> c_request_complete c \<and> c_keep_alive c = keep
     \<and> (\<exists>r. c_reply c = reply_reset L r) \<and> request_view L (c_request c) = q"

text \<open>
  The contract. \<open>goes_on\<close> tells from the wish of the client whether the connection reads on
  after a reply, \<open>left\<close> what it leaves of the request, and \<open>unfinished\<close> what it asks of Asio
  after a block that does not end a request; \<open>extra\<close> is what it needs of its libraries beyond
  the laws of the texts, the streams and the splitter.
\<close>

locale answering =
  fixes H :: "('os, 'p) handlers"
    and L :: "('os, 'p) libs"
    and goes_on :: "bool \<Rightarrow> bool"
    and left :: "message \<Rightarrow> message"
    and unfinished :: "io_req list"
    and extra :: bool
  assumes unfinished_reads: "Async_read \<in> set unfinished" "write_of unfinished = None"
    and block_kept: "lib_execute L (c_parser c) buf = calls evs (length buf, p) \<Longrightarrow> feed L evs c = Inr d \<Longrightarrow>
      \<not> c_request_complete d \<Longrightarrow>
      H (Read_done E1 E2 Success buf) (hs, c\<lparr>io := []\<rparr>) = Inr (hs, d\<lparr>c_parser := p, io := unfinished\<rparr>)"
    and exchange: "lib_execute L (c_parser c) buf = calls evs (length buf, p) \<Longrightarrow> feed L evs c = Inr d \<Longrightarrow>
      avro_law L \<Longrightarrow> split_law (lib_split L) \<Longrightarrow> extra \<Longrightarrow> answerable L rs hs E1 E2 d \<Longrightarrow>
      \<exists>hs' c' c'' bufs. H (Read_done E1 E2 Success buf) (hs, c\<lparr>io := []\<rparr>) = Inr (hs', c')
        \<and> routed L rs hs' \<and> write_of (io c') = Some bufs
        \<and> concat bufs = reply_bytes (route (lib_split L) rs (request_view L (c_request d))) (c_keep_alive d)
        \<and> H (Write_done E2 Success) (hs', c'\<lparr>io := []\<rparr>) = Inr (hs', c'')
        \<and> (if goes_on (c_keep_alive d)
           then reads_on L (left (request_view L (c_request d))) (c_keep_alive d) p c''
           else Async_read \<notin> set (io c''))"
begin

lemma stops: "Async_read \<notin> set (io c) \<Longrightarrow> session H bs (hs, c) = Inr ([], (hs, c))"
  by (cases bs) auto

text \<open>The last block of a request, and the connection it finds.\<close>

lemma request_arrives:
  assumes "arrives L st p bs evs p'" and "c_parser c = p" and "Async_read \<in> set (io c)"
    and "evs = pre @ [Message_complete k]" and "\<forall>ev \<in> set pre. \<not> is_message_complete ev"
    and "st \<Longrightarrow> \<exists>pre'. pre = Message_begin # pre'" and "\<not> st \<Longrightarrow> \<not> c_request_complete c"
    and "feed L evs c = Inr d"
  shows "\<exists>E1 E2 buf evs' c1. log_peer E1 \<noteq> None \<and> log_peer E2 \<noteq> None
     \<and> lib_execute L (c_parser c1) buf = calls evs' (length buf, p') \<and> Async_read \<in> set (io c1)
     \<and> feed L evs' c1 = Inr (d\<lparr>c_parser := c_parser c1, io := io c1\<rparr>)
     \<and> (\<forall>rest. session H (bs @ rest) (hs, c) = session H ((E1, E2, buf) # rest) (hs, c1))"
  using assms
proof (induction arbitrary: c pre d rule: arrives.induct)
  case (last p buf evs p' E1 E2 st)
  have "d = d\<lparr>c_parser := c_parser c, io := io c\<rparr>"
    using feed_frame [OF last.prems(7)] by (cases d) simp
  with last.prems(7) have "feed L evs c = Inr (d\<lparr>c_parser := c_parser c, io := io c\<rparr>)" by simp
  then show ?case
    using last.hyps last.prems(1,2)
    by (intro exI [of _ E1] exI [of _ E2] exI [of _ buf] exI [of _ evs] exI [of _ c]) simp
next
  case (more p buf evs p1 st bs evs' p' E1 E2)
  obtain pre' x where x: "evs' = pre' @ [x]"
    using arrives_events [OF more.hyps(3)] by (cases evs' rule: rev_cases) auto
  with more.prems(3) have evs': "evs' = pre' @ [Message_complete k]" and pre: "pre = evs @ pre'"
    by simp_all
  from more.prems(7) obtain d1 where d1: "feed L evs c = Inr d1" "feed L evs' d1 = Inr d"
    by (auto simp: feed_append)
  have incomplete: "\<not> c_request_complete d1"
  proof (cases st)
    case True
    with more.hyps(2) more.prems(5) pre have "Message_begin \<in> set evs"
      by (cases evs) auto
    with feed_complete [OF d1(1)] more.prems(4) pre show ?thesis by simp
  next
    case False
    with feed_complete [OF d1(1)] more.prems(4,6) pre show ?thesis by simp
  qed
  define c1 where "c1 = d1\<lparr>c_parser := p1, io := unfinished\<rparr>"
  have block: "H (Read_done E1 E2 Success buf) (hs, c\<lparr>io := []\<rparr>) = Inr (hs, c1)"
    unfolding c1_def using more.hyps(1) more.prems(1) d1(1) incomplete by (intro block_kept) simp_all
  have "feed L evs' c1 = Inr (d\<lparr>c_parser := p1, io := unfinished\<rparr>)"
    using feed_commute [where c = d1] d1(2) by (simp add: c1_def)
  from more.IH [OF _ _ evs' _ _ _ this] more.prems(4) incomplete pre unfinished_reads(1)
  have IH: "\<exists>F1 F2 buf evs c2. log_peer F1 \<noteq> None \<and> log_peer F2 \<noteq> None
     \<and> lib_execute L (c_parser c2) buf = calls evs (length buf, p') \<and> Async_read \<in> set (io c2)
     \<and> feed L evs c2 = Inr (d\<lparr>c_parser := c_parser c2, io := io c2\<rparr>)
     \<and> (\<forall>rest. session H (bs @ rest) (hs, c1) = session H ((F1, F2, buf) # rest) (hs, c2))"
    by (simp add: c1_def)
  have "write_completes H E2 (hs, c1) = Inr ([], (hs, c1))"
    by (simp add: write_completes_def c1_def unfinished_reads(2))
  then have "session H (((E1, E2, buf) # bs) @ rest) (hs, c) = session H (bs @ rest) (hs, c1)" for rest
    using block more.prems(2) by (cases "session H (bs @ rest) (hs, c1)") simp_all
  with IH show ?case by simp
qed

lemma block_replied:
  assumes "lib_execute L (c_parser c) buf = calls evs (length buf, p)" and "feed L evs c = Inr d"
    and "avro_law L" and "split_law (lib_split L)" and extra and "answerable L rs hs E1 E2 d"
    and "Async_read \<in> set (io c)"
  obtains b hs' c' where "\<And>rest. session H ((E1, E2, buf) # rest) (hs, c)
       = bindE (session H rest (hs', c')) (\<lambda>(out, s). Inr (b # out, s))"
    "b = reply_bytes (route (lib_split L) rs (request_view L (c_request d))) (c_keep_alive d)"
    "routed L rs hs'"
    "goes_on (c_keep_alive d) \<Longrightarrow>
       reads_on L (left (request_view L (c_request d))) (c_keep_alive d) p c'"
    "\<not> goes_on (c_keep_alive d) \<Longrightarrow> Async_read \<notin> set (io c')"
proof -
  obtain hs' c1 c2 bufs where x: "H (Read_done E1 E2 Success buf) (hs, c\<lparr>io := []\<rparr>) = Inr (hs', c1)"
    "routed L rs hs'" "write_of (io c1) = Some bufs"
    "concat bufs = reply_bytes (route (lib_split L) rs (request_view L (c_request d))) (c_keep_alive d)"
    "H (Write_done E2 Success) (hs', c1\<lparr>io := []\<rparr>) = Inr (hs', c2)"
    "if goes_on (c_keep_alive d) then reads_on L (left (request_view L (c_request d))) (c_keep_alive d) p c2
     else Async_read \<notin> set (io c2)"
    using exchange [OF assms(1-6)] by blast
  have "write_completes H E2 (hs', c1) = Inr ([concat bufs], (hs', c2))"
    using x(3,5) by (simp add: write_completes_def)
  then have "session H ((E1, E2, buf) # rest) (hs, c)
       = bindE (session H rest (hs', c2)) (\<lambda>(out, s). Inr (concat bufs # out, s))" for rest
    using x(1) assms(7) by simp
  with x(2,4,6) show ?thesis by (intro that [of hs' c2 "concat bufs"]) (simp_all split: if_splits)
qed

text \<open>A connection between two requests: it reads, and whatever the last one left is harmless.\<close>

definition between :: "routes \<Rightarrow> 'p \<Rightarrow> ('os, 'p) session \<Rightarrow> bool" where
  "between rs p s = (case s of (hs, c) \<Rightarrow>
     routed L rs hs \<and> conn_ok L c \<and> \<not> waiting_for_async_reply c \<and> c_parser c = p \<and> Async_read \<in> set (io c))"

lemma request_replied:
  assumes "text_law L" and "avro_law L" and "split_law (lib_split L)" and extra and "plain_types rs"
    and "arrives L True p bs (wire_events w) p'" and "well_formed L w" and "between rs p (hs, c)"
  obtains b hs' c' where "\<And>rest. session H (bs @ rest) (hs, c)
       = bindE (session H rest (hs', c')) (\<lambda>(out, s). Inr (b # out, s))"
    "b = reply_bytes (route (lib_split L) rs (message_of L w)) (w_keep w \<noteq> 0)"
    "routed L rs hs'"
    "goes_on (w_keep w \<noteq> 0) \<Longrightarrow> reads_on L (left (message_of L w)) (w_keep w \<noteq> 0) p' c'"
    "\<not> goes_on (w_keep w \<noteq> 0) \<Longrightarrow> Async_read \<notin> set (io c')"
proof -
  from assms(8) have c: "routed L rs hs" "conn_ok L c" "\<not> waiting_for_async_reply c" "c_parser c = p"
    "Async_read \<in> set (io c)" by (simp_all add: between_def)
  obtain d where d: "feed L (wire_events w) c = Inr d" "conn_ok L d"
    "request_view L (c_request d) = message_of L w" "c_reply d = reply_reset L (c_reply c)"
    "c_keep_alive d = (w_keep w \<noteq> 0)" "waiting_for_async_reply d = waiting_for_async_reply c"
    "\<And>E. log_peer E \<noteq> None \<Longrightarrow> loggable E d" "c_request_complete d"
    using wire_parsed [OF assms(1,2) c(2) assms(7)] by blast
  obtain evs where evs: "wire_events w = (Message_begin # evs) @ [Message_complete (w_keep w)]"
    "\<forall>ev \<in> set evs. \<not> is_message_complete ev"
    using wire_events_shape [of w] by auto
  have shape: "\<forall>ev \<in> set (Message_begin # evs). \<not> is_message_complete ev"
    "True \<Longrightarrow> \<exists>pre'. Message_begin # evs = Message_begin # pre'" "\<not> True \<Longrightarrow> \<not> c_request_complete c"
    using evs(2) by simp_all
  obtain E1 E2 buf evs' c1 where env: "log_peer E1 \<noteq> None" "log_peer E2 \<noteq> None"
    and last: "lib_execute L (c_parser c1) buf = calls evs' (length buf, p')" "Async_read \<in> set (io c1)"
    "feed L evs' c1 = Inr (d\<lparr>c_parser := c_parser c1, io := io c1\<rparr>)"
    and run: "\<And>rest. session H (bs @ rest) (hs, c) = session H ((E1, E2, buf) # rest) (hs, c1)"
    using request_arrives [OF assms(6) c(4,5) evs(1) shape d(1), of hs] by blast
  define e where "e = d\<lparr>c_parser := c_parser c1, io := io c1\<rparr>"
  have e: "request_view L (c_request e) = message_of L w" "c_keep_alive e = (w_keep w \<noteq> 0)"
    using d(3,5) by (simp_all add: e_def)
  have "answerable L rs hs E1 E2 e"
    using c(1,3) assms(5) d(2,4,6,8) d(7) [OF env(1)] d(7) [OF env(2)]
    by (auto simp: e_def answerable_def loggable_def conn_ok_def message_begun_def)
  then show ?thesis
    by (rule block_replied [OF last(1,3) [folded e_def] assms(2-4) _ last(2)])
      (unfold e run [symmetric], erule that)
qed

lemma session_bytes_between:
  assumes "text_law L" and "avro_law L" and "split_law (lib_split L)" and extra and "plain_types rs"
    and "all_arrive L goes_on p bs ws" and "between rs p (hs, c)"
  shows "\<exists>s. session H bs (hs, c) = Inr (session_bytes L goes_on rs ws, s)"
  using assms(6,7)
proof (induction arbitrary: hs c rule: all_arrive.induct)
  case (one p bs w p' bs' ws)
  obtain b hs' c' where b: "session H (bs @ bs') (hs, c)
       = bindE (session H bs' (hs', c')) (\<lambda>(out, s). Inr (b # out, s))"
    "b = reply_bytes (route (lib_split L) rs (message_of L w)) (w_keep w \<noteq> 0)"
    "routed L rs hs'"
    "goes_on (w_keep w \<noteq> 0) \<Longrightarrow> reads_on L (left (message_of L w)) (w_keep w \<noteq> 0) p' c'"
    "\<not> goes_on (w_keep w \<noteq> 0) \<Longrightarrow> Async_read \<notin> set (io c')"
    by (rule request_replied [OF assms(1-5) one.hyps(1,2) one.prems]) blast
  show ?case
  proof (cases "goes_on (w_keep w \<noteq> 0)")
    case False
    with b(1,2,5) show ?thesis by (simp add: stops)
  next
    case True
    with b(3,4) have "between rs p' (hs', c')" by (simp add: between_def reads_on_def)
    with one.IH True obtain s where "session H bs' (hs', c') = Inr (session_bytes L goes_on rs ws, s)" by blast
    with b(1,2) True show ?thesis by simp
  qed
qed simp

lemma session_between:
  assumes "text_law L" and "avro_law L" and "split_law (lib_split L)" and extra and "plain_types rs"
    and "all_arrive L goes_on p bs ws" and "between rs p (hs, c)"
  shows "\<exists>outs s. session H bs (hs, c) = Inr (outs, s)
     \<and> map read_reply outs = map Some (session_replies L goes_on rs ws)"
  using session_bytes_between [OF assms] read_session_bytes [OF assms(5)] by blast

text \<open>A block without any event of a message, after a reply: what is left of the request is answered.\<close>

lemma stray_block:
  assumes "text_law L" and "avro_law L" and "split_law (lib_split L)" and extra and "plain_types rs"
    and "arrives L True p bs (wire_events w) p'" and "well_formed L w" and "between rs p (hs, c)"
    and "goes_on (w_keep w \<noteq> 0)" and "m_method (left (message_of L w)) = m_method (message_of L w)"
    and "lib_execute L p' buf = calls [] (length buf, p'')" and "log_peer E1 \<noteq> None" and "log_peer E2 \<noteq> None"
  shows "\<exists>outs s. session H (bs @ [(E1, E2, buf)]) (hs, c) = Inr (outs, s)
     \<and> map read_reply outs = [Some (reply_of (route (lib_split L) rs (message_of L w)) (w_keep w \<noteq> 0)),
         Some (reply_of (route (lib_split L) rs (left (message_of L w))) (w_keep w \<noteq> 0))]"
proof -
  obtain b hs' c' where b: "session H (bs @ [(E1, E2, buf)]) (hs, c)
       = bindE (session H [(E1, E2, buf)] (hs', c')) (\<lambda>(out, s). Inr (b # out, s))"
    "b = reply_bytes (route (lib_split L) rs (message_of L w)) (w_keep w \<noteq> 0)"
    "routed L rs hs'" "reads_on L (left (message_of L w)) (w_keep w \<noteq> 0) p' c'"
    by (rule request_replied [OF assms(1-8)]) (use assms(9) in blast)
  from b(4) have c': "c_parser c' = p'" "Async_read \<in> set (io c')"
    "request_view L (c_request c') = left (message_of L w)" "c_keep_alive c' = (w_keep w \<noteq> 0)"
    by (simp_all add: reads_on_def)
  have "r_method (c_request c') = Some (method_of_code (w_method w))" "w_method w < 26"
    using arg_cong [OF c'(3), of m_method] assms(7,10)
    by (simp_all add: request_view_def message_of_def Let_def well_formed_def)
  then have "loggable E1 c'" "loggable E2 c'"
    using assms(12,13) by (simp_all add: loggable_def method_code_of_code)
  with b(3,4) assms(5) have ready: "answerable L rs hs' E1 E2 c'"
    by (simp add: answerable_def reads_on_def)
  have exec: "lib_execute L (c_parser c') buf = calls [] (length buf, p'')" "feed L [] c' = Inr c'"
    using assms(11) c'(1) by simp_all
  obtain b' hs'' c'' where "\<And>rest. session H ((E1, E2, buf) # rest) (hs', c')
       = bindE (session H rest (hs'', c'')) (\<lambda>(out, s). Inr (b' # out, s))"
    "b' = reply_bytes (route (lib_split L) rs (left (message_of L w))) (w_keep w \<noteq> 0)"
    by (rule block_replied [OF exec assms(2-4) ready c'(2)]) (unfold c'(3,4), blast)
  with b(1,2) read_reply_bytes [OF route_plain [OF assms(5)]] show ?thesis by simp
qed

end

end
