(* ===== verification/Https_Session.thy ===== *)
theory Https_Session
  imports Session Https_Connection
begin

text \<open>
  The TLS connection keeps the promise of \<open>Session\<close> too, with two differences its handler
  for a finished write makes: it reads on whatever the client asked for, and it leaves the
  request as it was. So its sessions answer every request, and a block without any event of
  a message runs the whole last request again.
\<close>

section \<open>The promise\<close>

lemma request_uuid_consistent:
  "uuid_law L \<Longrightarrow> id_consistent L r \<Longrightarrow> id_consistent L (snd (request_uuid L rnd h r))"
  by (auto simp: request_uuid_def Let_def id_consistent_def uuid_lawD split: option.split)

lemma force_request_uuid_simps [simp]:
  "c_reply (force_request_uuid L rnd c) = c_reply c"
  "c_keep_alive (force_request_uuid L rnd c) = c_keep_alive c"
  "parse_state (force_request_uuid L rnd c) = parse_state c"
  "same_message L (c_request c) (c_request (force_request_uuid L rnd c))"
  "loggable E (force_request_uuid L rnd c) \<longleftrightarrow> loggable E c"
  by (simp_all add: force_request_uuid_def parse_state_def same_message_def request_view_def
      request_uuid_consistent loggable_def)

lemma https_block_read:
  fixes c :: "('os, 'p) async_conn"
  assumes "lib_execute L (c_parser c) buf = calls evs (length buf, p)" and "feed L evs c = Inr d"
  shows "https_handle_read L E1 E2 Success buf (hs, c\<lparr>io := []\<rparr>) =
    (let d = d\<lparr>c_parser := p, io := []\<rparr> in
     if c_request_complete d then serve_request L E1 E2 (hs, force_request_uuid L (log_rnd E1) d)
     else Inr (hs, issue [Timer_expires 5, Timer_wait Handle_timer, Async_read] d))"
  using http_parse_feed [OF assms, of "[]"]
  by (simp add: https_handle_read_def serve_request_def Let_def https_send_reply_http cong: if_cong)

lemma https_reads_on:
  assumes "uuid_law L" and "conn_ok L d" and "parse_state c = parse_state d"
    and "same_message L (c_request d) (c_request c)" and "c_request_complete d" and "\<not> waiting_for_async_reply c"
  shows "reads_on L (request_view L (c_request d)) (c_keep_alive c) (c_parser d)
    (https_handle_write_complete L Success (c\<lparr>io := x\<rparr>))"
  using assms
  by (simp add: reads_on_def https_handle_write_complete_def Let_def)
    (auto simp: conn_ok_def message_begun_def parse_state_def same_message_def reply_reset_def)

interpretation tls_conn: answering "https_handlers L" L "\<lambda>keep. True" "\<lambda>q. q"
  "[Timer_expires 5, Timer_wait Handle_timer, Async_read]" "uuid_law L" for L
proof (unfold_locales, goal_cases)
  case (3 c buf evs p d E1 E2 hs)
  then show ?case using https_block_read [OF 3(1,2), of E1 E2 hs] by (simp add: issue_def)
next
  case (4 c buf evs p d rs hs E1 E2)
  define d0 where "d0 = d\<lparr>c_parser := p, io := []\<rparr>"
  define e where "e = force_request_uuid L (log_rnd E1) d0"
  from 4(6) obtain r where d0: "routed L rs hs" "plain_types rs" "c_reply d0 = reply_reset L r"
    "\<not> waiting_for_async_reply d0" "loggable E1 d0" "loggable E2 d0" "c_request_complete d0" "conn_ok L d0"
    by (auto simp: answerable_def d0_def loggable_def conn_ok_def message_begun_def)
  then have e: "c_reply e = reply_reset L r" "\<not> waiting_for_async_reply e" "loggable E1 e" "loggable E2 e"
    by (simp_all add: e_def)
  obtain hs' c1 bufs where s: "serve_request L E1 E2 (hs, e) = Inr (hs', c1)" "routed L rs hs'"
    "io c1 = io e @ [Async_write bufs]" "\<not> waiting_for_async_reply c1" "c_keep_alive c1 = c_keep_alive e"
    "parse_state c1 = parse_state e" "same_message L (c_request e) (c_request c1)"
    "concat bufs = reply_bytes (route (lib_split L) rs (request_view L (c_request e))) (c_keep_alive e)"
    by (rule serve_request_routed [OF d0(1,2) 4(3,4) e])
  have read: "https_handlers L (Read_done E1 E2 Success buf) (hs, c\<lparr>io := []\<rparr>) = Inr (hs', c1)"
    using https_block_read [OF 4(1,2), of E1 E2 hs] s(1) d0(7) by (simp add: e_def d0_def Let_def)
  have req: "same_message L (c_request d0) (c_request e)" by (simp add: e_def)
  define c2 where "c2 = https_handle_write_complete L Success (c1\<lparr>io := []\<rparr>)"
  have after: "reads_on L (request_view L (c_request d0)) (c_keep_alive c1) (c_parser d0) c2"
    unfolding c2_def using 4(5) d0(7,8) s(4,6) same_message_trans [OF req s(7)]
    by (intro https_reads_on) (simp_all add: e_def)
  have written: "https_handlers L (Write_done E2 Success) (hs', c1\<lparr>io := []\<rparr>) = Inr (hs', c2)"
    "write_of (io c1) = Some bufs"
    using s(3) by (simp_all add: c2_def e_def d0_def)
  have same: "request_view L (c_request e) = request_view L (c_request d)" "c_keep_alive e = c_keep_alive d"
    "request_view L (c_request d0) = request_view L (c_request d)" "c_parser d0 = p"
    using req by (simp_all add: same_message_def e_def d0_def)
  from read s(2,8) after written show ?case unfolding same s(5) if_True by blast
qed simp_all

section \<open>The session\<close>

text \<open>A connection that was accepted and has shaken hands.\<close>

definition tls_ready :: "('os, 'p) libs \<Rightarrow> string \<Rightarrow> char list \<Rightarrow> char list \<Rightarrow> ('os, 'p) async_conn" where
  "tls_ready L tag key value =
     https_handle_handshake Success ((https_start (async_conn_new L tag key value))\<lparr>io := []\<rparr>)"

lemma between_ready:
  assumes "routed L rs hs" and "length key = MAX_HEADER_SIZE" and "length v = MAX_HEADER_SIZE"
  shows "tls_conn.between L rs (lib_parser_init L) (hs, tls_ready L tag key v)"
  using assms
  by (simp add: tls_conn.between_def tls_ready_def https_handle_handshake_def conn_ok_def message_begun_def
      cbuf_alloc_def)
    (simp add: https_start_def async_conn_new_def connection_new_def connection.defs async_conn.defs issue_def)

lemma session_replies_all:
  "session_replies L (\<lambda>keep. True) rs ws
     = map (\<lambda>w. reply_of (route (lib_split L) rs (message_of L w)) (w_keep w \<noteq> 0)) ws"
  by (induction ws) simp_all



section \<open>A block the parser refuses\<close>

text \<open>
  A strict parser refuses whatever follows a message that does not keep the connection. The TLS
  connection, which reads on after its reply, answers that block with 400.
\<close>

theorem https_refuses_after_close:
  assumes "text_law L" and "avro_law L" and "split_law (lib_split L)" and "uuid_law L"
    and "plain_types rs" and "routed L rs hs"
    and "length key = MAX_HEADER_SIZE" and "length v = MAX_HEADER_SIZE"
    and "arrives L True (lib_parser_init L) bs (wire_events w) p" and "well_formed L w"
    and "lib_execute L p buf = calls [] (n, p')" and "n < length buf" and "log_peer E2 \<noteq> None"
  shows "\<exists>outs s. session (https_handlers L) (bs @ [(E1, E2, buf)]) (hs, tls_ready L tag key v) = Inr (outs, s)
     \<and> map read_reply outs = [Some (reply_of (route (lib_split L) rs (message_of L w)) (w_keep w \<noteq> 0)),
         Some (status_text bad_request, [\<lparr>name = ''Content-Length'', val = ''0''\<rparr>] @ closing_headers (w_keep w \<noteq> 0), [])]"
proof -
  obtain b hs' c' where b: "session (https_handlers L) (bs @ [(E1, E2, buf)]) (hs, tls_ready L tag key v)
       = bindE (session (https_handlers L) [(E1, E2, buf)] (hs', c')) (\<lambda>(out, s). Inr (b # out, s))"
    "b = reply_bytes (route (lib_split L) rs (message_of L w)) (w_keep w \<noteq> 0)"
    "reads_on L (message_of L w) (w_keep w \<noteq> 0) p c'"
    by (rule tls_conn.request_replied [OF assms(1-5,9,10) between_ready [OF assms(6-8)]]) blast
  from b(3) obtain r where c': "c_parser c' = p" "Async_read \<in> set (io c')" "c_reply c' = reply_reset L r"
    "request_view L (c_request c') = message_of L w" "c_keep_alive c' = (w_keep w \<noteq> 0)"
    by (auto simp: reads_on_def)
  have "r_method (c_request c') = Some (method_of_code (w_method w))" "w_method w < 26"
    using arg_cong [OF c'(4), of m_method] assms(10) by (simp_all add: request_view_def message_of_def well_formed_def)
  then have log: "loggable E2 c'" using assms(13) by (simp add: loggable_def method_code_of_code)
  define c1 where "c1 = c'\<lparr>io := [], c_parser := p'\<rparr>"
  define c2 where "c2 = c1\<lparr>c_reply := (c_reply c1)\<lparr>p_status := Some bad_request,
    p_headers := [\<lparr>name = ''Content-Length'', val = ''0''\<rparr>]\<rparr>\<rparr>"
  have parse: "http_parse L buf (c'\<lparr>io := []\<rparr>) = Inr (n, c1)"
    using http_parse_calls [of L "c'\<lparr>io := []\<rparr>" buf "[]" n p'] assms(11) c'(1) by (simp add: c1_def)
  have create: "conn_create L bad_request c1 = Inr c2"
    using conn_create_empty [OF assms(2), of c1 "lib_os_new L"] assms(2) c'(3)
    by (simp add: c1_def c2_def reply_reset_def avro_lawD)
  have c2: "loggable E2 c2" "p_avro_tx (c_reply c2) = Some (lib_os_new L)" "p_status (c_reply c2) = Some bad_request"
    "\<forall>h \<in> set (p_headers (c_reply c2)). wf_header h" "c_keep_alive c2 = (w_keep w \<noteq> 0)" "io c2 = []"
    "p_headers (c_reply c2) = [\<lparr>name = ''Content-Length'', val = ''0''\<rparr>]"
    using log c'(3,5) by (simp_all add: c1_def c2_def loggable_def reply_reset_def wf_header_def CR_def)
  obtain c3 bufs where c3: "http_send_reply L E2 c2 = Inr c3" "io c3 = io c2 @ [Async_write bufs]"
    "read_reply (concat bufs) = Some (status_text bad_request,
       p_headers (c_reply c2) @ closing_headers (c_keep_alive c2), os_content L (lib_os_new L))"
    by (rule http_send_reply_wire [OF assms(2) c2(1-4)])
  have "https_handlers L (Read_done E1 E2 Success buf) (hs', c'\<lparr>io := []\<rparr>) = Inr (hs', c3)"
    using parse create c3(1) assms(12) by (simp add: https_handle_read_def https_send_reply_http)
  moreover have "\<exists>s. write_completes (https_handlers L) E2 (hs', c3) = Inr ([concat bufs], s)"
    using c3(2) c2(6) by (simp add: write_completes_def)
  ultimately obtain s where "session (https_handlers L) [(E1, E2, buf)] (hs', c') = Inr ([concat bufs], s)"
    using c'(2) by auto
  with b(1,2) c3(3) c2(5,7) assms(2) read_reply_bytes [OF route_plain [OF assms(5)]] show ?thesis
    by (simp add: avro_lawD)
qed

theorem https_refuses_after_close_witness:
  "let L = ref_libs [(request_events ''/a'' [] 0 1 [] 0, 1), ([], 0)];
       hs = [handler_data_new split_slash ''/a'' (respond L (\<lambda>ps q. (ok, ''text/plain'', m_path (request_view L q)))) 0]
   in \<exists>outs s. session (https_handlers L) [(peer_env, peer_env, ''.''), (peer_env, peer_env, ''G'')]
         (hs, tls_ready L ''id'' (replicate MAX_HEADER_SIZE NUL) (replicate MAX_HEADER_SIZE NUL)) = Inr (outs, s)
      \<and> map read_reply outs = [Some (status_text ok, content_headers ''text/plain'' 2 @ closing_headers False, ''/a''),
          Some (status_text bad_request, [\<lparr>name = ''Content-Length'', val = ''0''\<rparr>] @ closing_headers False, [])]"
proof -
  define L where "L = ref_libs [(request_events ''/a'' [] 0 1 [] 0, 1), ([], 0)]"
  define g where "g = (\<lambda>(ps :: string list) (q :: message). (ok, ''text/plain'', m_path q))"
  let ?hs = "[handler_data_new split_slash ''/a'' (respond L (\<lambda>ps q. g ps (request_view L q))) 0]"
  let ?w = "\<lparr>w_target = [''/a''], w_fields = [], w_length = 0, w_method = 1, w_body = [], w_keep = 0\<rparr>"
  have peer: "log_peer peer_env \<noteq> None" by (simp add: peer_env_def)
  have init: "lib_parser_init L = [(request_events ''/a'' [] 0 1 [] 0, 1), ([], 0)]"
    and exec: "lib_execute L = script_execute" "lib_split L = split_slash" by (simp_all add: L_def)
  have form: "well_formed L ?w" by (simp add: well_formed_def L_def)
  have one: "arrives L True (lib_parser_init L) [(peer_env, peer_env, ''.'')] (wire_events ?w) [([], 0)]"
    unfolding init by (rule arrives.last [OF _ _ peer peer]; simp add: exec wire_events_def request_events_message)
  have refused: "lib_execute L [([], 0)] ''G'' = calls [] (0, [])" by (simp add: exec)
  have laws: "text_law L" "avro_law L" "split_law (lib_split L)" "uuid_law L"
    by (simp_all add: L_def split_law_split_slash)
  have rs: "plain_types [(''/a'', g)]" "routed L [(''/a'', g)] ?hs"
    by (auto simp: plain_types_def g_def CR_def routed_def route_handler_def exec)
  have "reply_of (route (lib_split L) [(''/a'', g)] (message_of L ?w)) (w_keep ?w \<noteq> 0)
      = (status_text ok, content_headers ''text/plain'' 2 @ closing_headers False, ''/a'')"
    by (simp add: exec message_of_def uri_matches_Cons reply_of_def g_def)
      (simp add: L_def content_headers_def uri_matches_Cons eval_nat_numeral)
  then show ?thesis
    using https_refuses_after_close [OF laws rs length_replicate length_replicate one form refused _ peer,
        of peer_env "''id''" NUL NUL]
    unfolding Let_def L_def [symmetric] by (simp add: g_def)
qed

section \<open>A block with nothing in it\<close>

text \<open>
  C38. One request, run twice: after its reply the TLS connection still holds the request and
  the flag that it is complete, so a block that makes the parser call nothing, such as the
  empty line that some clients send after the body of a request, hands the same request with
  its path, headers and body to the server once more, and the answer is written once more.
\<close>

theorem https_stray_block_repeats:
  assumes "text_law L" and "avro_law L" and "split_law (lib_split L)" and "uuid_law L"
    and "plain_types rs" and "routed L rs hs"
    and "length key = MAX_HEADER_SIZE" and "length v = MAX_HEADER_SIZE"
    and "arrives L True (lib_parser_init L) bs (wire_events w) p" and "well_formed L w"
    and "lib_execute L p buf = calls [] (length buf, p')" and "log_peer E1 \<noteq> None" and "log_peer E2 \<noteq> None"
  shows "\<exists>outs s. session (https_handlers L) (bs @ [(E1, E2, buf)]) (hs, tls_ready L tag key v) = Inr (outs, s)
     \<and> map read_reply outs
         = replicate 2 (Some (reply_of (route (lib_split L) rs (message_of L w)) (w_keep w \<noteq> 0)))"
  using tls_conn.stray_block [OF assms(1-5,9,10) between_ready [OF assms(6-8)] TrueI refl assms(11-13)]
  by (simp add: numeral_2_eq_2)

theorem https_stray_block_repeats_witness:
  "let L = ref_libs [(request_events ''/a'' [] 2 3 [''hi''] 1, 1), ([], 2)];
       hs = [handler_data_new split_slash ''/a'' (respond L (\<lambda>ps q. (created, ''text/plain'', m_body (request_view L q)))) 0]
   in \<exists>outs s. session (https_handlers L) [(peer_env, peer_env, ''.''), (peer_env, peer_env, [CR, CHR 0x0A])]
         (hs, tls_ready L ''id'' (replicate MAX_HEADER_SIZE NUL) (replicate MAX_HEADER_SIZE NUL)) = Inr (outs, s)
      \<and> map read_reply outs = replicate 2 (Some (status_text created, content_headers ''text/plain'' 2, ''hi''))"
proof -
  define L where "L = ref_libs [(request_events ''/a'' [] 2 3 [''hi''] 1, 1), ([], 2)]"
  define g where "g = (\<lambda>(ps :: string list) (q :: message). (created, ''text/plain'', m_body q))"
  let ?hs = "[handler_data_new split_slash ''/a'' (respond L (\<lambda>ps q. g ps (request_view L q))) 0]"
  let ?w = "\<lparr>w_target = [''/a''], w_fields = [], w_length = 2, w_method = 3, w_body = [''hi''], w_keep = 1\<rparr>"
  have peer: "log_peer peer_env \<noteq> None" by (simp add: peer_env_def)
  have init: "lib_parser_init L = [(request_events ''/a'' [] 2 3 [''hi''] 1, 1), ([], 2)]"
    and exec: "lib_execute L = script_execute" "lib_split L = split_slash" by (simp_all add: L_def)
  have form: "well_formed L ?w" by (simp add: well_formed_def L_def single_pieces)
  have one: "arrives L True (lib_parser_init L) [(peer_env, peer_env, ''.'')] (wire_events ?w) [([], 2)]"
    unfolding init by (rule arrives.last [OF _ _ peer peer]; simp add: exec wire_events_def request_events_message)
  have empty: "lib_execute L [([], 2)] [CR, CHR 0x0A] = calls [] (length [CR, CHR 0x0A], [])"
    by (simp add: exec)
  have laws: "text_law L" "avro_law L" "split_law (lib_split L)" "uuid_law L"
    by (simp_all add: L_def split_law_split_slash)
  have rs: "plain_types [(''/a'', g)]" "routed L [(''/a'', g)] ?hs"
    by (auto simp: plain_types_def g_def CR_def routed_def route_handler_def exec)
  have "reply_of (route (lib_split L) [(''/a'', g)] (message_of L ?w)) (w_keep ?w \<noteq> 0)
      = (status_text created, content_headers ''text/plain'' 2, ''hi'')"
    by (simp add: exec message_of_def single_pieces uri_matches_Cons reply_of_def g_def
        closing_headers_def) (simp add: L_def single_pieces content_headers_def uri_matches_Cons
        eval_nat_numeral)
  moreover obtain outs s where "session (https_handlers L) ([(peer_env, peer_env, ''.'')]
        @ [(peer_env, peer_env, [CR, CHR 0x0A])]) (?hs, tls_ready L ''id''
        (replicate MAX_HEADER_SIZE NUL) (replicate MAX_HEADER_SIZE NUL)) = Inr (outs, s)"
    "map read_reply outs
       = replicate 2 (Some (reply_of (route (lib_split L) [(''/a'', g)] (message_of L ?w)) (w_keep ?w \<noteq> 0)))"
    using https_stray_block_repeats [OF laws rs length_replicate length_replicate one form empty peer peer,
        of "''id''" NUL NUL] by blast
  ultimately show ?thesis
    unfolding Let_def L_def [symmetric]
    by (intro exI [of _ outs] exI [of _ s]) (simp only: g_def append.simps simp_thms)
qed

end
