(* ===== verification/Http_Session.thy ===== *)
theory Http_Session
  imports Session
begin

text \<open>
  The plain connection keeps the promise of \<open>Session\<close>: its sessions refine the abstract
  server and end with the first request that does not keep the connection. At the end, what
  a block without any event of a message does to a kept connection.
\<close>

section \<open>The promise\<close>

text \<open>\<^verbatim>\<open>handle_write\<close> resets the request, all but its method.\<close>

definition emptied :: "message \<Rightarrow> message" where
  "emptied q = q\<lparr>m_path := [], m_query := [], m_headers := [], m_body := []\<rparr>"

lemma http_block_read:
  fixes c :: "('os, 'p) async_conn"
  assumes "lib_execute L (c_parser c) buf = calls evs (length buf, p)" and "feed L evs c = Inr d"
  shows "http_handle_read L E1 E2 Success buf (hs, c\<lparr>io := []\<rparr>) =
    (let d = d\<lparr>c_parser := p, io := [Timer_cancel]\<rparr> in
     if c_request_complete d then serve_request L E1 E2 (hs, d)
     else Inr (hs, issue [Timer_expires 5, Timer_wait Handle_timer, Async_read] d))"
proof -
  have "issue [Timer_cancel] (c\<lparr>io := []\<rparr>) = c\<lparr>io := [Timer_cancel]\<rparr>" by (simp add: issue_def)
  with http_parse_feed [OF assms, of "[Timer_cancel]"] show ?thesis
    by (simp add: http_handle_read_def serve_request_def Let_def)
qed

lemma request_view_reset:
  "avro_law L \<Longrightarrow> request_view L (request_reset L r) = emptied (request_view L r)"
  by (simp add: request_view_def request_reset_def emptied_def avro_lawD)

lemma http_reads_on:
  assumes "avro_law L" and "conn_ok L d" and "parse_state c = parse_state d"
    and "request_view L (c_request c) = request_view L (c_request d)" and "c_request_complete d"
    and "\<not> waiting_for_async_reply c" and "c_keep_alive c"
  shows "reads_on L (emptied (request_view L (c_request d))) True (c_parser d)
    (http_handle_write L Success (c\<lparr>io := x\<rparr>))"
  using assms
  by (simp add: reads_on_def http_handle_write_def Let_def request_view_reset)
    (auto simp: conn_ok_def message_begun_def parse_state_def reply_reset_def)

interpretation plain_conn: answering "http_handlers L" L "\<lambda>keep. keep" emptied
  "[Timer_cancel, Timer_expires 5, Timer_wait Handle_timer, Async_read]" True for L
proof (unfold_locales, goal_cases)
  case (3 c buf evs p d E1 E2 hs)
  then show ?case using http_block_read [OF 3(1,2), of E1 E2 hs] by (simp add: issue_def)
next
  case (4 c buf evs p d rs hs E1 E2)
  define e where "e = d\<lparr>c_parser := p, io := [Timer_cancel]\<rparr>"
  from 4(6) obtain r where d: "routed L rs hs" "plain_types rs" "c_reply e = reply_reset L r"
    "\<not> waiting_for_async_reply e" "loggable E1 e" "loggable E2 e" "c_request_complete e" "conn_ok L e"
    by (auto simp: answerable_def e_def loggable_def conn_ok_def message_begun_def)
  obtain hs' c1 bufs where s: "serve_request L E1 E2 (hs, e) = Inr (hs', c1)" "routed L rs hs'"
    "io c1 = io e @ [Async_write bufs]" "\<not> waiting_for_async_reply c1" "c_keep_alive c1 = c_keep_alive e"
    "parse_state c1 = parse_state e" "same_message L (c_request e) (c_request c1)"
    "concat bufs = reply_bytes (route (lib_split L) rs (request_view L (c_request e))) (c_keep_alive e)"
    by (rule serve_request_routed [OF d(1,2) 4(3,4) d(3-6)])
  have read: "http_handlers L (Read_done E1 E2 Success buf) (hs, c\<lparr>io := []\<rparr>) = Inr (hs', c1)"
    using http_block_read [OF 4(1,2), of E1 E2 hs] s(1) d(7) by (simp add: e_def Let_def)
  define c2 where "c2 = http_handle_write L Success (c1\<lparr>io := []\<rparr>)"
  have after: "if c_keep_alive e then reads_on L (emptied (request_view L (c_request e))) (c_keep_alive e) p c2
        else Async_read \<notin> set (io c2)"
    using http_reads_on [OF 4(3) d(8) s(6), of "[]"] s(4,5,7) d(7)
    by (simp add: c2_def same_message_def e_def http_handle_write_io)
  have written: "http_handlers L (Write_done E2 Success) (hs', c1\<lparr>io := []\<rparr>) = Inr (hs', c2)"
    "write_of (io c1) = Some bufs"
    using s(3) by (simp_all add: c2_def e_def)
  have same: "c_request e = c_request d" "c_keep_alive e = c_keep_alive d" by (simp_all add: e_def)
  from read s(2,8) after written show ?case unfolding same by blast
qed simp_all

lemma between_accepted:
  assumes "routed L rs hs" and "length key = MAX_HEADER_SIZE" and "length v = MAX_HEADER_SIZE"
  shows "plain_conn.between L rs (lib_parser_init L) (hs, http_start (async_conn_new L tag key v))"
  using assms
  by (simp add: plain_conn.between_def http_start_def conn_ok_def message_begun_def cbuf_alloc_def)
    (simp add: async_conn_new_def connection_new_def connection.defs async_conn.defs issue_def)

section \<open>The session\<close>

text \<open>
  C4. A whole session on an accepted connection refines the abstract server: whatever list
  of well-formed requests the client sends, each after the reply to the one before, and
  however the network cuts their headers and bodies into reads (and their targets, where each
  part parses by itself; \<open>split_target_refused\<close> of theory \<open>Http_Exchange\<close> is what happens where
  it does not), the writes of the connection, read back, are
  the replies of the registered functions, one per request and in order, \<^verbatim>\<open>not_found\<close> where
  no pattern matches, up to and including the first request that does not keep the
  connection; nothing is written for later ones, whatever the client sends. The session is a
  run of the system of \<open>Async_Connection\<close>, so its invariants hold in it.
\<close>

theorem http_session_refines:
  assumes "text_law L" and "avro_law L" and "split_law (lib_split L)"
    and "plain_types rs" and "routed L rs hs"
    and "length key = MAX_HEADER_SIZE" and "length v = MAX_HEADER_SIZE"
    and "all_arrive L (\<lambda>keep. keep) (lib_parser_init L) bs ws"
  shows "\<exists>outs s. session (http_handlers L) bs (hs, http_start (async_conn_new L tag key v)) = Inr (outs, s)
     \<and> map read_reply outs = map Some (session_replies L (\<lambda>keep. keep) rs ws)
     \<and> (\<exists>p. reachable (http_handlers L) (http_initial L hs tag key v) (s, p))"
proof -
  define c where "c = http_start (async_conn_new L tag key v)"
  have start: "plain_conn.between L rs (lib_parser_init L) (hs, c)"
    unfolding c_def using between_accepted [OF assms(5-7)] .
  obtain outs s where run: "session (http_handlers L) bs (hs, c) = Inr (outs, s)"
    "map read_reply outs = map Some (session_replies L (\<lambda>keep. keep) rs ws)"
    using plain_conn.session_between [OF assms(1-3) TrueI assms(4,8) start] by blast
  have "http_initial L hs tag key v = ((hs, c), settle c c no_pending)"
    by (simp add: http_initial_def c_def Let_def)
  then have "\<exists>p. reachable (http_handlers L) (http_initial L hs tag key v) (s, p)"
    using session_reachable [OF run(1) reachable.init [of "http_handlers L" "((hs, c), settle c c no_pending)"]]
      settle_pending(1) [of c c no_pending] by simp
  with run show ?thesis unfolding c_def by blast
qed

text \<open>Two requests, the first in two reads; a third after the connection said close.\<close>

definition session_script :: script where
  "session_script =
     [([Message_begin, Url ''/a''], 1), ([Headers_complete 2 3, Body ''hi'', Message_complete 1], 1),
      (request_events ''/x'' [] 0 1 [] 0, 1), (request_events ''/a'' [] 0 1 [] 1, 1)]"

theorem http_session_refines_witness:
  "let L = ref_libs session_script; g = (\<lambda>ps q. (ok, ''text/plain'', m_path q @ m_body q));
       hs = [handler_data_new split_slash ''/a'' (respond L (\<lambda>ps q. g ps (request_view L q))) 0];
       c = async_conn_new L ''id'' (replicate MAX_HEADER_SIZE NUL) (replicate MAX_HEADER_SIZE NUL)
   in \<exists>outs s. session (http_handlers L) (map (\<lambda>b. (peer_env, peer_env, b)) [''1'', ''2'', ''3'', ''4'']) (hs, http_start c)
        = Inr (outs, s)
      \<and> map read_reply outs = [Some (status_text ok, content_headers ''text/plain'' 4, ''/ahi''),
          Some (status_text not_found, [\<lparr>name = ''Content-Length'', val = ''0''\<rparr>,
            \<lparr>name = ''Connection'', val = ''close''\<rparr>], [])]"
proof -
  define L where "L = ref_libs session_script"
  define g where "g = (\<lambda>(ps :: string list) (q :: message). (ok, ''text/plain'', m_path q @ m_body q))"
  let ?hs = "[handler_data_new split_slash ''/a'' (respond L (\<lambda>ps q. g ps (request_view L q))) 0]"
  let ?w1 = "\<lparr>w_target = [''/a''], w_fields = [], w_length = 2, w_method = 3, w_body = [''hi''], w_keep = 1\<rparr>"
  let ?w2 = "\<lparr>w_target = [''/x''], w_fields = [], w_length = 0, w_method = 1, w_body = [], w_keep = 0\<rparr>"
  let ?w3 = "\<lparr>w_target = [''/a''], w_fields = [], w_length = 0, w_method = 1, w_body = [], w_keep = 1\<rparr>"
  let ?b = "\<lambda>b. (peer_env, peer_env, b)"
  have peer: "log_peer peer_env \<noteq> None" by (simp add: peer_env_def)
  have exec: "lib_execute L = script_execute" "lib_split L = split_slash" by (simp_all add: L_def)
  have form: "well_formed L ?w1" "well_formed L ?w2" "well_formed L ?w3"
    by (simp_all add: well_formed_def L_def single_pieces)
  have two: "arrives L True session_script [?b ''1'', ?b ''2'']
      ([Message_begin, Url ''/a''] @ [Headers_complete 2 3, Body ''hi'', Message_complete 1])
      [(request_events ''/x'' [] 0 1 [] 0, 1), (request_events ''/a'' [] 0 1 [] 1, 1)]"
    by (rule arrives.more [where ?p1.0 = "tl session_script", OF _ _ arrives.last [OF _ _ peer peer]])
      (simp_all add: exec session_script_def)
  have one: "arrives L True [(request_events ''/x'' [] 0 1 [] 0, 1), (request_events ''/a'' [] 0 1 [] 1, 1)]
      [?b ''3''] (wire_events ?w2) [(request_events ''/a'' [] 0 1 [] 1, 1)]"
    "arrives L True [(request_events ''/a'' [] 0 1 [] 1, 1)] [?b ''4''] (wire_events ?w3) []"
    by (rule arrives.last [OF _ _ peer peer]; simp add: exec wire_events_def request_events_message)+
  have first: "arrives L True session_script [?b ''1'', ?b ''2''] (wire_events ?w1)
      [(request_events ''/x'' [] 0 1 [] 0, 1), (request_events ''/a'' [] 0 1 [] 1, 1)]"
    using two by (simp add: wire_events_def message_events_def header_events_def)
  note arrived = all_arrive.one [OF first form(1) impI [OF all_arrive.one [OF one(1) form(2)
        impI [OF all_arrive.one [OF one(2) form(3) impI [OF all_arrive.none]]]]]]
  have parser: "lib_parser_init L = session_script" by (simp add: L_def)
  have all: "all_arrive L (\<lambda>keep. keep) (lib_parser_init L) (map ?b [''1'', ''2'', ''3'', ''4'']) [?w1, ?w2, ?w3]"
    unfolding parser using arrived by simp
  have laws: "text_law L" "avro_law L" "split_law (lib_split L)" by (simp_all add: L_def split_law_split_slash)
  have rs: "plain_types [(''/a'', g)]" by (simp add: plain_types_def g_def CR_def)
  have hs: "routed L [(''/a'', g)] ?hs" by (auto simp: routed_def route_handler_def exec)
  have "session_replies L (\<lambda>keep. keep) [(''/a'', g)] [?w1, ?w2, ?w3]
      = [(status_text ok, content_headers ''text/plain'' 4, ''/ahi''),
         (status_text not_found, [\<lparr>name = ''Content-Length'', val = ''0''\<rparr>,
            \<lparr>name = ''Connection'', val = ''close''\<rparr>], [])]"
    by (simp add: exec message_of_def single_pieces uri_matches_Cons reply_of_def g_def
        closing_headers_def) (simp add: L_def single_pieces content_headers_def uri_matches_Cons
        eval_nat_numeral)
  moreover obtain outs s where "session (http_handlers L) (map ?b [''1'', ''2'', ''3'', ''4'']) (?hs, http_start
        (async_conn_new L ''id'' (replicate MAX_HEADER_SIZE NUL) (replicate MAX_HEADER_SIZE NUL))) = Inr (outs, s)"
    "map read_reply outs = map Some (session_replies L (\<lambda>keep. keep) [(''/a'', g)] [?w1, ?w2, ?w3])"
    using http_session_refines [OF laws rs hs length_replicate length_replicate all, of "''id''" NUL NUL] by blast
  ultimately show ?thesis
    unfolding Let_def L_def [symmetric] g_def [symmetric]
    by (intro exI [of _ outs] exI [of _ s] conjI) (simp_all only: list.map)
qed

section \<open>A block with nothing in it\<close>

text \<open>
  One request, two replies: the flag that a request is complete outlives the reply, so
  a block that makes the parser call nothing, such as an empty line a client adds after a
  request on a kept connection, is answered too. The functions of the application are asked
  again, about the method of the old request without path, headers and body, and their
  answer is written, unasked for, ahead of the reply to the next request.
\<close>

theorem stray_block_answered:
  assumes "text_law L" and "avro_law L" and "split_law (lib_split L)"
    and "plain_types rs" and "routed L rs hs"
    and "length key = MAX_HEADER_SIZE" and "length v = MAX_HEADER_SIZE"
    and "arrives L True (lib_parser_init L) bs (wire_events w) p" and "well_formed L w" and "w_keep w \<noteq> 0"
    and "lib_execute L p buf = calls [] (length buf, p')" and "log_peer E1 \<noteq> None" and "log_peer E2 \<noteq> None"
  shows "\<exists>outs s. session (http_handlers L) (bs @ [(E1, E2, buf)])
         (hs, http_start (async_conn_new L tag key v)) = Inr (outs, s)
     \<and> map read_reply outs = [Some (reply_of (route (lib_split L) rs (message_of L w)) True),
         Some (reply_of (route (lib_split L) rs (emptied (message_of L w))) True)]"
proof -
  have "m_method (emptied (message_of L w)) = m_method (message_of L w)" by (simp add: emptied_def)
  from plain_conn.stray_block [OF assms(1-3) TrueI assms(4,8,9) between_accepted [OF assms(5-7)]
      assms(10) this assms(11-13)] assms(10)
  show ?thesis by simp
qed

theorem stray_block_answered_witness:
  "let L = ref_libs [(request_events ''/a'' [] 0 3 [''hi''] 1, 1), ([], 2)]
   in \<exists>outs s. session (http_handlers L) [(peer_env, peer_env, ''.''), (peer_env, peer_env, [CR, CHR 0x0A])]
         ([], http_start (async_conn_new L ''id'' (replicate MAX_HEADER_SIZE NUL) (replicate MAX_HEADER_SIZE NUL)))
        = Inr (outs, s)
      \<and> map read_reply outs = [Some (status_text not_found, content_headers default_content_type 0, []),
          Some (status_text not_found, content_headers default_content_type 0, [])]"
proof -
  define L where "L = ref_libs [(request_events ''/a'' [] 0 3 [''hi''] 1, 1), ([], 2)]"
  let ?w = "\<lparr>w_target = [''/a''], w_fields = [], w_length = 0, w_method = 3, w_body = [''hi''], w_keep = 1\<rparr>"
  have peer: "log_peer peer_env \<noteq> None" by (simp add: peer_env_def)
  have init: "lib_parser_init L = [(request_events ''/a'' [] 0 3 [''hi''] 1, 1), ([], 2)]"
    and exec: "lib_execute L = script_execute" by (simp_all add: L_def)
  have form: "well_formed L ?w" by (simp add: well_formed_def L_def single_pieces)
  have one: "arrives L True (lib_parser_init L) [(peer_env, peer_env, ''.'')] (wire_events ?w) [([], 2)]"
    unfolding init by (rule arrives.last [OF _ _ peer peer]; simp add: exec wire_events_def request_events_message)
  have empty: "lib_execute L [([], 2)] [CR, CHR 0x0A] = calls [] (length [CR, CHR 0x0A], [])"
    by (simp add: exec)
  have laws: "text_law L" "avro_law L" "split_law (lib_split L)"
    by (simp_all add: L_def split_law_split_slash)
  have rs: "plain_types []" "routed L [] []" by (simp_all add: plain_types_def routed_def)
  show ?thesis
    unfolding Let_def L_def [symmetric]
    using stray_block_answered [OF laws rs _ _ one form _ empty peer peer, of "replicate MAX_HEADER_SIZE NUL"
        "replicate MAX_HEADER_SIZE NUL" "''id''"]
    by (simp add: reply_of_def closing_headers_def)
qed

end
