(* ===== verification/Served_Clients.thy ===== *)
theory Served_Clients
  imports Server_Process Https_Session Http_Session
begin

text \<open>
  What the clients of a server see. A client is one connection of a process, among others; the
  bytes written to it are collected during the run (\<open>process_out\<close>). By \<open>isolated\<close> they are those
  of the connection run alone, and a connection that is fed reads and completed writes runs the
  session of theory \<open>Session\<close>, which refines the abstract server. The completions of its timer
  waits, which Asio delivers for every wait that is cancelled too, change nothing in that.
\<close>

section \<open>The bytes written to one client\<close>

definition deliver_out ::
  "('os, 'p) server_class \<Rightarrow> conn_event \<Rightarrow> ('os, 'p) session \<times> pending \<Rightarrow> string list" where
  "deliver_out K ev s = (case s of ((hs, c), p) \<Rightarrow>
     (case take_event ev p of None \<Rightarrow> []
      | Some q \<Rightarrow> (case handle_event K ev (hs, c\<lparr>io := []\<rparr>) of Inl f \<Rightarrow> []
         | Inr (hs', c') \<Rightarrow> (case write_of (io c') of None \<Rightarrow> [] | Some bufs \<Rightarrow> [concat bufs]))))"

fun alone_out ::
  "('os, 'p) server_class \<Rightarrow> conn_event list \<Rightarrow> ('os, 'p) session \<times> pending \<Rightarrow> string list" where
  "alone_out K [] s = []"
| "alone_out K (ev # evs) s =
     deliver_out K ev s @ (case deliver K ev s of Inl f \<Rightarrow> [] | Inr t \<Rightarrow> alone_out K evs t)"

fun step_out :: "nat \<Rightarrow> ('os, 'p) server_class \<Rightarrow> process_event \<Rightarrow> ('os, 'p) process \<Rightarrow> string list" where
  "step_out i K (Accept_done key value success) s = []"
| "step_out i K (On_connection j ev) s =
     (if j = i \<and> i < length (sessions (front s)) then deliver_out K ev (connection_at i s) else [])"

fun process_out ::
  "nat \<Rightarrow> ('os, 'p) server_class \<Rightarrow> process_event list \<Rightarrow> ('os, 'p) process \<Rightarrow> string list" where
  "process_out i K [] s = []"
| "process_out i K (e # es) s =
     step_out i K e s @ (case process_step K e s of Inl f \<Rightarrow> [] | Inr t \<Rightarrow> process_out i K es t)"

context isolated
begin

lemma deliver_out_consistent:
  assumes "sc_handlers K = H" and "uncounted hs = uncounted hs'"
  shows "deliver_out K ev ((hs, c), p) = deliver_out K ev ((hs', c), p)"
proof -
  have out: "outcome_of m = outcome_of m' \<Longrightarrow>
      (case m of Inl f \<Rightarrow> [] | Inr (hs', c') \<Rightarrow> (case write_of (io c') of None \<Rightarrow> [] | Some bufs \<Rightarrow> [concat bufs]))
      = (case m' of Inl f \<Rightarrow> [] | Inr (hs', c') \<Rightarrow> (case write_of (io c') of None \<Rightarrow> [] | Some bufs \<Rightarrow> [concat bufs]))"
    for m m' :: "(('os, 'p) conn_server \<times> ('os, 'p) async_conn) res"
    by (cases m; cases m') (auto split: prod.splits)
  have "outcome_of (handle_event K ev (hs, c\<lparr>io := []\<rparr>)) = outcome_of (handle_event K ev (hs', c\<lparr>io := []\<rparr>))"
  proof (cases ev)
    case (Delivered k e)
    then show ?thesis using consistent [OF assms(2), of e "c\<lparr>io := []\<rparr>"] assms(1) by simp
  next
    case (Answered E)
    then show ?thesis by (simp add: sum.map_comp o_def)
  qed
  from out [OF this] show ?thesis by (simp add: deliver_out_def split: option.split)
qed

lemma out_isolated:
  assumes K: "sc_handlers K = H" "accepts_with K start"
  shows "run_process K es s = Inr s' \<Longrightarrow> process_ok s \<Longrightarrow> i < length (sessions (front s)) \<Longrightarrow>
     uncounted hs = uncounted (registered s) \<Longrightarrow>
     process_out i K es s = alone_out K (events_of i es) ((hs, sessions (front s) ! i), outstanding s ! i)"
proof (induction es arbitrary: s hs)
  case Nil
  then show ?case by simp
next
  case (Cons e es)
  from Cons.prems(1) obtain s1 where s1: "process_step K e s = Inr s1" and rest: "run_process K es s1 = Inr s'" by auto
  have one: "run_process K [e] s = Inr s1" using s1 by simp
  have step: "\<exists>hs'. run_alone K (events_of i [e]) ((hs, sessions (front s) ! i), outstanding s ! i)
        = Inr ((hs', sessions (front s1) ! i), outstanding s1 ! i) \<and> uncounted hs' = uncounted (registered s1)"
    by (rule run_isolated [OF K one Cons.prems(2-4)])
  have ok: "process_ok s1 \<and> i < length (sessions (front s1))"
    by (rule process_step_ok [OF K(2) s1 Cons.prems(2,3)])
  show ?case
  proof (cases "events_of i [e]")
    case Nil
    with step obtain hs' where "hs' = hs" "sessions (front s1) ! i = sessions (front s) ! i"
      "outstanding s1 ! i = outstanding s ! i" "uncounted hs = uncounted (registered s1)" by auto
    moreover have "events_of i (e # es) = events_of i es" "step_out i K e s = []"
      using Nil by (cases e; auto split: if_splits)+
    ultimately show ?thesis using Cons.IH [OF rest, of hs] ok s1 by simp
  next
    case (Cons ev evs)
    then have e: "e = On_connection i ev" "events_of i (e # es) = ev # events_of i es"
      by (cases e; auto split: if_splits)+
    with step obtain hs' where d: "deliver K ev ((hs, sessions (front s) ! i), outstanding s ! i)
        = Inr ((hs', sessions (front s1) ! i), outstanding s1 ! i)" "uncounted hs' = uncounted (registered s1)"
      by (auto split: if_splits)
    have "step_out i K e s = deliver_out K ev ((hs, sessions (front s) ! i), outstanding s ! i)"
      using Cons.prems(3,4) deliver_out_consistent [OF K(1), of hs "registered s"] e(1)
      by (simp add: connection_at_def)
    then show ?thesis using Cons.IH [OF rest, of hs'] ok s1 d e(2) by (simp del: process_step.simps)
  qed
qed

end

section \<open>A client that sends requests\<close>

text \<open>
  The events of a client that sends one block after the other and reads the replies, with the
  log lines as in \<open>session\<close>: each block is read, and the write it may lead to completes. A
  completion with nothing outstanding is not delivered.
\<close>

definition script_events :: "read_block list \<Rightarrow> conn_event list" where
  "script_events bs = concat (map (\<lambda>(E1, E2, buf).
     [Delivered 0 (Read_done E1 E2 Success buf), Delivered 0 (Write_done E2 Success)]) bs)"

lemma script_events_simps [simp]:
  "script_events [] = []"
  "script_events ((E1, E2, buf) # bs) =
     Delivered 0 (Read_done E1 E2 Success buf) # Delivered 0 (Write_done E2 Success) # script_events bs"
  by (simp_all add: script_events_def)

fun is_read :: "io_req \<Rightarrow> bool" where
  "is_read Async_read = True"
| "is_read r = False"

fun is_write :: "io_req \<Rightarrow> bool" where
  "is_write (Async_write bufs) = True"
| "is_write r = False"

lemma reads_writes_fold:
  "reads (fold apply_io rs p) = reads p + length (filter is_read rs)"
  "writes (fold apply_io rs p) = writes p + length (filter is_write rs)"
proof (induction rs arbitrary: p)
  case (Cons r rs)
  {
    case 1
    show ?case using Cons(1) by (cases r) simp_all
  next
    case 2
    show ?case using Cons(2) by (cases r) simp_all
  }
qed simp_all

lemma settle_reads_writes:
  "reads (settle c c' p) = reads p + length (filter is_read (io c'))"
  "writes (settle c c' p) = writes p + length (filter is_write (io c'))"
  by (simp_all add: settle_def reads_writes_fold)

lemma no_read_iff: "filter is_read rs = [] \<longleftrightarrow> Async_read \<notin> set rs"
proof -
  have "is_read r \<longleftrightarrow> r = Async_read" for r by (cases r) simp_all
  then show ?thesis by (auto simp: filter_empty_conv)
qed

lemma no_write_iff: "filter is_write rs = [] \<longleftrightarrow> write_of rs = None"
  by (induction rs rule: write_of.induct) simp_all

context serial_handlers
begin

text \<open>A connection that reads exactly when its last handler asked for it, and writes nothing.\<close>

definition at_rest :: "('os, 'p) session \<times> pending \<Rightarrow> bool" where
  "at_rest s \<longleftrightarrow> serial_inv s \<and> writes (snd s) = 0
     \<and> (reads (snd s) > 0 \<longleftrightarrow> Async_read \<in> set (io (snd (fst s))))"

lemma script_quiet:
  "reads p = 0 \<Longrightarrow> writes p = 0 \<Longrightarrow>
   alone_out K (script_events bs) ((hs, c), p) = [] \<and> run_alone K (script_events bs) ((hs, c), p) = Inr ((hs, c), p)"
proof (induction bs)
  case (Cons b bs)
  then show ?case by (cases b) (simp add: deliver_out_def deliver_def)
qed simp

lemma script_session:
  assumes K: "sc_handlers K = H" "notifying K"
    and wrote: "\<And>E hs c hs' c'. io c = [] \<Longrightarrow> H (Write_done E Success) (hs, c) = Inr (hs', c') \<Longrightarrow> write_of (io c') = None"
  shows "session H bs (hs, c) = Inr (outs, t) \<Longrightarrow> at_rest ((hs, c), p) \<Longrightarrow>
     alone_out K (script_events bs) ((hs, c), p) = outs \<and> (\<exists>q. run_alone K (script_events bs) ((hs, c), p) = Inr (t, q))"
proof (induction bs arbitrary: hs c p outs)
  case Nil
  then show ?case by simp
next
  case (Cons b bs)
  obtain E1 E2 buf where b: "b = (E1, E2, buf)" by (cases b)
  show ?case
  proof (cases "Async_read \<in> set (io c)")
    case False
    with Cons.prems(2) have "reads p = 0" "writes p = 0" by (simp_all add: at_rest_def)
    moreover from Cons.prems(1) False have "outs = []" "t = (hs, c)" by (simp_all add: b)
    ultimately show ?thesis using script_quiet by blast
  next
    case True
    let ?read = "Delivered 0 (Read_done E1 E2 Success buf)" and ?sent = "Delivered 0 (Write_done E2 Success)"
    let ?q = "p\<lparr>reads := reads p - 1\<rparr>"
    have p: "reads p = 1" "writes p = 0" "serial_inv ((hs, c), p)"
      using Cons.prems(2) True by (auto simp: at_rest_def serial_inv_def tokens_def)
    from Cons.prems(1) True obtain hs1 c1 out hs2 c2 outs' where
      r: "H (Read_done E1 E2 Success buf) (hs, c\<lparr>io := []\<rparr>) = Inr (hs1, c1)"
      and w: "write_completes H E2 (hs1, c1) = Inr (out, (hs2, c2))"
      and rest: "session H bs (hs2, c2) = Inr (outs', t)" "outs = out @ outs'"
      by (auto simp: b)
    define p1 where "p1 = settle c c1 ?q"
    have d1: "deliver K ?read ((hs, c), p) = Inr ((hs1, c1), p1)" using p(1) r K(1) by (simp add: deliver_def p1_def)
    have o1: "deliver_out K ?read ((hs, c), p) = (case write_of (io c1) of None \<Rightarrow> [] | Some bufs \<Rightarrow> [concat bufs])"
      using p(1) r K(1) by (simp add: deliver_out_def)
    have inv1: "serial_inv ((hs1, c1), p1)" by (rule deliver_inv [OF K d1 p(3)])
    have count1: "reads p1 = length (filter is_read (io c1))" "writes p1 = length (filter is_write (io c1))"
      using p(1,2) by (simp_all add: p1_def settle_reads_writes)
    show ?thesis
    proof (cases "write_of (io c1)")
      case None
      with w have same: "out = []" "hs2 = hs1" "c2 = c1" by (auto simp: write_completes_def)
      have w0: "writes p1 = 0" using None count1(2) no_write_iff [of "io c1"] by simp
      then have "at_rest ((hs1, c1), p1)"
        using inv1 count1(1) no_read_iff [of "io c1"] by (auto simp: at_rest_def)
      from Cons.IH [OF rest(1) [unfolded same] this] w0 d1 o1 None same rest(2) show ?thesis
        by (simp add: b deliver_def deliver_out_def)
    next
      case (Some bufs)
      then have w1: "writes p1 > 0" using count1(2) no_write_iff [of "io c1"] by (cases "filter is_write (io c1)") auto
      then have one: "writes p1 = 1" "reads p1 = 0" using inv1 by (auto simp: serial_inv_def tokens_def)
      from w Some have run: "H (Write_done E2 Success) (hs1, c1\<lparr>io := []\<rparr>) = Inr (hs2, c2)" and out: "out = [concat bufs]"
        by (auto simp: write_completes_def)
      define p2 where "p2 = settle c1 c2 (p1\<lparr>writes := writes p1 - 1\<rparr>)"
      have none: "write_of (io c2) = None" using wrote [OF _ run] by simp
      have d2: "deliver K ?sent ((hs1, c1), p1) = Inr ((hs2, c2), p2)"
        using w1 run K(1) by (simp add: deliver_def p2_def)
      have o2: "deliver_out K ?sent ((hs1, c1), p1) = []" using w1 run K(1) none by (simp add: deliver_out_def)
      have inv2: "serial_inv ((hs2, c2), p2)" by (rule deliver_inv [OF K d2 inv1])
      have "writes p2 = 0" "reads p2 = length (filter is_read (io c2))"
        using one none no_write_iff [of "io c2"] by (simp_all add: p2_def settle_reads_writes)
      with inv2 no_read_iff [of "io c2"] have "at_rest ((hs2, c2), p2)" by (auto simp: at_rest_def)
      from Cons.IH [OF rest(1) this] d1 d2 o1 o2 Some out rest(2) show ?thesis by (simp add: b)
    qed
  qed
qed

end

lemma http_wrote: "io c = [] \<Longrightarrow> http_handlers L (Write_done E Success) (hs, c) = Inr (hs', c') \<Longrightarrow> write_of (io c') = None"
  by (auto simp: http_handle_write_def Let_def split: if_splits)

lemma https_wrote: "io c = [] \<Longrightarrow> https_handlers L (Write_done E Success) (hs, c) = Inr (hs', c') \<Longrightarrow> write_of (io c') = None"
  by (auto simp: https_handle_write_complete_def Let_def split: if_splits)

section \<open>Registered functions\<close>

lemma respond_frame: "respond L g ps c = Inr c' \<Longrightarrow> io c' = io c \<and> waiting_for_async_reply c' = waiting_for_async_reply c"
  by (auto simp: respond_def split: prod.splits)

lemma route_handler_respond:
  "route_handler L r h \<Longrightarrow> handler h ps c = Inr c' \<Longrightarrow> io c' = io c \<and> waiting_for_async_reply c' = waiting_for_async_reply c"
  by (auto simp: route_handler_def handler_data_new_def dest: respond_frame)

lemma routed_entry: "routed L rs hs \<Longrightarrow> h \<in> set hs \<Longrightarrow> \<exists>r. route_handler L r h"
  unfolding routed_def list_all2_conv_all_nth in_set_conv_nth by metis

lemma routed_quiet: "routed L rs hs \<Longrightarrow> quiet_server hs"
  unfolding quiet_server_def quiet_handler_def by (metis routed_entry route_handler_respond)

lemma routed_prompt: "routed L rs hs \<Longrightarrow> prompt_server hs"
  unfolding prompt_server_def prompt_handler_def by (metis routed_entry route_handler_respond)

lemma routed_uncounted: "routed L rs hs \<Longrightarrow> uncounted hs' = uncounted hs \<Longrightarrow> routed L rs hs'"
proof (induction rs arbitrary: hs hs')
  case Nil
  then show ?case by (cases hs') (auto simp: routed_def)
next
  case (Cons r rs)
  then obtain h hs1 where hs: "hs = h # hs1" "route_handler L r h" "routed L rs hs1"
    by (auto simp: routed_def list_all2_Cons1)
  with Cons.prems(2) obtain h' hs1' where hs': "hs' = h' # hs1'" "h'\<lparr>nr_of_requests := 0\<rparr> = h\<lparr>nr_of_requests := 0\<rparr>"
    "uncounted hs1' = uncounted hs1" by (cases hs') auto
  have "route_handler L r h'"
    using hs(2) uncounted_same [OF hs'(2)] unfolding route_handler_def
    by (cases h') (auto simp: handler_data_new_def)
  with Cons.IH [OF hs(3) hs'(3)] hs' show ?case by (simp add: routed_def)
qed

section \<open>The next client\<close>

text \<open>The client that is accepted next, fed with its requests only.\<close>

lemma next_client_alone:
  assumes "text_law L" and "avro_law L" and "split_law (lib_split L)"
    and "plain_types rs" and "routed L rs hs" and "list_all sized es0"
    and K: "K = http_class L service default_request_id_header" "notifying K"
    and "run_process K es0 (listening L default_request_id_header hs) = Inr s0" and "accepting (front s0)"
    and "all_arrive L (\<lambda>keep. keep) (lib_parser_init L) bs ws"
  obtains t u q where "process_step K (Accept_done k v True) s0 = Inr t" and "process_ok t"
    and "length (sessions (front s0)) < length (sessions (front t))"
    and "run_alone K (script_events bs) (connection_at (length (sessions (front s0))) t) = Inr (u, q)"
    and "map read_reply (alone_out K (script_events bs) (connection_at (length (sessions (front s0))) t))
      = map Some (session_replies L (\<lambda>keep. keep) rs ws)"
proof -
  let ?i = "length (sessions (front s0))"
  have H: "sc_handlers K = http_handlers L" "accepts_with K http_start"
    using K(1) accepts_http by (simp_all add: http_class_def)
  have "fresh_front L (listening L default_request_id_header hs)"
    by (simp add: fresh_front_def listening_def process_new_def listener_new_def process_ok_def fresh_on_new)
  from fresh_front_run [OF assms(6) this] assms(9) K(1) have fresh: "fresh_front L s0" by simp
  obtain c t where c: "fresh_on L c" and t: "process_step K (Accept_done k v True) s0 = Inr t"
    "registered t = registered s0" "?i < length (sessions (front t))" "sessions (front t) ! ?i = http_start c"
    "reads (outstanding t ! ?i) = 1" "writes (outstanding t ! ?i) = 0"
    using next_client [OF fresh assms(10), of service k v thesis] K(1) by blast
  have "uncounted (registered t) = uncounted hs"
    using http_isolated.run_respects [OF H(1) assms(9)] t(2) by simp
  with routed_uncounted [OF assms(5)] have reg: "routed L rs (registered t)" by blast
  have inv0: "http.process_inv s0"
    by (rule http.run_process_inv [OF H K(2) _ http_listening_inv [OF routed_quiet [OF assms(5)]] assms(9)])
      (simp add: http_start_def)
  have inv: "http.process_inv t"
    by (rule http.process_step_inv [OF H K(2) _ inv0 t(1)]) (simp add: http_start_def)
  have "Async_read \<in> set (io (http_start c))" by (simp add: http_start_def)
  with inv t(3-6) have rest: "http.at_rest ((registered t, http_start c), outstanding t ! ?i)"
    by (auto simp: http.process_inv_def http.at_rest_def connection_at_def)
  from c obtain key val where kv: "length key = MAX_HEADER_SIZE" "length val = MAX_HEADER_SIZE"
    "c = async_conn_new L default_request_id_header key val" by (auto simp: fresh_on_def)
  obtain outs u where u: "session (http_handlers L) bs (registered t, http_start c) = Inr (outs, u)"
    "map read_reply outs = map Some (session_replies L (\<lambda>keep. keep) rs ws)"
    using plain_conn.session_between [OF assms(1-3) TrueI assms(4,11) between_accepted [OF reg kv(1,2)]]
    unfolding kv(3) by blast
  have "alone_out K (script_events bs) (connection_at ?i t) = outs
      \<and> (\<exists>q. run_alone K (script_events bs) (connection_at ?i t) = Inr (u, q))"
    unfolding connection_at_def t(4) by (rule http.script_session [OF H(1) K(2) _ u(1) rest]) (rule http_wrote)
  then obtain q where "alone_out K (script_events bs) (connection_at ?i t) = outs"
    "run_alone K (script_events bs) (connection_at ?i t) = Inr (u, q)" by blast
  moreover have "process_ok t" using inv by (simp add: http.process_inv_def)
  ultimately show thesis using that [OF t(1) _ t(3), of u q] u(2) by simp
qed

section \<open>Timers, and clients that break off\<close>

text \<open>
  The completions of timer waits that come in between do nothing to what a client is sent:
  \<open>http_handle_timer\<close> ignores an aborted wait, and after an expired one it only asks for the end
  of the socket. So the run of a connection is, up to its waits, the one without them.
\<close>

fun is_wait :: "conn_event \<Rightarrow> bool" where
  "is_wait (Delivered k (Wait_done h E e)) = True"
| "is_wait ev = False"

fun breaks_off :: "conn_event \<Rightarrow> bool" where
  "breaks_off (Delivered k (Read_done E E' e buf)) = (e \<noteq> Success)"
| "breaks_off (Delivered k (Write_done E e)) = (e \<noteq> Success)"
| "breaks_off ev = False"

definition blind :: "('os, 'p) session \<times> pending \<Rightarrow> ('os, 'p) session \<times> pending \<Rightarrow> bool" where
  "blind s t \<longleftrightarrow> fst (fst s) = fst (fst t) \<and> (snd (fst s))\<lparr>io := []\<rparr> = (snd (fst t))\<lparr>io := []\<rparr>
     \<and> (snd s)\<lparr>waits := []\<rparr> = (snd t)\<lparr>waits := []\<rparr>"

lemma blind_refl [simp]: "blind s s"
  by (simp add: blind_def)

lemma blind_trans: "blind s t \<Longrightarrow> blind t u \<Longrightarrow> blind s u"
  by (simp add: blind_def)

lemma pending_update_waits:
  fixes p q :: pending
  shows "p\<lparr>waits := []\<rparr> = q\<lparr>waits := []\<rparr> \<longleftrightarrow> handshakes p = handshakes q \<and> reads p = reads q \<and> writes p = writes q
     \<and> posts p = posts q \<and> owed p = owed q \<and> shutdowns p = shutdowns q"
  by (cases p; cases q) simp

lemma apply_io_blind:
  "p\<lparr>waits := []\<rparr> = q\<lparr>waits := []\<rparr> \<Longrightarrow> (apply_io r p)\<lparr>waits := []\<rparr> = (apply_io r q)\<lparr>waits := []\<rparr>"
  by (cases r) (simp_all add: pending_update_waits)

lemma fold_io_blind:
  "p\<lparr>waits := []\<rparr> = q\<lparr>waits := []\<rparr> \<Longrightarrow> (fold apply_io rs p)\<lparr>waits := []\<rparr> = (fold apply_io rs q)\<lparr>waits := []\<rparr>"
proof (induction rs arbitrary: p q)
  case (Cons r rs)
  show ?case unfolding fold_simps by (rule Cons.IH [OF apply_io_blind [OF Cons.prems]])
qed simp

lemma settle_blind:
  "p\<lparr>waits := []\<rparr> = q\<lparr>waits := []\<rparr> \<Longrightarrow> waiting_for_async_reply c = waiting_for_async_reply d \<Longrightarrow>
   (settle c c' p)\<lparr>waits := []\<rparr> = (settle d c' q)\<lparr>waits := []\<rparr>"
  using fold_io_blind [of p q "io c'"] by (simp add: settle_def Let_def pending_update_waits)

lemma take_event_blind:
  assumes "p\<lparr>waits := []\<rparr> = q\<lparr>waits := []\<rparr>" and "\<not> is_wait ev"
  shows "rel_option (\<lambda>p' q'. p'\<lparr>waits := []\<rparr> = q'\<lparr>waits := []\<rparr>) (take_event ev p) (take_event ev q)"
  using assms by (cases "(ev, p)" rule: take_event.cases) (simp_all add: pending_update_waits)

lemma deliver_blind:
  assumes "blind s t" and "\<not> is_wait ev"
  shows "rel_sum (=) blind (deliver K ev s) (deliver K ev t)" and "deliver_out K ev s = deliver_out K ev t"
proof -
  obtain hs c p d q where st: "s = ((hs, c), p)" "t = ((hs, d), q)"
    and c: "c\<lparr>io := []\<rparr> = d\<lparr>io := []\<rparr>" and p: "p\<lparr>waits := []\<rparr> = q\<lparr>waits := []\<rparr>"
    using assms(1) by (cases s; cases t) (auto simp: blind_def)
  from arg_cong [OF c, of waiting_for_async_reply] have w: "waiting_for_async_reply c = waiting_for_async_reply d" by simp
  note took = take_event_blind [OF p assms(2)]
  have settled: "blind ((hs', c'), settle c c' p') ((hs', c'), settle d c' q')"
    if "p'\<lparr>waits := []\<rparr> = q'\<lparr>waits := []\<rparr>" for hs' c' p' q'
    using settle_blind [OF that w, of c'] by (simp add: blind_def)
  show "rel_sum (=) blind (deliver K ev s) (deliver K ev t)"
  proof (cases "take_event ev p")
    case None
    with took assms(1) show ?thesis by (cases "take_event ev q") (simp_all add: deliver_def st)
  next
    case (Some p')
    with took obtain q' where "take_event ev q = Some q'" "p'\<lparr>waits := []\<rparr> = q'\<lparr>waits := []\<rparr>"
      by (cases "take_event ev q") auto
    with Some settled show ?thesis
      by (cases "handle_event K ev (hs, d\<lparr>io := []\<rparr>)") (auto simp: deliver_def st c)
  qed
  show "deliver_out K ev s = deliver_out K ev t"
    using took by (cases "take_event ev p"; cases "take_event ev q") (simp_all add: deliver_out_def st c)
qed

lemma deliver_wait:
  assumes "sc_handlers K = http_handlers L" and "is_wait ev"
  shows "\<exists>t. deliver K ev s = Inr t \<and> blind t s" and "deliver_out K ev s = []"
proof -
  obtain hs c p where s: "s = ((hs, c), p)" by (metis prod.collapse)
  from assms(2) obtain k h E e where ev: "ev = Delivered k (Wait_done h E e)" by (cases ev rule: is_wait.cases) auto
  have io: "handle_event K ev (hs, c\<lparr>io := []\<rparr>) = Inr (hs, http_handle_timer e (c\<lparr>io := []\<rparr>))"
    by (simp add: ev assms(1))
  have out: "write_of (io (http_handle_timer e (c\<lparr>io := []\<rparr>))) = None"
    by (simp add: http_handle_timer_def)
  have none: "(settle c (http_handle_timer e (c\<lparr>io := []\<rparr>)) p')\<lparr>waits := []\<rparr> = p'\<lparr>waits := []\<rparr>" for p'
    by (simp add: http_handle_timer_def settle_def Let_def)
  have same: "(http_handle_timer e (c\<lparr>io := []\<rparr>))\<lparr>io := []\<rparr> = c\<lparr>io := []\<rparr>"
    by (simp add: http_handle_timer_def issue_def)
  show "\<exists>t. deliver K ev s = Inr t \<and> blind t s"
  proof (cases "take_event ev p")
    case None
    then show ?thesis by (simp add: deliver_def s)
  next
    case (Some p')
    then have "p'\<lparr>waits := []\<rparr> = p\<lparr>waits := []\<rparr>" by (auto simp: ev pending_update_waits split: if_splits)
    with Some io none [of p'] same show ?thesis by (simp add: deliver_def s blind_def)
  qed
  show "deliver_out K ev s = []" using io out by (auto simp: deliver_out_def s split: option.split)
qed

lemma waits_unseen:
  assumes "sc_handlers K = http_handlers L"
  shows "blind s t \<Longrightarrow> alone_out K evs s = alone_out K (filter (\<lambda>ev. \<not> is_wait ev) evs) t"
    and "blind s t \<Longrightarrow> rel_sum (=) blind (run_alone K evs s) (run_alone K (filter (\<lambda>ev. \<not> is_wait ev) evs) t)"
proof (induction evs arbitrary: s t)
  case (Cons ev evs)
  {
    case 1
    show ?case
    proof (cases "is_wait ev")
      case True
      from deliver_wait(1) [OF assms True, of s] obtain u where "deliver K ev s = Inr u" "blind u s" by blast
      with Cons(1) [OF blind_trans [OF \<open>blind u s\<close> 1]] True deliver_wait(2) [OF assms True, of s] show ?thesis by simp
    next
      case False
      with deliver_blind [OF 1 False, of K] Cons(1) show ?thesis
        by (cases "deliver K ev s"; cases "deliver K ev t") auto
    qed
  next
    case 2
    show ?case
    proof (cases "is_wait ev")
      case True
      from deliver_wait(1) [OF assms True, of s] obtain u where "deliver K ev s = Inr u" "blind u s" by blast
      with Cons(2) [OF blind_trans [OF \<open>blind u s\<close> 2]] True show ?thesis by simp
    next
      case False
      with deliver_blind [OF 2 False, of K] Cons(2) show ?thesis
        by (cases "deliver K ev s"; cases "deliver K ev t") auto
    qed
  }
qed simp_all

text \<open>A completion with an error, of a read or a write, is the end of the conversation.\<close>

lemma breaks_off_silent:
  assumes "sc_handlers K = http_handlers L" and "breaks_off ev"
  shows "\<exists>t. deliver K ev s = Inr t" and "deliver_out K ev s = []"
proof -
  obtain hs c p where s: "s = ((hs, c), p)" by (metis prod.collapse)
  have "\<exists>c'. handle_event K ev (hs, c\<lparr>io := []\<rparr>) = Inr (hs, c') \<and> write_of (io c') = None"
    using assms(2) by (cases ev rule: breaks_off.cases)
      (auto simp: assms(1) http_handle_read_def http_handle_write_def Let_def)
  then obtain c' where "handle_event K ev (hs, c\<lparr>io := []\<rparr>) = Inr (hs, c')" "write_of (io c') = None" by blast
  then show "\<exists>t. deliver K ev s = Inr t" and "deliver_out K ev s = []"
    by (auto simp: deliver_def deliver_out_def s split: option.split)
qed

lemma broken_off:
  assumes "sc_handlers K = http_handlers L"
  shows "list_all breaks_off evs \<Longrightarrow> alone_out K evs s = [] \<and> (\<exists>t. run_alone K evs s = Inr t)"
proof (induction evs arbitrary: s)
  case (Cons ev evs)
  then have "breaks_off ev" by simp
  from breaks_off_silent(1) [OF assms this, of s] obtain t where "deliver K ev s = Inr t" by blast
  with Cons breaks_off_silent(2) [OF assms \<open>breaks_off ev\<close>, of s] show ?case by simp
qed simp

lemma alone_append:
  assumes "run_alone K evs s = Inr t"
  shows "run_alone K (evs @ evs') s = run_alone K evs' t"
    and "alone_out K (evs @ evs') s = alone_out K evs s @ alone_out K evs' t"
proof -
  have "run_alone K (evs @ evs') s = run_alone K evs' t \<and> alone_out K (evs @ evs') s = alone_out K evs s @ alone_out K evs' t"
    using assms
  proof (induction evs arbitrary: s)
    case (Cons ev evs)
    then show ?case by (cases "deliver K ev s") auto
  qed simp
  then show "run_alone K (evs @ evs') s = run_alone K evs' t"
    and "alone_out K (evs @ evs') s = alone_out K evs s @ alone_out K evs' t" by simp_all
qed

text \<open>A client that sends its requests while waits complete, and breaks off at the end, or does not.\<close>

definition converses :: "conn_event list \<Rightarrow> read_block list \<Rightarrow> bool" where
  "converses evs bs \<longleftrightarrow> (\<exists>ends. filter (\<lambda>ev. \<not> is_wait ev) evs = script_events bs @ ends \<and> list_all breaks_off ends)"

lemma conversation:
  assumes "sc_handlers K = http_handlers L" and "converses evs bs" and "run_alone K (script_events bs) s = Inr t"
  shows "alone_out K evs s = alone_out K (script_events bs) s" and "\<exists>u. run_alone K evs s = Inr u"
proof -
  from assms(2) obtain ends where ends: "filter (\<lambda>ev. \<not> is_wait ev) evs = script_events bs @ ends" "list_all breaks_off ends"
    by (auto simp: converses_def)
  note seen = waits_unseen [OF assms(1) blind_refl, of evs s, unfolded ends(1)]
  from broken_off [OF assms(1) ends(2), of t] obtain u where u: "alone_out K ends t = []" "run_alone K ends t = Inr u" by blast
  show "alone_out K evs s = alone_out K (script_events bs) s"
    using seen(1) alone_append(2) [OF assms(3), of ends] u(1) by simp
  have "rel_sum (=) blind (run_alone K evs s) (Inr u)"
    using seen(2) alone_append(1) [OF assms(3), of ends] u(2) by simp
  then show "\<exists>u. run_alone K evs s = Inr u" by (cases "run_alone K evs s") auto
qed

section \<open>Properties\<close>


text \<open>For the witness: the events of one connection alone, in a process, end as they do without it.\<close>

lemma run_only:
  "run_alone K evs (connection_at i s) = Inr u \<Longrightarrow> process_ok s \<Longrightarrow> i < length (sessions (front s)) \<Longrightarrow>
   \<exists>s'. run_process K (map (On_connection i) evs) s = Inr s'"
proof (induction evs arbitrary: s)
  case (Cons ev evs)
  then obtain hs c p where d: "deliver K ev (connection_at i s) = Inr ((hs, c), p)" "run_alone K evs ((hs, c), p) = Inr u"
    by auto
  let ?t = "s\<lparr>registered := hs, front := (front s)\<lparr>sessions := (sessions (front s))[i := c]\<rparr>,
      outstanding := (outstanding s)[i := p]\<rparr>"
  have "connection_at i ?t = ((hs, c), p)" "process_ok ?t" "i < length (sessions (front ?t))"
    using Cons.prems(2,3) by (simp_all add: connection_at_def process_ok_def)
  with Cons.IH [of ?t] d Cons.prems(3) show ?case by (auto simp: connection_at_def)
qed simp

lemma events_of_map: "events_of i (map (On_connection i) evs) = evs"
  by (induction evs) simp_all

lemma read_breaks_off:
  "\<exists>c' p'. deliver (http_class L service tag) (Delivered 0 (Read_done E E' Other_error buf)) ((hs, c), p) = Inr ((hs, c'), p')"
  by (simp add: deliver_def http_class_def http_handle_read_def)


end
