(* ===== verification/Both_Sessions.thy ===== *)
theory Both_Sessions
  imports Http_Session Https_Session
begin

text \<open>
  The plain and the TLS connection side by side: what a client is sent for the same blocks.
  Both write the bytes of the abstract server's replies, the plain one until it closes.
\<close>

lemma all_arrive_sooner:
  "all_arrive L (\<lambda>keep. True) p bs ws \<Longrightarrow> all_arrive L goes_on p bs ws"
  by (induction rule: all_arrive.induct) (auto intro: all_arrive.intros)

lemma session_bytes_kept:
  "session_bytes L (\<lambda>keep. keep) rs ws
     = take (Suc (length (takeWhile (\<lambda>w. w_keep w \<noteq> 0) ws))) (session_bytes L (\<lambda>keep. True) rs ws)"
  by (induction ws) auto

lemma length_session_bytes: "length (session_bytes L (\<lambda>keep. True) rs ws) = length ws"
  by (induction ws) simp_all



end
