(* ===== verification/Call_Context.thy ===== *)
theory Call_Context
  imports Http_Types Libraries
begin

text \<open>
  \<^verbatim>\<open>http_client::call_context\<close> (\<^verbatim>\<open>client/http_client.h\<close>) and the three functions libcurl
  calls with the data of a call (\<^verbatim>\<open>client/http_client.cpp\<close>): the reader of the request
  body, the writer of the response body and the collector of response headers. Time
  stamps and the durations computed from them are left out. The easy handle of libcurl
  belongs to one context, so what is set on it is part of the context here.
\<close>

section \<open>State\<close>

record 'os call_context =
  x_method :: method_t
  x_uri :: string
  x_tx_headers :: "string list"
  x_rx_headers :: "string list"
  x_timeout :: int
  x_callback :: bool
  x_tx_buffer :: 'os
  x_tx_stream :: "string option"
  x_rx_buffer :: 'os
  x_http_result :: int
  x_transport_ok :: "bool option"
  x_headerlist :: "string list option"
  x_curl_done :: bool
  x_shared :: bool
  x_verbose :: bool
  x_private :: bool

text \<open>
  \<open>x_callback\<close>: a callback is set; \<open>x_shared\<close>: the context holds a reference to itself
  (\<^verbatim>\<open>_curl_shared\<close>); \<open>x_private\<close>: \<^verbatim>\<open>CURLOPT_PRIVATE\<close> of the easy handle points to the
  context; \<open>x_http_result\<close> is the number of a status, as libcurl reports numbers the
  enumeration has no name for. The constructor gives \<^verbatim>\<open>_transport_ok\<close> no value.
\<close>

definition call_context_new ::
  "('os, 'p) libs \<Rightarrow> method_t \<Rightarrow> string \<Rightarrow> string list \<Rightarrow> int \<Rightarrow> bool \<Rightarrow> 'os call_context" where
  "call_context_new L meth uri headers timeout verbose =
     \<lparr>x_method = meth, x_uri = uri, x_tx_headers = headers, x_rx_headers = [],
      x_timeout = timeout, x_callback = False,
      x_tx_buffer = lib_os_new L, x_tx_stream = None, x_rx_buffer = lib_os_new L,
      x_http_result = status_code undefined_status, x_transport_ok = None,
      x_headerlist = None, x_curl_done = False, x_shared = False, x_verbose = verbose,
      x_private = False\<rparr>"

definition create_http_request ::
  "('os, 'p) libs \<Rightarrow> method_t \<Rightarrow> string \<Rightarrow> string list \<Rightarrow> int \<Rightarrow> 'os call_context" where
  "create_http_request L meth uri headers timeout = call_context_new L meth uri headers timeout False"

definition tx_content_length :: "('os, 'p) libs \<Rightarrow> 'os call_context \<Rightarrow> nat" where
  "tx_content_length L x = lib_os_count L (x_tx_buffer x)"

definition rx_content_length :: "('os, 'p) libs \<Rightarrow> 'os call_context \<Rightarrow> nat" where
  "rx_content_length L x = lib_os_count L (x_rx_buffer x)"

definition curl_start :: "'os call_context \<Rightarrow> 'os call_context" where
  "curl_start x = x\<lparr>x_shared := True\<rparr>"

definition curl_stop :: "'os call_context \<Rightarrow> 'os call_context" where
  "curl_stop x = x\<lparr>x_shared := False\<rparr>"

definition transport_result :: "'os call_context \<Rightarrow> bool res" where
  "transport_result x = initialised (x_transport_ok x)"

definition call_ok :: "'os call_context \<Rightarrow> bool res" where
  "call_ok x = bindE (transport_result x) (\<lambda>t.
     Inr (t \<and> x_http_result x \<ge> 200 \<and> x_http_result x < 300))"

section \<open>The functions libcurl calls\<close>

text \<open>\<open>data\<close> is the block of \<^verbatim>\<open>size * nmemb\<close> bytes at \<^verbatim>\<open>ptr\<close>; the result is what is returned to libcurl.\<close>

definition write_callback ::
  "('os, 'p) libs \<Rightarrow> string \<Rightarrow> 'os call_context \<Rightarrow> nat \<times> 'os call_context" where
  "write_callback L data x = (length data, x\<lparr>x_rx_buffer := lib_os_write L (x_rx_buffer x) data\<rparr>)"

text \<open>The loop of the reader: one byte at a time while there is room and there are bytes.\<close>

fun read_loop :: "nat \<Rightarrow> string \<Rightarrow> string \<Rightarrow> string \<times> string" where
  "read_loop 0 s out = (out, s)"
| "read_loop (Suc max_remaining) [] out = (out, [])"
| "read_loop (Suc max_remaining) (b # s) out = read_loop max_remaining s (out @ [b])"

text \<open>\<open>out\<close> is what it puts at \<^verbatim>\<open>ptr\<close>, its length the value returned.\<close>

definition read_callback :: "nat \<Rightarrow> nat \<Rightarrow> 'os call_context \<Rightarrow> (string \<times> 'os call_context) res" where
  "read_callback sz nmemb x =
     (if sz * nmemb = 0 then Inr ([], x)
      else bindE (deref (x_tx_stream x)) (\<lambda>s.
        case read_loop (sz * nmemb) s [] of
          (out, rest) \<Rightarrow> Inr (out, x\<lparr>x_tx_stream := Some rest\<rparr>)))"

definition parse_headers :: "string \<Rightarrow> string list option \<Rightarrow> nat \<times> string list option" where
  "parse_headers data v =
     (case v of None \<Rightarrow> (0, None) | Some hs \<Rightarrow> (length data, Some (hs @ [data])))"

section \<open>Handing a request to libcurl\<close>

datatype curl_opt =
    Opensocket_function | Closesocket_function
  | Verbose
  | Httpget
  | Upload | Infilesize_large nat
  | Post_request | Postfieldsize_large nat
  | Url_option string
  | Read_function | Write_function
  | Private_context
  | Low_speed_time nat | Low_speed_limit nat
  | Httpheader "string list"
  | Timeout_ms int
  | Header_function
  | Followlocation | Ipresolve_v4
  | Ssl_verifypeer nat | Certinfo nat

text \<open>\<^verbatim>\<open>memoryInputStream\<close> takes what is in the buffer now.\<close>

definition input_stream :: "('os, 'p) libs \<Rightarrow> 'os \<Rightarrow> string res" where
  "input_stream L os =
     (case lib_os_read L os (lib_os_count L os) of None \<Rightarrow> Inl (Exception ''EOF reached'') | Some s \<Rightarrow> Inr s)"

definition method_options :: "('os, 'p) libs \<Rightarrow> 'os call_context \<Rightarrow> curl_opt list res" where
  "method_options L x =
     (if x_method x = GET then Inr [Httpget]
      else if x_method x = PUT then Inr [Upload, Infilesize_large (tx_content_length L x)]
      else if x_method x = POST then Inr [Post_request, Postfieldsize_large (tx_content_length L x)]
      else Inl Assertion)"

definition fixed_headers :: "string list" where
  "fixed_headers = [''Expect:'', ''User-Agent:csi-http/0.1'']"

text \<open>
  \<^verbatim>\<open>_perform\<close> up to the call of \<^verbatim>\<open>curl_multi_add_handle\<close>: the options it sets, in order,
  and the context afterwards. The header list of an earlier run is freed and built anew.
\<close>

definition perform_context ::
  "('os, 'p) libs \<Rightarrow> 'os call_context \<Rightarrow> (curl_opt list \<times> 'os call_context) res" where
  "perform_context L x =
     (let x = curl_start x in
      bindE (input_stream L (x_tx_buffer x)) (\<lambda>s.
        let x = x\<lparr>x_tx_stream := Some s\<rparr> in
        bindE (method_options L x) (\<lambda>opts.
          let x = x\<lparr>x_private := True\<rparr>;
              x = (if x_headerlist x \<noteq> None then x\<lparr>x_headerlist := None\<rparr> else x);
              hs = fixed_headers @ x_tx_headers x;
              x = x\<lparr>x_headerlist := Some hs\<rparr>
          in Inr ([Opensocket_function, Closesocket_function] @ (if x_verbose x then [Verbose] else [])
                    @ opts @ [Url_option (x_uri x), Read_function, Write_function, Private_context,
                    Low_speed_time 3, Low_speed_limit 10, Httpheader hs, Timeout_ms (x_timeout x),
                    Header_function, Followlocation, Ipresolve_v4, Ssl_verifypeer 0, Certinfo 1], x))))"

section \<open>Properties\<close>

lemma read_loop_eq: "read_loop n s out = (out @ take n s, drop n s)"
  by (induction n s out rule: read_loop.induct) simp_all

text \<open>A sequence of calls of the reader, with the room libcurl offers at each.\<close>

fun read_chunks :: "nat list \<Rightarrow> 'os call_context \<Rightarrow> (string list \<times> 'os call_context) res" where
  "read_chunks [] x = Inr ([], x)"
| "read_chunks (n # ns) x =
     bindE (read_callback 1 n x) (\<lambda>(out, x'). bindE (read_chunks ns x') (\<lambda>(outs, x''). Inr (out # outs, x'')))"

lemma read_callback_eq:
  "x_tx_stream x = Some s \<Longrightarrow> read_callback 1 n x = Inr (take n s, x\<lparr>x_tx_stream := Some (drop n s)\<rparr>)"
  by (cases x) (simp add: read_callback_def read_loop_eq)

lemmas read_callback_one = read_callback_eq [unfolded One_nat_def]

lemma read_chunks_eq:
  "x_tx_stream x = Some s \<Longrightarrow>
   \<exists>outs. read_chunks ns x = Inr (outs, x\<lparr>x_tx_stream := Some (drop (sum_list ns) s)\<rparr>)
     \<and> concat outs = take (sum_list ns) s
     \<and> (\<forall>i < length ns. length (outs ! i) = min (ns ! i) (length s - sum_list (take i ns)))
     \<and> length outs = length ns"
proof (induction ns arbitrary: x s)
  case Nil
  then show ?case by (cases x) simp
next
  case (Cons n ns)
  let ?x = "x\<lparr>x_tx_stream := Some (drop n s)\<rparr>"
  obtain outs where outs: "read_chunks ns ?x = Inr (outs, ?x\<lparr>x_tx_stream := Some (drop (sum_list ns) (drop n s))\<rparr>)"
    "concat outs = take (sum_list ns) (drop n s)"
    "\<forall>i < length ns. length (outs ! i) = min (ns ! i) (length (drop n s) - sum_list (take i ns))"
    "length outs = length ns"
    using Cons.IH [of ?x "drop n s"] by auto
  have "length ((take n s # outs) ! i) = min ((n # ns) ! i) (length s - sum_list (take i (n # ns)))"
    if "i < length (n # ns)" for i
    using that outs(3) by (cases i) auto
  moreover have "read_chunks (n # ns) x
      = Inr (take n s # outs, x\<lparr>x_tx_stream := Some (drop (sum_list (n # ns)) s)\<rparr>)"
    using outs(1) by (simp add: read_callback_one [OF Cons.prems] add.commute)
  moreover have "concat (take n s # outs) = take (sum_list (n # ns)) s"
    using outs(2) by (simp add: take_add)
  ultimately show ?case using outs(4) by (intro exI [of _ "take n s # outs"]) simp
qed

lemma input_stream_eq: "avro_law L \<Longrightarrow> input_stream L os = Inr (os_content L os)"
  by (simp add: input_stream_def avro_lawD)

text \<open>The run of \<open>perform_context\<close> in one equation.\<close>

definition request_options :: "'os call_context \<Rightarrow> curl_opt list \<Rightarrow> curl_opt list" where
  "request_options x opts =
     [Opensocket_function, Closesocket_function] @ (if x_verbose x then [Verbose] else [])
       @ opts @ [Url_option (x_uri x), Read_function, Write_function, Private_context,
       Low_speed_time 3, Low_speed_limit 10, Httpheader (fixed_headers @ x_tx_headers x),
       Timeout_ms (x_timeout x), Header_function, Followlocation, Ipresolve_v4, Ssl_verifypeer 0, Certinfo 1]"

lemma perform_context_eq:
  assumes "avro_law L"
  shows "perform_context L x = bindE (method_options L x) (\<lambda>opts.
    Inr (request_options x opts,
         x\<lparr>x_shared := True, x_tx_stream := Some (os_content L (x_tx_buffer x)), x_private := True,
           x_headerlist := Some (fixed_headers @ x_tx_headers x)\<rparr>))"
  using assms
  by (cases x; cases "method_options L x")
    (simp_all add: perform_context_def request_options_def input_stream_eq method_options_def
      curl_start_def Let_def tx_content_length_def split: if_splits)

text \<open>
  C22. The body of a request reaches libcurl complete and in order: after \<^verbatim>\<open>_perform\<close> has
  taken its snapshot, the calls of the reader, whatever room each of them gets, deliver
  the content of the request piece by piece; a call delivers less than it has room for
  only when the content is used up, which is how libcurl learns its end. The length
  announced for \<^verbatim>\<open>POST\<close> and \<^verbatim>\<open>PUT\<close> is the length of that content.
\<close>

theorem upload_delivers_content:
  assumes "avro_law L" and "perform_context L x = Inr (opts, x')"
  shows "\<exists>outs x''. read_chunks ns x' = Inr (outs, x'')
      \<and> concat outs = take (sum_list ns) (os_content L (x_tx_buffer x))
      \<and> (\<forall>i < length ns. length (outs ! i)
            = min (ns ! i) (length (os_content L (x_tx_buffer x)) - sum_list (take i ns)))
      \<and> (\<forall>n. Postfieldsize_large n \<in> set opts \<or> Infilesize_large n \<in> set opts
            \<longrightarrow> n = length (os_content L (x_tx_buffer x)))"
proof -
  let ?s = "os_content L (x_tx_buffer x)"
  from assms obtain opts' where opts': "method_options L x = Inr opts'" "opts = request_options x opts'"
    and stream: "x_tx_stream x' = Some ?s"
    by (auto simp: perform_context_eq)
  have "n = length ?s" if "Postfieldsize_large n \<in> set opts \<or> Infilesize_large n \<in> set opts" for n
    using that opts' assms(1)
    by (auto simp: request_options_def method_options_def tx_content_length_def avro_lawD split: if_splits)
  with read_chunks_eq [OF stream, of ns] show ?thesis by auto
qed

definition sample_call :: "method_t \<Rightarrow> string call_context" where
  "sample_call m = (create_http_request (ref_libs []) m ''/in'' [] 5000)\<lparr>x_tx_buffer := ''abcde''\<rparr>"

theorem upload_delivers_content_witness:
  "\<exists>opts x' outs x''. perform_context (ref_libs []) (sample_call POST) = Inr (opts, x')
     \<and> Postfieldsize_large 5 \<in> set opts
     \<and> read_chunks [2, 10, 10] x' = Inr (outs, x'') \<and> concat outs = ''abcde''"
proof -
  have run: "\<exists>opts x'. perform_context (ref_libs []) (sample_call POST) = Inr (opts, x')
      \<and> Postfieldsize_large 5 \<in> set opts"
    by (simp add: perform_context_def input_stream_def method_options_def sample_call_def
        tx_content_length_def create_http_request_def call_context_new_def curl_start_def)
      (simp add: ref_libs_def)
  then obtain opts x' where x': "perform_context (ref_libs []) (sample_call POST) = Inr (opts, x')"
    "Postfieldsize_large 5 \<in> set opts" by blast
  from upload_delivers_content [OF avro_law_ref_libs x'(1), of "[2, 10, 10]"]
  show ?thesis using x' by (auto simp: sample_call_def)
qed

text \<open>
  Only \<^verbatim>\<open>GET\<close>, \<^verbatim>\<open>PUT\<close> and \<^verbatim>\<open>POST\<close> can be performed: with any other method, \<^verbatim>\<open>HEAD\<close> and
  \<^verbatim>\<open>DELETE\<close> among them, \<^verbatim>\<open>_perform\<close> runs into its \<^verbatim>\<open>assert(false)\<close>, after it has made the
  context keep itself alive.
\<close>

theorem perform_methods:
  assumes "avro_law L"
  shows "(case perform_context L x of
      Inr (opts, x') \<Rightarrow> x_method x \<in> {GET, PUT, POST} \<and> x_shared x' \<and> x_private x'
    | Inl f \<Rightarrow> f = Assertion \<and> x_method x \<notin> {GET, PUT, POST})"
  by (simp add: perform_context_eq [OF assms] method_options_def)

theorem perform_methods_witness:
  "perform_context (ref_libs []) (sample_call HEAD) = Inl Assertion"
  using perform_methods [of "ref_libs []" "sample_call HEAD"]
  by (simp add: sample_call_def create_http_request_def call_context_new_def split: sum.splits prod.splits)

text \<open>
  A request can be sent again: what the first run left in the context (stream, header
  list, private pointer) does not reach the options of the second, which are those of a
  fresh context with the same request; the body of the reply is not cleared, though, and
  a context that was done stays done.
\<close>

theorem resend_same_options:
  assumes "avro_law L" and "perform_context L x = Inr (opts, x')"
  shows "\<exists>x''. perform_context L (curl_stop x'\<lparr>x_private := False, x_curl_done := d,
             x_http_result := st, x_transport_ok := t, x_rx_buffer := b\<rparr>) = Inr (opts, x'')
      \<and> x_rx_buffer x'' = b \<and> x_curl_done x'' = d"
proof -
  let ?y = "curl_stop x'\<lparr>x_private := False, x_curl_done := d, x_http_result := st,
    x_transport_ok := t, x_rx_buffer := b\<rparr>"
  from assms obtain opts' where opts': "method_options L x = Inr opts'" "opts = request_options x opts'"
    and x': "x' = x\<lparr>x_shared := True, x_tx_stream := Some (os_content L (x_tx_buffer x)), x_private := True,
           x_headerlist := Some (fixed_headers @ x_tx_headers x)\<rparr>"
    by (auto simp: perform_context_eq)
  have "method_options L ?y = method_options L x" "request_options ?y opts' = request_options x opts'"
    by (simp_all add: x' curl_stop_def method_options_def tx_content_length_def request_options_def)
  with opts' show ?thesis by (simp add: perform_context_eq [OF assms(1)])
qed

theorem resend_same_options_witness:
  "\<exists>opts x' x''. perform_context (ref_libs []) (sample_call PUT) = Inr (opts, x')
     \<and> perform_context (ref_libs []) (curl_stop x'\<lparr>x_private := False, x_curl_done := True,
          x_http_result := 200, x_transport_ok := Some True, x_rx_buffer := ''old''\<rparr>) = Inr (opts, x'')
     \<and> x_rx_buffer x'' = ''old'' \<and> x_curl_done x''"
proof -
  have "method_options (ref_libs []) (sample_call PUT) = Inr [Upload, Infilesize_large 5]"
    by (simp add: method_options_def sample_call_def tx_content_length_def create_http_request_def
        call_context_new_def) (simp add: ref_libs_def)
  then obtain opts x' where x': "perform_context (ref_libs []) (sample_call PUT) = Inr (opts, x')"
    by (simp add: perform_context_eq)
  from resend_same_options [OF avro_law_ref_libs x', where d = True and st = 200 and t = "Some True" and b = "''old''"] x'
  show ?thesis by blast
qed

text \<open>
  The body of a response is collected complete and in order, after what was there:
  each block is acknowledged with its length. A context that is performed again keeps
  the body of its earlier response.
\<close>

theorem download_collects_content:
  assumes "avro_law L"
  shows "os_content L (x_rx_buffer (fold (\<lambda>d x. snd (write_callback L d x)) ds x))
           = os_content L (x_rx_buffer x) @ concat ds
    \<and> (\<forall>d y. fst (write_callback L d y) = length d)"
proof -
  have "os_content L (x_rx_buffer (fold (\<lambda>d x. snd (write_callback L d x)) ds x))
           = os_content L (x_rx_buffer x) @ concat ds"
    by (induction ds arbitrary: x) (simp_all add: write_callback_def avro_lawD [OF assms])
  then show ?thesis by (simp add: write_callback_def)
qed

theorem download_collects_content_witness:
  "os_content (ref_libs []) (x_rx_buffer (fold (\<lambda>d x. snd (write_callback (ref_libs []) d x)) [''a'', ''bc'']
     (call_context_new (ref_libs []) GET ''/'' [] 5000 False))) = ''abc''"
  using download_collects_content [of "ref_libs []" "[''a'', ''bc'']"
      "call_context_new (ref_libs []) GET ''/'' [] 5000 False"]
  by (simp add: call_context_new_def) (simp add: ref_libs_def)

end
