(* ===== verification/Http_Client.thy ===== *)
theory Http_Client
  imports Call_Context
begin

text \<open>
  \<^verbatim>\<open>http_client\<close> (\<^verbatim>\<open>client/http_client.h\<close>, \<^verbatim>\<open>client/http_client.cpp\<close>): the glue between the
  multi interface of libcurl and Asio. The sockets libcurl uses are Asio sockets owned by
  the client; libcurl says through its callbacks what to wait for, and the handlers of
  these waits call libcurl again.

  Two outside parties meet here. The io_service is a list of waits and a queue of
  handlers that are ready to run, in the order they became ready. libcurl is, for each
  call the client makes of it, a tree of the callbacks it makes. What the user does in a
  completion callback is a list of calls of the public operations.
\<close>

section \<open>State\<close>

text \<open>Handlers: contexts and sockets by number; the handle bound to a wait may be empty.\<close>

datatype work =
    Run_timer | Run_keepalive
  | Run_rx nat "nat option" | Run_tx nat "nat option"
  | Run_poll_remove "nat option"
  | Run_delete nat
  | Run_perform nat

text \<open>
  What the client has told the others: the result handed to a completion callback, and
  the options of a request handed to libcurl.
\<close>

datatype told = Called_back nat int "bool option" | Performed nat "curl_opt list" | Cleaned_up

text \<open>
  \<open>sockets\<close> holds the socket objects ever allocated: \<open>None\<close> once deleted, else the native
  handle, \<open>- 1\<close> after a close. \<open>assigned\<close> is what \<^verbatim>\<open>curl_multi_assign\<close> stored per
  descriptor, \<open>added\<close> the easy handles in the multi handle.
\<close>

record 'os http_client =
  socket_map :: "int \<rightharpoonup> nat"
  sockets :: "int option list"
  assigned :: "int \<rightharpoonup> nat"
  added :: "nat list"
  contexts :: "nat \<Rightarrow> 'os call_context"
  waiting :: "work list"
  ready :: "(work \<times> bool) list"
  still_running :: "int option"
  log :: "told list"

datatype user_op = Perform_async nat | Write_content nat string | Set_verbose nat bool

text \<open>
  The outside: the libraries, the operating system's choice of a descriptor for a new
  socket (\<open>None\<close>: it fails), and the reaction of the user to a completed call.
\<close>

record ('os, 'p) client_env =
  ce_libs :: "('os, 'p) libs"
  ce_open :: "int option list \<Rightarrow> int option"
  ce_react :: "nat \<Rightarrow> 'os call_context \<Rightarrow> user_op list"

text \<open>A descriptor that is in use is not handed out again.\<close>

definition open_law :: "(int option list \<Rightarrow> int option) \<Rightarrow> bool" where
  "open_law f \<longleftrightarrow> (\<forall>hs fd. f hs = Some fd \<longrightarrow> Some fd \<notin> set hs \<and> 0 \<le> fd)"

section \<open>The io_service\<close>

definition wait_for :: "work \<Rightarrow> 'os http_client \<Rightarrow> 'os http_client" where
  "wait_for w s = s\<lparr>waiting := waiting s @ [w]\<rparr>"

definition post :: "work \<Rightarrow> bool \<Rightarrow> 'os http_client \<Rightarrow> 'os http_client" where
  "post w success s = s\<lparr>ready := ready s @ [(w, success)]\<rparr>"

text \<open>Cancelling makes the waits ready with an error.\<close>

definition cancel_waits :: "(work \<Rightarrow> bool) \<Rightarrow> 'os http_client \<Rightarrow> 'os http_client" where
  "cancel_waits p s =
     s\<lparr>waiting := filter (\<lambda>w. \<not> p w) (waiting s),
       ready := ready s @ map (\<lambda>w. (w, False)) (filter p (waiting s))\<rparr>"

fun on_socket :: "nat \<Rightarrow> work \<Rightarrow> bool" where
  "on_socket sid (Run_rx sid' h) = (sid' = sid)"
| "on_socket sid (Run_tx sid' h) = (sid' = sid)"
| "on_socket sid w = False"

definition native_handle :: "nat \<Rightarrow> 'os http_client \<Rightarrow> int res" where
  "native_handle sid s =
     (if sid < length (sockets s)
      then (case sockets s ! sid of None \<Rightarrow> Inl Dangling_pointer | Some fd \<Rightarrow> Inr fd)
      else Inl Dangling_pointer)"

text \<open>\<^verbatim>\<open>async_read_some\<close> and \<^verbatim>\<open>async_write_some\<close> with \<^verbatim>\<open>null_buffers\<close>; on a closed socket they fail at once.\<close>

definition async_wait_on :: "nat \<Rightarrow> work \<Rightarrow> 'os http_client \<Rightarrow> 'os http_client res" where
  "async_wait_on sid w s =
     bindE (native_handle sid s) (\<lambda>fd. Inr (if fd = - 1 then post w False s else wait_for w s))"

section \<open>Construction and the public operations\<close>

text \<open>\<open>ctx\<close> are the contexts the user creates in the life of the client.\<close>

definition http_client_new :: "(nat \<Rightarrow> 'os call_context) \<Rightarrow> 'os http_client" where
  "http_client_new ctx =
     \<lparr>socket_map = Map.empty, sockets = [], assigned = Map.empty, added = [], contexts = ctx,
      waiting = [Run_keepalive], ready = [], still_running = None, log = []\<rparr>"

definition client_close :: "'os http_client \<Rightarrow> 'os http_client" where
  "client_close s = cancel_waits (\<lambda>w. w = Run_timer) (cancel_waits (\<lambda>w. w = Run_keepalive) s)"

definition update_context ::
  "nat \<Rightarrow> ('os call_context \<Rightarrow> 'os call_context) \<Rightarrow> 'os http_client \<Rightarrow> 'os http_client" where
  "update_context cid f s = s\<lparr>contexts := (contexts s)(cid := f (contexts s cid))\<rparr>"

definition perform_async :: "nat \<Rightarrow> 'os http_client \<Rightarrow> 'os http_client" where
  "perform_async cid s =
     post (Run_perform cid) True (update_context cid (\<lambda>x. x\<lparr>x_callback := True\<rparr>) s)"

definition calls_back :: "nat \<Rightarrow> told \<Rightarrow> bool" where
  "calls_back cid m = (case m of Called_back cid' _ _ \<Rightarrow> cid' = cid | _ \<Rightarrow> False)"

text \<open>
  \<^verbatim>\<open>perform\<close> up to \<^verbatim>\<open>f.wait()\<close>: the callback it sets fulfils the promise it waits for, so it
  returns when the log has the call of that callback.
\<close>

definition perform_begin :: "nat \<Rightarrow> bool \<Rightarrow> 'os http_client \<Rightarrow> 'os http_client" where
  "perform_begin cid verbose s =
     perform_async cid (update_context cid (\<lambda>x. x\<lparr>x_verbose := verbose\<rparr>) s)"

definition perform_returned :: "nat \<Rightarrow> 'os http_client \<Rightarrow> 'os http_client \<Rightarrow> bool" where
  "perform_returned cid s0 s \<longleftrightarrow>
     list_ex (calls_back cid) (drop (length (log s0)) (log s))"

fun do_user_op :: "('os, 'p) client_env \<Rightarrow> user_op \<Rightarrow> 'os http_client \<Rightarrow> 'os http_client" where
  "do_user_op E (Perform_async cid) s = perform_async cid s"
| "do_user_op E (Write_content cid d) s =
     update_context cid (\<lambda>x. x\<lparr>x_tx_buffer := lib_os_write (ce_libs E) (x_tx_buffer x) d\<rparr>) s"
| "do_user_op E (Set_verbose cid b) s = update_context cid (\<lambda>x. x\<lparr>x_verbose := b\<rparr>) s"

definition tell :: "told \<Rightarrow> 'os http_client \<Rightarrow> 'os http_client" where
  "tell m s = s\<lparr>log := log s @ [m]\<rparr>"

section \<open>The callbacks of libcurl\<close>

definition opensocket_cb :: "('os, 'p) client_env \<Rightarrow> bool \<Rightarrow> 'os http_client \<Rightarrow> int \<times> 'os http_client" where
  "opensocket_cb E ipv4_stream s =
     (if ipv4_stream then
        (let sid = length (sockets s) in
         case ce_open E (sockets s) of
           None \<Rightarrow> (- 1, s\<lparr>sockets := sockets s @ [None]\<rparr>)
         | Some sockfd \<Rightarrow>
             (sockfd, s\<lparr>sockets := sockets s @ [Some sockfd],
                        socket_map := (if sockfd \<in> dom (socket_map s) then socket_map s
                                       else (socket_map s)(sockfd \<mapsto> sid))\<rparr>))
      else (- 1, s))"

definition closesocket_cb :: "int \<Rightarrow> 'os http_client \<Rightarrow> 'os http_client res" where
  "closesocket_cb item s =
     (case socket_map s item of
        None \<Rightarrow> Inr s
      | Some sid \<Rightarrow>
          bindE (native_handle sid s) (\<lambda>_.
            let s = cancel_waits (on_socket sid) s;
                s = s\<lparr>sockets := (sockets s)[sid := Some (- 1)]\<rparr>;
                s = s\<lparr>assigned := (assigned s)(item := None)\<rparr>;
                s = s\<lparr>socket_map := (socket_map s)(item := None)\<rparr>
            in Inr (post (Run_delete sid) True s)))"

text \<open>\<^verbatim>\<open>timer_cb\<close>; \<open>action\<close> is the effect of its call of \<^verbatim>\<open>curl_multi_socket_action\<close>.\<close>

definition timer_cb ::
  "('os http_client \<Rightarrow> 'os http_client res) \<Rightarrow> bool \<Rightarrow> 'os http_client \<Rightarrow> 'os http_client res" where
  "timer_cb action success s = (if success then action s else Inr s)"

definition keepalivetimer_cb :: "bool \<Rightarrow> 'os http_client \<Rightarrow> 'os http_client" where
  "keepalivetimer_cb success s = (if success then wait_for Run_keepalive s else s)"

definition multi_timer_cb ::
  "('os http_client \<Rightarrow> 'os http_client res) \<Rightarrow> int \<Rightarrow> 'os http_client \<Rightarrow> 'os http_client res" where
  "multi_timer_cb action timeout_ms s =
     (let s = cancel_waits (\<lambda>w. w = Run_timer) s in
      if timeout_ms > 0 then Inr (wait_for Run_timer s) else timer_cb action True s)"

text \<open>The \<^verbatim>\<open>what\<close> of the socket callback; the removal comes with what \<^verbatim>\<open>CURLINFO_RESPONSE_CODE\<close> gives.\<close>

datatype poll = Poll_none | Poll_in | Poll_out | Poll_inout | Poll_remove "int option"

definition curl_handle :: "nat \<Rightarrow> 'os http_client \<Rightarrow> nat option" where
  "curl_handle cid s = (if x_shared (contexts s cid) then Some cid else None)"

definition reported :: "int option \<Rightarrow> int" where
  "reported response = (case response of Some http_result \<Rightarrow> http_result | None \<Rightarrow> 0)"

definition store_result :: "nat \<Rightarrow> int option \<Rightarrow> 'os http_client \<Rightarrow> 'os http_client" where
  "store_result cid response s =
     update_context cid (\<lambda>x. x\<lparr>x_http_result := reported response, x_curl_done := True,
                               x_transport_ok := Some (reported response > 0)\<rparr>) s"

definition call_back :: "('os, 'p) client_env \<Rightarrow> nat \<Rightarrow> 'os http_client \<Rightarrow> 'os http_client" where
  "call_back E cid s =
     (let x = contexts s cid in
      if x_callback x
      then fold (do_user_op E) (ce_react E cid x)
             (tell (Called_back cid (x_http_result x) (x_transport_ok x)) s)
      else s)"

definition poll_removed ::
  "('os, 'p) client_env \<Rightarrow> nat \<Rightarrow> int option \<Rightarrow> 'os http_client \<Rightarrow> 'os http_client" where
  "poll_removed E cid response s =
     (let s = store_result cid response s;
          h = curl_handle cid s;
          s = call_back E cid s;
          s = update_context cid curl_stop s;
          s = update_context cid (\<lambda>x. x\<lparr>x_private := False\<rparr>) s
      in post (Run_poll_remove h) True s)"

text \<open>The switch of \<^verbatim>\<open>sock_cb\<close>, once the socket object is known.\<close>

definition sock_switch ::
  "('os, 'p) client_env \<Rightarrow> nat \<Rightarrow> poll \<Rightarrow> nat \<Rightarrow> 'os http_client \<Rightarrow> 'os http_client res" where
  "sock_switch E cid what sid s =
     (case what of
        Poll_remove response \<Rightarrow> Inr (poll_removed E cid response s)
      | Poll_in \<Rightarrow> async_wait_on sid (Run_rx sid (curl_handle cid s)) s
      | Poll_out \<Rightarrow> async_wait_on sid (Run_tx sid (curl_handle cid s)) s
      | Poll_inout \<Rightarrow>
          bindE (async_wait_on sid (Run_rx sid (curl_handle cid s)) s)
            (\<lambda>s. async_wait_on sid (Run_tx sid (curl_handle cid s)) s)
      | Poll_none \<Rightarrow> Inr s)"

text \<open>
  \<open>per_socket\<close> tells whether libcurl passes the pointer assigned to the descriptor, if
  there is one, or a null pointer.
\<close>

definition sock_cb ::
  "('os, 'p) client_env \<Rightarrow> nat \<Rightarrow> int \<Rightarrow> poll \<Rightarrow> bool \<Rightarrow> 'os http_client \<Rightarrow> 'os http_client res" where
  "sock_cb E cid fd what per_socket s =
     (if \<not> x_private (contexts s cid) then Inl Assertion
      else (case (if per_socket then assigned s fd else None) of
          Some sid \<Rightarrow> sock_switch E cid what sid s
        | None \<Rightarrow>
            (case socket_map s fd of
               None \<Rightarrow> Inr s
             | Some sid \<Rightarrow> sock_switch E cid what sid (s\<lparr>assigned := (assigned s)(fd \<mapsto> sid)\<rparr>))))"

section \<open>Calls of libcurl\<close>

text \<open>
  One call of the multi interface: the callbacks libcurl makes in it, and the number of
  running transfers it reports. The value of a callback decides how libcurl goes on where
  it can. A timer callback comes with the behaviour of the call of
  \<^verbatim>\<open>curl_multi_socket_action\<close> that the client may make inside it.
\<close>

datatype curl =
    Return int
  | Timer_call int curl curl
  | Sock_call nat int poll bool curl
  | Open_call bool "int \<Rightarrow> curl"
  | Close_call int curl
  | Write_call nat string curl
  | Read_call nat nat nat "string \<Rightarrow> curl"
  | Header_call nat string curl

definition rx_headers_call :: "string \<Rightarrow> 'os call_context \<Rightarrow> 'os call_context" where
  "rx_headers_call d x =
     (case snd (parse_headers d (Some (x_rx_headers x))) of None \<Rightarrow> x | Some hs \<Rightarrow> x\<lparr>x_rx_headers := hs\<rparr>)"

primrec run_curl :: "('os, 'p) client_env \<Rightarrow> curl \<Rightarrow> 'os http_client \<Rightarrow> (int \<times> 'os http_client) res" where
  "run_curl E (Return n) s = Inr (n, s)"
| "run_curl E (Timer_call timeout_ms nested k) s =
     bindE (multi_timer_cb
         (\<lambda>s. bindE (run_curl E nested s) (\<lambda>(n, s). Inr (s\<lparr>still_running := Some n\<rparr>))) timeout_ms s)
       (run_curl E k)"
| "run_curl E (Sock_call cid fd what per_socket k) s = bindE (sock_cb E cid fd what per_socket s) (run_curl E k)"
| "run_curl E (Open_call ipv4_stream k) s = (case opensocket_cb E ipv4_stream s of (fd, s) \<Rightarrow> run_curl E (k fd) s)"
| "run_curl E (Close_call fd k) s = bindE (closesocket_cb fd s) (run_curl E k)"
| "run_curl E (Write_call cid d k) s = run_curl E k (update_context cid (\<lambda>x. snd (write_callback (ce_libs E) d x)) s)"
| "run_curl E (Read_call cid sz nmemb k) s =
     bindE (read_callback sz nmemb (contexts s cid))
       (\<lambda>(d, x). run_curl E (k d) (update_context cid (\<lambda>_. x) s))"
| "run_curl E (Header_call cid d k) s = run_curl E k (update_context cid (rx_headers_call d) s)"

definition socket_action :: "('os, 'p) client_env \<Rightarrow> curl \<Rightarrow> 'os http_client \<Rightarrow> 'os http_client res" where
  "socket_action E t s = bindE (run_curl E t s) (\<lambda>(n, s). Inr (s\<lparr>still_running := Some n\<rparr>))"

section \<open>The handlers of Asio\<close>

definition socket_rx_cb ::
  "('os, 'p) client_env \<Rightarrow> curl \<Rightarrow> bool \<Rightarrow> nat \<Rightarrow> nat option \<Rightarrow> 'os http_client \<Rightarrow> 'os http_client res" where
  "socket_rx_cb E t success sid h s =
     (if \<not> success then Inr s
      else bindE (deref h) (\<lambda>cid.
        if x_curl_done (contexts s cid) then Inr s
        else bindE (native_handle sid s) (\<lambda>_.
          bindE (socket_action E t s) (\<lambda>s.
            if x_curl_done (contexts s cid) then Inr s
            else async_wait_on sid (Run_rx sid h) s))))"

definition socket_tx_cb ::
  "('os, 'p) client_env \<Rightarrow> curl \<Rightarrow> bool \<Rightarrow> nat \<Rightarrow> nat option \<Rightarrow> 'os http_client \<Rightarrow> 'os http_client res" where
  "socket_tx_cb E t success sid h s =
     (if \<not> success then Inr s
      else bindE (native_handle sid s) (\<lambda>_. socket_action E t s))"

text \<open>\<^verbatim>\<open>delete s\<close> of the handler posted when a socket is closed.\<close>

definition delete_socket :: "nat \<Rightarrow> 'os http_client \<Rightarrow> 'os http_client res" where
  "delete_socket sid s = bindE (native_handle sid s) (\<lambda>_. Inr (s\<lparr>sockets := (sockets s)[sid := None]\<rparr>))"

definition poll_remove_handler ::
  "('os, 'p) client_env \<Rightarrow> curl \<Rightarrow> nat option \<Rightarrow> 'os http_client \<Rightarrow> 'os http_client res" where
  "poll_remove_handler E t h s =
     bindE (deref h) (\<lambda>cid. bindE (run_curl E t s) (\<lambda>(n, s). Inr (s\<lparr>added := remove1 cid (added s)\<rparr>)))"

text \<open>
  \<^verbatim>\<open>_perform\<close>: \<^verbatim>\<open>curl_multi_add_handle\<close> refuses a handle that is in the multi handle already.
\<close>

definition perform_handler ::
  "('os, 'p) client_env \<Rightarrow> curl \<Rightarrow> nat \<Rightarrow> 'os http_client \<Rightarrow> 'os http_client res" where
  "perform_handler E t cid s =
     bindE (perform_context (ce_libs E) (contexts s cid)) (\<lambda>(opts, x).
       let s = tell (Performed cid opts) (update_context cid (\<lambda>_. x) s) in
       if cid \<in> set (added s) then Inr s
       else bindE (run_curl E t (s\<lparr>added := cid # added s\<rparr>)) (\<lambda>(n, s). Inr s))"

definition client_destroy :: "('os, 'p) client_env \<Rightarrow> curl \<Rightarrow> 'os http_client \<Rightarrow> 'os http_client res" where
  "client_destroy E t s =
     bindE (run_curl E t (client_close s)) (\<lambda>(n, s). Inr (tell Cleaned_up s))"

fun run_work :: "('os, 'p) client_env \<Rightarrow> curl \<Rightarrow> work \<Rightarrow> bool \<Rightarrow> 'os http_client \<Rightarrow> 'os http_client res" where
  "run_work E t Run_timer success s = timer_cb (socket_action E t) success s"
| "run_work E t Run_keepalive success s = Inr (keepalivetimer_cb success s)"
| "run_work E t (Run_rx sid h) success s = socket_rx_cb E t success sid h s"
| "run_work E t (Run_tx sid h) success s = socket_tx_cb E t success sid h s"
| "run_work E t (Run_poll_remove h) success s = poll_remove_handler E t h s"
| "run_work E t (Run_delete sid) success s = delete_socket sid s"
| "run_work E t (Run_perform cid) success s = perform_handler E t cid s"

end
