(* ===== verification/Client_Contract.thy ===== *)
theory Client_Contract
  imports Http_Client
begin

text \<open>
  What every callback of libcurl keeps, every call of libcurl keeps: the contract between
  the client and libcurl, as a locale over a property of the client's state. With it come
  the facts about single operations that the invariants of the next theories share.
\<close>

section \<open>Outcomes\<close>

text \<open>A run ends in a state with \<open>P\<close> or in a fault with \<open>Q\<close>.\<close>

definition delivers :: "(fault \<Rightarrow> bool) \<Rightarrow> ('a \<Rightarrow> bool) \<Rightarrow> 'a res \<Rightarrow> bool" where
  "delivers Q P r = (case r of Inl f \<Rightarrow> Q f | Inr a \<Rightarrow> P a)"

lemma delivers_simps [simp]: "delivers Q P (Inl f) = Q f" "delivers Q P (Inr a) = P a"
  by (simp_all add: delivers_def)

lemma delivers_bind:
  "delivers Q P m \<Longrightarrow> (\<And>a. P a \<Longrightarrow> delivers Q R (f a)) \<Longrightarrow> delivers Q R (bindE m f)"
  by (cases m) auto

lemma delivers_mono: "delivers Q P m \<Longrightarrow> (\<And>a. P a \<Longrightarrow> P' a) \<Longrightarrow> delivers Q P' m"
  by (cases m) auto

lemma deliversD: "delivers Q P r \<Longrightarrow> r = Inr a \<Longrightarrow> P a"
  by simp

section \<open>What single operations touch\<close>

lemmas io_defs = wait_for_def post_def cancel_waits_def tell_def update_context_def

lemma fold_keeps: "(\<And>x s. x \<in> set xs \<Longrightarrow> P s \<Longrightarrow> P (f x s)) \<Longrightarrow> P s \<Longrightarrow> P (fold f xs s)"
  by (induction xs arbitrary: s) auto

text \<open>The user's operations and the end of a call do not touch sockets, waits or the multi handle.\<close>

lemma user_op_frame [simp]:
  "socket_map (do_user_op E u s) = socket_map s" "sockets (do_user_op E u s) = sockets s"
  "assigned (do_user_op E u s) = assigned s" "added (do_user_op E u s) = added s"
  "waiting (do_user_op E u s) = waiting s" "log (do_user_op E u s) = log s"
  by (cases u; simp add: perform_async_def io_defs)+

lemma user_ops_frame [simp]:
  "socket_map (fold (do_user_op E) us s) = socket_map s" "sockets (fold (do_user_op E) us s) = sockets s"
  "assigned (fold (do_user_op E) us s) = assigned s" "added (fold (do_user_op E) us s) = added s"
  "waiting (fold (do_user_op E) us s) = waiting s" "log (fold (do_user_op E) us s) = log s"
  by (induction us arbitrary: s) simp_all

lemma store_result_frame [simp]:
  "socket_map (store_result cid r s) = socket_map s" "sockets (store_result cid r s) = sockets s"
  "assigned (store_result cid r s) = assigned s" "added (store_result cid r s) = added s"
  "waiting (store_result cid r s) = waiting s" "ready (store_result cid r s) = ready s"
  "log (store_result cid r s) = log s"
  by (simp_all add: store_result_def Let_def io_defs)

lemma call_back_frame [simp]:
  "socket_map (call_back E cid s) = socket_map s" "sockets (call_back E cid s) = sockets s"
  "assigned (call_back E cid s) = assigned s" "added (call_back E cid s) = added s"
  "waiting (call_back E cid s) = waiting s"
  by (simp_all add: call_back_def Let_def io_defs)

lemma poll_removed_frame [simp]:
  "socket_map (poll_removed E cid r s) = socket_map s" "sockets (poll_removed E cid r s) = sockets s"
  "assigned (poll_removed E cid r s) = assigned s" "added (poll_removed E cid r s) = added s"
  "waiting (poll_removed E cid r s) = waiting s"
  by (simp_all add: poll_removed_def Let_def) (simp_all add: io_defs)

lemma async_wait_on_added:
  "delivers (\<lambda>_. True) (\<lambda>s'. added s' = added s \<and> contexts s' = contexts s \<and> log s' = log s
     \<and> sockets s' = sockets s \<and> socket_map s' = socket_map s \<and> assigned s' = assigned s)
     (async_wait_on sid w s)"
  by (cases "native_handle sid s") (simp_all add: async_wait_on_def io_defs)

lemma sock_switch_added: "sock_switch E cid what sid s = Inr s' \<Longrightarrow> added s' = added s"
  by (cases what) (auto simp: sock_switch_def dest!: deliversD [OF async_wait_on_added])

lemma sock_cb_cases:
  assumes "sock_cb E cid fd what p s = Inr s'"
  obtains (ignored) "x_private (contexts s cid)" "s' = s"
  | (switched) sid t where "x_private (contexts s cid)" "t = s \<or> t = s\<lparr>assigned := (assigned s)(fd \<mapsto> sid)\<rparr>"
      "sock_switch E cid what sid t = Inr s'"
proof -
  have x: "x_private (contexts s cid)" using assms by (simp add: sock_cb_def split: if_splits)
  show thesis
  proof (cases "if p then assigned s fd else None")
    case (Some sid)
    with assms x have "sock_switch E cid what sid s = Inr s'" by (simp add: sock_cb_def)
    with x show thesis using switched by blast
  next
    case None
    show thesis
    proof (cases "socket_map s fd")
      case N: None
      with assms x None have "s' = s" by (simp add: sock_cb_def)
      with x show thesis by (rule ignored)
    next
      case (Some sid)
      with assms x None have "sock_switch E cid what sid (s\<lparr>assigned := (assigned s)(fd \<mapsto> sid)\<rparr>) = Inr s'"
        by (simp add: sock_cb_def)
      with x show thesis using switched by blast
    qed
  qed
qed

lemma sock_cb_added: "sock_cb E cid fd what p s = Inr s' \<Longrightarrow> added s' = added s"
  by (erule sock_cb_cases) (auto dest!: sock_switch_added)

lemma opensocket_cb_added: "opensocket_cb E b s = (fd, s') \<Longrightarrow> added s' = added s"
  by (auto simp: opensocket_cb_def Let_def split: if_splits option.splits)

lemma closesocket_cb_added: "closesocket_cb fd s = Inr s' \<Longrightarrow> added s' = added s"
  by (auto simp: closesocket_cb_def Let_def io_defs split: option.splits)

section \<open>The contract\<close>

text \<open>The easy handles a behaviour of libcurl speaks of.\<close>

primrec easy_handles :: "curl \<Rightarrow> nat set" where
  "easy_handles (Return n) = {}"
| "easy_handles (Timer_call ms nested k) = easy_handles nested \<union> easy_handles k"
| "easy_handles (Sock_call cid fd what p k) = insert cid (easy_handles k)"
| "easy_handles (Open_call b k) = (\<Union>fd. easy_handles (k fd))"
| "easy_handles (Close_call fd k) = easy_handles k"
| "easy_handles (Write_call cid d k) = insert cid (easy_handles k)"
| "easy_handles (Read_call cid sz nmemb k) = insert cid (\<Union>d. easy_handles (k d))"
| "easy_handles (Header_call cid d k) = insert cid (easy_handles k)"

locale curl_contract =
  fixes E :: "('os, 'p) client_env" and P :: "'os http_client \<Rightarrow> bool" and Q :: "fault \<Rightarrow> bool"
  assumes timer_cancelled: "P s \<Longrightarrow> P (cancel_waits (\<lambda>w. w = Run_timer) s)"
    and timer_set: "P s \<Longrightarrow> P (wait_for Run_timer s)"
    and running_told: "P s \<Longrightarrow> P (s\<lparr>still_running := n\<rparr>)"
    and sock_called: "P s \<Longrightarrow> cid \<in> set (added s) \<Longrightarrow> delivers Q P (sock_cb E cid fd what p s)"
    and opened: "P s \<Longrightarrow> P (snd (opensocket_cb E b s))"
    and closed: "P s \<Longrightarrow> delivers Q P (closesocket_cb fd s)"
    and written: "P s \<Longrightarrow> cid \<in> set (added s) \<Longrightarrow>
      P (update_context cid (\<lambda>x. snd (write_callback (ce_libs E) d x)) s)"
    and was_read: "P s \<Longrightarrow> cid \<in> set (added s) \<Longrightarrow>
      delivers Q (\<lambda>(d, x). P (update_context cid (\<lambda>_. x) s)) (read_callback sz nmemb (contexts s cid))"
    and header_seen: "P s \<Longrightarrow> cid \<in> set (added s) \<Longrightarrow> P (update_context cid (rx_headers_call d) s)"
begin

lemma run_keeps:
  "P s \<Longrightarrow> added s = A \<Longrightarrow> easy_handles t \<subseteq> set A \<Longrightarrow>
     delivers Q (\<lambda>(n, s'). P s' \<and> added s' = A) (run_curl E t s)"
proof (induction t arbitrary: s)
  case (Return n)
  then show ?case by simp
next
  case (Timer_call ms nested k)
  let ?c = "cancel_waits (\<lambda>w. w = Run_timer) s"
  have c: "P ?c" "added ?c = A" using Timer_call.prems timer_cancelled by (simp_all add: io_defs)
  have nested: "delivers Q (\<lambda>s'. P s' \<and> added s' = A)
      (bindE (run_curl E nested ?c) (\<lambda>(n, s). Inr (s\<lparr>still_running := Some n\<rparr>)))"
    using Timer_call.IH(1) [OF c] Timer_call.prems
    by (intro delivers_bind [of Q "\<lambda>(n, s'). P s' \<and> added s' = A"]) (auto simp: running_told)
  have "delivers Q (\<lambda>s'. P s' \<and> added s' = A)
      (multi_timer_cb (\<lambda>s. bindE (run_curl E nested s) (\<lambda>(n, s). Inr (s\<lparr>still_running := Some n\<rparr>))) ms s)"
    using c nested timer_set [OF c(1)] by (simp add: multi_timer_cb_def timer_cb_def Let_def) (simp add: io_defs)
  then show ?case using Timer_call.IH(2) Timer_call.prems by (auto intro: delivers_bind)
next
  case (Sock_call cid fd what p k)
  then have "delivers Q P (sock_cb E cid fd what p s)" by (simp add: sock_called)
  then have "delivers Q (\<lambda>s'. P s' \<and> added s' = A) (sock_cb E cid fd what p s)"
    using Sock_call.prems by (cases "sock_cb E cid fd what p s") (auto dest: sock_cb_added)
  then show ?case using Sock_call.IH Sock_call.prems by (auto intro: delivers_bind)
next
  case (Open_call b k)
  obtain fd s' where o: "opensocket_cb E b s = (fd, s')" by fastforce
  with opened [OF Open_call.prems(1), of b] have "P s'" by simp
  with o show ?case
    using Open_call.IH [OF rangeI, of s' fd] Open_call.prems by (auto dest: opensocket_cb_added)
next
  case (Close_call fd k)
  then have "delivers Q P (closesocket_cb fd s)" by (simp add: closed)
  then have "delivers Q (\<lambda>s'. P s' \<and> added s' = A) (closesocket_cb fd s)"
    using Close_call.prems by (cases "closesocket_cb fd s") (auto dest: closesocket_cb_added)
  then show ?case using Close_call.IH Close_call.prems by (auto intro: delivers_bind)
next
  case (Write_call cid d k)
  with written [of s cid d] show ?case by (simp add: update_context_def)
next
  case (Read_call cid sz nmemb k)
  have "delivers Q (\<lambda>(d, x). P (update_context cid (\<lambda>_. x) s)) (read_callback sz nmemb (contexts s cid))"
    using Read_call.prems was_read by simp
  moreover have "delivers Q (\<lambda>(n, s'). P s' \<and> added s' = A) (run_curl E (k d) (update_context cid (\<lambda>_. x) s))"
    if "P (update_context cid (\<lambda>_. x) s)" for d x
    using Read_call.IH [OF rangeI that, of d] Read_call.prems by (auto simp: update_context_def)
  ultimately show ?case by (auto intro: delivers_bind)
next
  case (Header_call cid d k)
  with header_seen [of s cid d] show ?case by (simp add: update_context_def)
qed

lemma action_keeps:
  assumes "P s" and "easy_handles t \<subseteq> set (added s)"
  shows "delivers Q (\<lambda>s'. P s' \<and> added s' = added s) (socket_action E t s)"
  unfolding socket_action_def
  using assms
  by (intro delivers_bind [OF run_keeps [OF assms(1) refl assms(2)]]) (auto simp: running_told)

end

end
