(* ===== verification/Client_Sockets.thy ===== *)
theory Client_Sockets
  imports Client_Contract
begin

text \<open>
  The sockets of the client: who owns a socket object at each moment, from
  \<^verbatim>\<open>opensocket_cb\<close> over \<^verbatim>\<open>closesocket_cb\<close> to the \<^verbatim>\<open>delete\<close> in a posted handler. The
  invariant is a conjunction of small predicates, each on the part of the state it needs.
\<close>

section \<open>The invariant\<close>

fun deletes :: "(work \<times> bool) list \<Rightarrow> nat list" where
  "deletes [] = []"
| "deletes ((Run_delete sid, b) # q) = sid # deletes q"
| "deletes (_ # q) = deletes q"

text \<open>Behind the delete of a socket no successful wait for it is left.\<close>

fun no_late :: "(work \<times> bool) list \<Rightarrow> bool" where
  "no_late [] = True"
| "no_late ((Run_delete sid, b) # q) = (no_late q \<and> (\<forall>w. (w, True) \<in> set q \<longrightarrow> \<not> on_socket sid w))"
| "no_late (_ # q) = no_late q"

definition map_ok :: "(int \<rightharpoonup> nat) \<Rightarrow> int option list \<Rightarrow> bool" where
  "map_ok m hs \<longleftrightarrow> (\<forall>fd sid. m fd = Some sid \<longrightarrow> sid < length hs \<and> hs ! sid = Some fd \<and> 0 \<le> fd)"

text \<open>A live object is in the map, or closed with one delete queued.\<close>

definition live_ok :: "(int \<rightharpoonup> nat) \<Rightarrow> int option list \<Rightarrow> nat list \<Rightarrow> bool" where
  "live_ok m hs ds \<longleftrightarrow>
     (\<forall>sid fd. sid < length hs \<longrightarrow> hs ! sid = Some fd \<longrightarrow> (if fd = - 1 then sid \<in> set ds else m fd = Some sid))"

definition deletes_ok :: "int option list \<Rightarrow> nat list \<Rightarrow> bool" where
  "deletes_ok hs ds \<longleftrightarrow> distinct ds \<and> (\<forall>sid \<in> set ds. sid < length hs \<and> hs ! sid = Some (- 1))"

definition waits_ok :: "(int \<rightharpoonup> nat) \<Rightarrow> work list \<Rightarrow> bool" where
  "waits_ok m ws \<longleftrightarrow> (\<forall>w \<in> set ws. (\<forall>sid. on_socket sid w \<longrightarrow> sid \<in> ran m) \<and> (\<forall>sid. w \<noteq> Run_delete sid))"

definition ready_ok :: "int option list \<Rightarrow> (work \<times> bool) list \<Rightarrow> bool" where
  "ready_ok hs q \<longleftrightarrow> no_late q
     \<and> (\<forall>w sid. (w, True) \<in> set q \<longrightarrow> on_socket sid w \<longrightarrow> sid < length hs \<and> hs ! sid \<noteq> None)"

definition sockets_ok :: "'os http_client \<Rightarrow> bool" where
  "sockets_ok s \<longleftrightarrow>
     map_ok (socket_map s) (sockets s) \<and> assigned s \<subseteq>\<^sub>m socket_map s
     \<and> live_ok (socket_map s) (sockets s) (deletes (ready s)) \<and> deletes_ok (sockets s) (deletes (ready s))
     \<and> waits_ok (socket_map s) (waiting s) \<and> ready_ok (sockets s) (ready s)"

lemmas ok_defs = map_ok_def live_ok_def deletes_ok_def waits_ok_def ready_ok_def

section \<open>The queue\<close>

lemma deletes_append [simp]: "deletes (q @ r) = deletes q @ deletes r"
  by (induction q rule: deletes.induct) simp_all

lemma deletes_errors [simp]:
  "\<forall>w \<in> set ws. \<forall>sid. w \<noteq> Run_delete sid \<Longrightarrow> deletes (map (\<lambda>w. (w, b)) ws) = []"
proof (induction ws)
  case (Cons w ws)
  then show ?case by (cases w) auto
qed simp

lemma deletes_single: "(\<forall>sid. w \<noteq> Run_delete sid) \<Longrightarrow> deletes [(w, b)] = []"
  using deletes_errors [of "[w]" b] by simp

lemma set_deletes: "sid \<in> set (deletes q) \<longleftrightarrow> (\<exists>b. (Run_delete sid, b) \<in> set q)"
  by (induction q rule: deletes.induct) auto

lemma no_late_append:
  "no_late (q @ r) \<longleftrightarrow> no_late q \<and> no_late r
     \<and> (\<forall>sid \<in> set (deletes q). \<forall>w. (w, True) \<in> set r \<longrightarrow> \<not> on_socket sid w)"
  by (induction q rule: no_late.induct) auto

lemma no_late_single [simp]: "no_late [(w, b)]"
  by (cases w) simp_all

lemma no_late_errors [simp]: "no_late (map (\<lambda>w. (w, False)) ws)"
proof (induction ws)
  case (Cons w ws)
  then show ?case by (cases w) auto
qed simp

lemma ready_ok_tail: "ready_ok hs (p # q) \<Longrightarrow> ready_ok hs q"
  using no_late_append [of "[p]" q] by (auto simp: ready_ok_def)

section \<open>Single operations keep the invariant\<close>

lemma sockets_ok_cong:
  assumes "socket_map s' = socket_map s" "sockets s' = sockets s" "assigned s' = assigned s"
    "waiting s' = waiting s" "ready s' = ready s" "sockets_ok s"
  shows "sockets_ok s'"
  using assms by (simp add: sockets_ok_def)

lemma sockets_ok_frame [simp]:
  "sockets_ok (update_context cid f s) = sockets_ok s" "sockets_ok (tell m s) = sockets_ok s"
  "sockets_ok (s\<lparr>still_running := n\<rparr>) = sockets_ok s" "sockets_ok (s\<lparr>added := A\<rparr>) = sockets_ok s"
  by (simp_all add: sockets_ok_def io_defs)

lemma mappedD:
  "sockets_ok s \<Longrightarrow> socket_map s fd = Some sid \<Longrightarrow>
     sid < length (sockets s) \<and> sockets s ! sid = Some fd \<and> 0 \<le> fd"
  by (simp add: sockets_ok_def map_ok_def)

lemma openD:
  "sockets_ok s \<Longrightarrow> sid < length (sockets s) \<Longrightarrow> sockets s ! sid = Some fd \<Longrightarrow> fd \<noteq> - 1 \<Longrightarrow>
     socket_map s fd = Some sid"
  unfolding sockets_ok_def live_ok_def by presburger

lemma closedD:
  "sockets_ok s \<Longrightarrow> sid < length (sockets s) \<Longrightarrow> sockets s ! sid = Some (- 1) \<Longrightarrow> sid \<in> set (deletes (ready s))"
  unfolding sockets_ok_def live_ok_def by presburger

lemma deletedD:
  "sockets_ok s \<Longrightarrow> sid \<in> set (deletes (ready s)) \<Longrightarrow> sid < length (sockets s) \<and> sockets s ! sid = Some (- 1)"
  by (simp add: sockets_ok_def deletes_ok_def)

lemma readyD:
  "sockets_ok s \<Longrightarrow> (w, True) \<in> set (ready s) \<Longrightarrow> on_socket sid w \<Longrightarrow>
     sid < length (sockets s) \<and> sockets s ! sid \<noteq> None"
  unfolding sockets_ok_def ready_ok_def by blast

lemma waitD: "sockets_ok s \<Longrightarrow> w \<in> set (waiting s) \<Longrightarrow> on_socket sid w \<Longrightarrow> sid \<in> ran (socket_map s)"
  by (simp add: sockets_ok_def waits_ok_def)

lemma sockets_ok_queue:
  assumes "sockets_ok s" and "deletes q = []" and "no_late q"
    and "\<And>w sid. (w, True) \<in> set q \<Longrightarrow> on_socket sid w \<Longrightarrow> sid \<in> ran (socket_map s)"
    and "set ws \<subseteq> set (waiting s)"
  shows "sockets_ok (s\<lparr>waiting := ws, ready := ready s @ q\<rparr>)"
proof -
  have mapped: "sid < length (sockets s) \<and> sockets s ! sid \<noteq> None \<and> sid \<notin> set (deletes (ready s))"
    if "sid \<in> ran (socket_map s)" for sid
    using that mappedD [OF assms(1)] deletedD [OF assms(1)] by (fastforce simp: ran_def)
  have "no_late (ready s @ q)"
    using assms(1,3,4) mapped unfolding no_late_append sockets_ok_def ready_ok_def by blast
  then have "ready_ok (sockets s) (ready s @ q)"
    unfolding ready_ok_def using readyD [OF assms(1)] assms(4) mapped by auto
  moreover have "waits_ok (socket_map s) ws" using assms(1,5) by (auto simp: sockets_ok_def waits_ok_def)
  ultimately show ?thesis using assms(1,2) by (simp add: sockets_ok_def)
qed

lemma sockets_ok_cancel:
  assumes "sockets_ok s"
  shows "sockets_ok (cancel_waits p s)"
proof -
  have "\<forall>w \<in> set (filter p (waiting s)). \<forall>sid. w \<noteq> Run_delete sid"
    using assms by (simp add: sockets_ok_def waits_ok_def)
  then show ?thesis unfolding cancel_waits_def by (intro sockets_ok_queue [OF assms]) auto
qed

lemma sockets_ok_post:
  assumes "sockets_ok s" and "\<forall>sid. w \<noteq> Run_delete sid" and "\<forall>sid. on_socket sid w \<longrightarrow> \<not> b"
  shows "sockets_ok (post w b s)"
proof -
  have "sockets_ok (s\<lparr>waiting := waiting s, ready := ready s @ [(w, b)]\<rparr>)"
    using assms by (intro sockets_ok_queue) (auto simp: deletes_single)
  then show ?thesis by (simp add: post_def)
qed

lemma sockets_ok_wait:
  "sockets_ok s \<Longrightarrow> (\<And>sid. on_socket sid w \<Longrightarrow> sid \<in> ran (socket_map s)) \<Longrightarrow> \<forall>sid. w \<noteq> Run_delete sid
     \<Longrightarrow> sockets_ok (wait_for w s)"
  by (auto simp: sockets_ok_def waits_ok_def wait_for_def)

definition alive :: "nat \<Rightarrow> 'os http_client \<Rightarrow> bool" where
  "alive sid s \<longleftrightarrow> sid < length (sockets s) \<and> sockets s ! sid \<noteq> None"

lemma native_handle_alive: "alive sid s \<Longrightarrow> native_handle sid s = Inr (the (sockets s ! sid))"
  by (auto simp: alive_def native_handle_def)

lemma mapped_alive: "sockets_ok s \<Longrightarrow> socket_map s fd = Some sid \<Longrightarrow> alive sid s"
  by (auto simp: sockets_ok_def map_ok_def alive_def)

lemma sockets_ok_async_wait:
  assumes "sockets_ok s" and "alive sid s" and "\<And>sid'. on_socket sid' w \<Longrightarrow> sid' = sid"
    and "\<forall>sid. w \<noteq> Run_delete sid"
  shows "delivers Q sockets_ok (async_wait_on sid w s)"
proof -
  from assms(2) obtain fd where fd: "sockets s ! sid = Some fd" "sid < length (sockets s)"
    by (auto simp: alive_def)
  have "sid \<in> ran (socket_map s)" if "fd \<noteq> - 1"
    using openD [OF assms(1) fd(2,1) that] by (rule ranI)
  with assms fd show ?thesis
    by (auto simp: async_wait_on_def native_handle_alive intro!: sockets_ok_post sockets_ok_wait)
qed

lemma alive_async_wait: "alive sid s \<Longrightarrow> async_wait_on sid w s = Inr s' \<Longrightarrow> alive sid' s' = alive sid' s"
  by (auto simp: async_wait_on_def native_handle_alive alive_def io_defs split: if_splits)

section \<open>The callbacks keep the invariant\<close>

lemma open_lawD: "open_law f \<Longrightarrow> f hs = Some fd \<Longrightarrow> Some fd \<notin> set hs \<and> 0 \<le> fd"
  by (simp add: open_law_def)

lemma map_ok_push: "map_ok m hs \<Longrightarrow> map_ok m (hs @ [h])"
  by (fastforce simp: map_ok_def nth_append)

lemma deletes_ok_push: "deletes_ok hs ds \<Longrightarrow> deletes_ok (hs @ [h]) ds"
  by (auto simp: deletes_ok_def nth_append)

lemma ready_ok_push: "ready_ok hs q \<Longrightarrow> ready_ok (hs @ [h]) q"
  by (auto simp: ready_ok_def nth_append less_SucI)

lemma ready_ok_update: "ready_ok hs q \<Longrightarrow> ready_ok (hs[sid := Some h]) q"
proof -
  assume q: "ready_ok hs q"
  have "hs[sid := Some h] ! i \<noteq> None" if "i < length hs" "hs ! i \<noteq> None" for i
    using that by (cases "i = sid") simp_all
  with q show ?thesis unfolding ready_ok_def length_list_update by blast
qed

lemma waits_ok_mono: "waits_ok m ws \<Longrightarrow> ran m \<subseteq> ran m' \<Longrightarrow> waits_ok m' ws"
  unfolding waits_ok_def by (meson subsetD)

lemma sockets_ok_push_None: "sockets_ok s \<Longrightarrow> sockets_ok (s\<lparr>sockets := sockets s @ [None]\<rparr>)"
proof -
  assume s: "sockets_ok s"
  have "live_ok (socket_map s) (sockets s @ [None]) (deletes (ready s))"
    using openD [OF s] closedD [OF s] by (simp add: live_ok_def nth_append less_Suc_eq)
  then show ?thesis
    using s by (simp add: sockets_ok_def map_ok_push deletes_ok_push ready_ok_push)
qed

lemma sockets_ok_push:
  assumes s: "sockets_ok s" and fd: "Some fd \<notin> set (sockets s)" "0 \<le> fd"
  shows "socket_map s fd = None"
    and "sockets_ok (s\<lparr>sockets := sockets s @ [Some fd], socket_map := (socket_map s)(fd \<mapsto> length (sockets s))\<rparr>)"
proof -
  show None: "socket_map s fd = None"
    using mappedD [OF s, of fd] fd(1) nth_mem by (cases "socket_map s fd") fastforce+
  let ?m = "(socket_map s)(fd \<mapsto> length (sockets s))" and ?hs = "sockets s @ [Some fd]"
  have "map_ok ?m ?hs" using mappedD [OF s] fd(2) by (fastforce simp: map_ok_def nth_append)
  moreover have "assigned s \<subseteq>\<^sub>m ?m"
    using s None by (auto simp: sockets_ok_def map_le_def) (metis domIff option.distinct(1))
  moreover have "live_ok ?m ?hs (deletes (ready s))"
    unfolding live_ok_def
  proof (intro allI impI)
    fix sid fd'
    assume sid: "sid < length ?hs" "?hs ! sid = Some fd'"
    show "if fd' = - 1 then sid \<in> set (deletes (ready s)) else ?m fd' = Some sid"
    proof (cases "sid < length (sockets s)")
      case True
      with sid have h: "sockets s ! sid = Some fd'" by (simp add: nth_append)
      with True fd(1) have "fd' \<noteq> fd" using nth_mem by fastforce
      then show ?thesis using openD [OF s True h] closedD [OF s True] h by auto
    next
      case False
      with sid fd(2) show ?thesis by (simp add: nth_append less_Suc_eq)
    qed
  qed
  moreover have "waits_ok ?m (waiting s)"
  proof (rule waits_ok_mono)
    show "waits_ok (socket_map s) (waiting s)" using s by (simp add: sockets_ok_def)
    show "ran (socket_map s) \<subseteq> ran ?m" using None by (auto simp: ran_map_upd)
  qed
  ultimately show "sockets_ok (s\<lparr>sockets := ?hs, socket_map := ?m\<rparr>)"
    using s by (simp add: sockets_ok_def deletes_ok_push ready_ok_push)
qed

lemma opensocket_keeps:
  assumes "open_law (ce_open E)" and "sockets_ok s"
  shows "sockets_ok (snd (opensocket_cb E b s))"
proof (cases "b \<and> ce_open E (sockets s) \<noteq> None")
  case True
  then obtain fd where fd: "ce_open E (sockets s) = Some fd" by blast
  have "Some fd \<notin> set (sockets s)" "0 \<le> fd" using open_lawD [OF assms(1) fd] by simp_all
  with sockets_ok_push [OF assms(2), of fd] True fd show ?thesis
    by (simp add: opensocket_cb_def Let_def domIff)
next
  case False
  with assms sockets_ok_push_None show ?thesis by (auto simp: opensocket_cb_def Let_def)
qed

text \<open>Closing: the waits of the socket become errors, the object leaves the map, its delete is queued.\<close>

lemma close_keeps:
  assumes s: "sockets_ok s" and fd: "socket_map s fd = Some sid" and none: "\<forall>w \<in> set (waiting s). \<not> on_socket sid w"
  shows "sockets_ok (post (Run_delete sid) True (s\<lparr>sockets := (sockets s)[sid := Some (- 1)],
           assigned := (assigned s)(fd := None), socket_map := (socket_map s)(fd := None)\<rparr>))"
proof -
  let ?m = "(socket_map s)(fd := None)" and ?hs = "(sockets s)[sid := Some (- 1)]"
    and ?ds = "deletes (ready s) @ [sid]"
  have sid: "sid < length (sockets s)" "sockets s ! sid = Some fd" "0 \<le> fd" using mappedD [OF s fd] by simp_all
  have uniq: "fd' = fd" if "socket_map s fd' = Some sid" for fd'
    using mappedD [OF s that] sid(2) by simp
  have new: "sid \<notin> set (deletes (ready s))" using deletedD [OF s, of sid] sid by auto
  have "map_ok ?m ?hs"
    unfolding map_ok_def
  proof (intro allI impI)
    fix fd' sid'
    assume m: "?m fd' = Some sid'"
    then have "sid' \<noteq> sid" using uniq by (auto split: if_splits)
    with m mappedD [OF s, of fd' sid'] show "sid' < length ?hs \<and> ?hs ! sid' = Some fd' \<and> 0 \<le> fd'"
      by (simp split: if_splits)
  qed
  moreover have "(assigned s)(fd := None) \<subseteq>\<^sub>m ?m" using s by (auto simp: sockets_ok_def map_le_def)
  moreover have "live_ok ?m ?hs ?ds"
    unfolding live_ok_def
  proof (intro allI impI)
    fix sid' fd'
    assume sid': "sid' < length ?hs" "?hs ! sid' = Some fd'"
    show "if fd' = - 1 then sid' \<in> set ?ds else ?m fd' = Some sid'"
    proof (cases "sid' = sid")
      case True
      with sid sid' show ?thesis by simp
    next
      case False
      with sid' have h: "sid' < length (sockets s)" "sockets s ! sid' = Some fd'" by simp_all
      have "fd' \<noteq> fd" using openD [OF s h] fd sid(3) False by auto
      then show ?thesis using openD [OF s h] closedD [OF s h(1)] h(2) by auto
    qed
  qed
  moreover have "deletes_ok ?hs ?ds"
    using s sid new deletedD [OF s] by (auto simp: sockets_ok_def deletes_ok_def nth_list_update)
  moreover have "waits_ok ?m (waiting s)"
    unfolding waits_ok_def
  proof (intro ballI conjI allI impI)
    fix w sid'
    assume w: "w \<in> set (waiting s)" "on_socket sid' w"
    with none have "sid' \<noteq> sid" by blast
    from waitD [OF s w] obtain fd' where "socket_map s fd' = Some sid'" by (auto simp: ran_def)
    with \<open>sid' \<noteq> sid\<close> fd have "?m fd' = Some sid'" by auto
    then show "sid' \<in> ran ?m" by (rule ranI)
  qed (use s in \<open>auto simp: sockets_ok_def waits_ok_def\<close>)
  moreover have "ready_ok ?hs (ready s @ [(Run_delete sid, True)])"
    using ready_ok_update [of "sockets s" "ready s"] s
    unfolding ready_ok_def no_late_append by (auto simp: sockets_ok_def ready_ok_def)
  ultimately show ?thesis by (simp add: sockets_ok_def post_def)
qed

lemma closesocket_keeps:
  assumes "sockets_ok s"
  shows "delivers Q sockets_ok (closesocket_cb fd s)"
proof (cases "socket_map s fd")
  case None
  with assms show ?thesis by (simp add: closesocket_cb_def)
next
  case (Some sid)
  let ?c = "cancel_waits (on_socket sid) s"
  have c: "sockets_ok ?c" "socket_map ?c fd = Some sid" "\<forall>w \<in> set (waiting ?c). \<not> on_socket sid w"
    using assms Some by (simp_all add: sockets_ok_cancel) (simp_all add: cancel_waits_def)
  from close_keeps [OF c] Some show ?thesis
    by (simp add: closesocket_cb_def Let_def native_handle_alive [OF mapped_alive [OF assms Some]])
qed

lemma user_op_keeps: "sockets_ok s \<Longrightarrow> sockets_ok (do_user_op E u s)"
  by (cases u) (simp_all add: perform_async_def sockets_ok_post)

lemma call_back_keeps: "sockets_ok s \<Longrightarrow> sockets_ok (call_back E cid s)"
  by (auto simp: call_back_def Let_def user_op_keeps intro!: fold_keeps [where P = sockets_ok])

lemma poll_removed_keeps: "sockets_ok s \<Longrightarrow> sockets_ok (poll_removed E cid r s)"
  unfolding poll_removed_def Let_def store_result_def
  by (intro sockets_ok_post) (simp_all add: call_back_keeps)

lemma sock_switch_keeps:
  assumes "sockets_ok s" and "alive sid s"
  shows "delivers Q sockets_ok (sock_switch E cid what sid s)"
proof (cases what)
  case Poll_inout
  have rx: "delivers Q sockets_ok (async_wait_on sid (Run_rx sid (curl_handle cid s)) s)"
    using assms by (intro sockets_ok_async_wait) auto
  have "delivers Q sockets_ok (async_wait_on sid (Run_tx sid h) t)"
    if "async_wait_on sid (Run_rx sid (curl_handle cid s)) s = Inr t" for t h
    using rx that alive_async_wait [OF assms(2) that, of sid] assms(2) by (intro sockets_ok_async_wait) auto
  with Poll_inout rx show ?thesis
    by (cases "async_wait_on sid (Run_rx sid (curl_handle cid s)) s") (auto simp: sock_switch_def)
next
  case (Poll_remove r)
  with assms show ?thesis by (simp add: sock_switch_def poll_removed_keeps)
qed (use assms in \<open>auto simp: sock_switch_def intro!: sockets_ok_async_wait\<close>)

lemma sockets_ok_assign:
  "sockets_ok s \<Longrightarrow> socket_map s fd = Some sid \<Longrightarrow> sockets_ok (s\<lparr>assigned := (assigned s)(fd \<mapsto> sid)\<rparr>)"
  by (auto simp: sockets_ok_def map_le_def)

lemma sock_cb_keeps:
  assumes "sockets_ok s" and "Q Assertion"
  shows "delivers Q sockets_ok (sock_cb E cid fd what p s)"
proof -
  have "socket_map s fd = Some sid" if "assigned s fd = Some sid" for sid
    using assms(1) that unfolding sockets_ok_def map_le_def by (metis domI)
  then have known: "delivers Q sockets_ok (sock_switch E cid what sid s)"
    if "assigned s fd = Some sid" for sid
    using that assms(1) mapped_alive sock_switch_keeps by blast
  have found: "delivers Q sockets_ok (sock_switch E cid what sid (s\<lparr>assigned := (assigned s)(fd \<mapsto> sid)\<rparr>))"
    if "socket_map s fd = Some sid" for sid
    using sockets_ok_assign [OF assms(1) that] mapped_alive [OF assms(1) that]
    by (intro sock_switch_keeps) (auto simp: alive_def)
  show ?thesis using assms known found by (auto simp: sock_cb_def split: option.splits)
qed

end
