(* ===== verification/Client_Safety.thy ===== *)
theory Client_Safety
  imports Client_Sockets
begin

text \<open>
  The calls of the client, their handles and the queue: the second half of the invariant,
  and the contract with libcurl discharged for both halves.
\<close>

section \<open>The calls\<close>

fun handled :: "work \<Rightarrow> bool" where
  "handled (Run_rx sid h) = (h \<noteq> None)"
| "handled (Run_tx sid h) = (h \<noteq> None)"
| "handled (Run_poll_remove h) = (h \<noteq> None)"
| "handled w = True"

text \<open>
  A context libcurl can name is alive: it holds a reference to itself, or the handler that
  takes it out of the multi handle holds one. \<open>C\<close> are the calls that this is not asked of.
\<close>

definition calls_ok :: "nat set \<Rightarrow> 'os http_client \<Rightarrow> bool" where
  "calls_ok C s \<longleftrightarrow>
     (\<forall>cid. x_private (contexts s cid) \<longrightarrow> x_shared (contexts s cid)) \<and> distinct (added s)
     \<and> (\<forall>cid \<in> set (added s). x_tx_stream (contexts s cid) \<noteq> None
          \<and> (cid \<in> C \<or> x_shared (contexts s cid) \<or> Run_poll_remove (Some cid) \<in> fst ` set (ready s)))
     \<and> (\<forall>w \<in> set (waiting s) \<union> fst ` set (ready s). handled w)"

text \<open>The part of a context the invariant reads.\<close>

definition same_call :: "'os call_context \<Rightarrow> 'os call_context \<Rightarrow> bool" where
  "same_call x y \<longleftrightarrow> x_private x = x_private y \<and> x_shared x = x_shared y
     \<and> (x_tx_stream x = None \<longleftrightarrow> x_tx_stream y = None)"

lemma same_call_refl [simp]: "same_call x x"
  by (simp add: same_call_def)

lemma calls_ok_mono:
  assumes "calls_ok C s" and "\<And>cid. same_call (contexts s' cid) (contexts s cid)"
    and "added s' = added s" and "set (ready s) \<subseteq> set (ready s')"
    and "\<And>w. w \<in> set (waiting s') \<union> fst ` set (ready s') \<Longrightarrow> w \<in> set (waiting s) \<union> fst ` set (ready s) \<or> handled w"
  shows "calls_ok C s'"
  unfolding calls_ok_def
proof (intro conjI)
  show "\<forall>cid \<in> set (added s'). x_tx_stream (contexts s' cid) \<noteq> None
          \<and> (cid \<in> C \<or> x_shared (contexts s' cid) \<or> Run_poll_remove (Some cid) \<in> fst ` set (ready s'))"
  proof
    fix cid
    assume "cid \<in> set (added s')"
    with assms(1,3) have "x_tx_stream (contexts s cid) \<noteq> None"
      "cid \<in> C \<or> x_shared (contexts s cid) \<or> Run_poll_remove (Some cid) \<in> fst ` set (ready s)"
      by (simp_all add: calls_ok_def)
    then show "x_tx_stream (contexts s' cid) \<noteq> None
        \<and> (cid \<in> C \<or> x_shared (contexts s' cid) \<or> Run_poll_remove (Some cid) \<in> fst ` set (ready s'))"
      using assms(2) [of cid] image_mono [OF assms(4), of fst] by (auto simp: same_call_def)
  qed
  show "\<forall>cid. x_private (contexts s' cid) \<longrightarrow> x_shared (contexts s' cid)"
    using assms(1,2) unfolding calls_ok_def same_call_def by blast
  show "distinct (added s')" using assms(1,3) by (simp add: calls_ok_def)
  show "\<forall>w \<in> set (waiting s') \<union> fst ` set (ready s'). handled w"
    using assms(1,5) unfolding calls_ok_def by blast
qed

lemma calls_ok_update:
  "calls_ok C s \<Longrightarrow> same_call (f (contexts s cid)) (contexts s cid) \<Longrightarrow> calls_ok C (update_context cid f s)"
  by (erule calls_ok_mono) (auto simp: update_context_def)

lemma calls_ok_post: "calls_ok C s \<Longrightarrow> handled w \<Longrightarrow> calls_ok C (post w b s)"
  by (erule calls_ok_mono) (auto simp: post_def)

lemma calls_ok_wait: "calls_ok C s \<Longrightarrow> handled w \<Longrightarrow> calls_ok C (wait_for w s)"
  by (erule calls_ok_mono) (auto simp: wait_for_def)

lemma calls_ok_cancel: "calls_ok C s \<Longrightarrow> calls_ok C (cancel_waits p s)"
  by (erule calls_ok_mono) (auto simp: cancel_waits_def image_iff)

lemma calls_ok_frame [simp]:
  "calls_ok C (tell m s) = calls_ok C s" "calls_ok C (s\<lparr>still_running := n\<rparr>) = calls_ok C s"
  "calls_ok C (s\<lparr>assigned := a\<rparr>) = calls_ok C s" "calls_ok C (s\<lparr>sockets := hs\<rparr>) = calls_ok C s"
  "calls_ok C (s\<lparr>socket_map := m'\<rparr>) = calls_ok C s"
  by (simp_all add: calls_ok_def tell_def)

lemma opensocket_frame:
  "added (snd (opensocket_cb E b s)) = added s" "contexts (snd (opensocket_cb E b s)) = contexts s"
  "waiting (snd (opensocket_cb E b s)) = waiting s" "ready (snd (opensocket_cb E b s)) = ready s"
  "log (snd (opensocket_cb E b s)) = log s"
  by (simp_all add: opensocket_cb_def Let_def split: option.split)

lemma calls_ok_opensocket: "calls_ok C s \<Longrightarrow> calls_ok C (snd (opensocket_cb E b s))"
  by (simp add: calls_ok_def opensocket_frame)

lemma calls_ok_closesocket:
  assumes "calls_ok C s" and "closesocket_cb fd s = Inr s'"
  shows "calls_ok C s'"
proof (cases "socket_map s fd")
  case None
  with assms show ?thesis by (simp add: closesocket_cb_def)
next
  case (Some sid)
  let ?c = "cancel_waits (on_socket sid) s"
  have s': "s' = post (Run_delete sid) True (?c\<lparr>sockets := (sockets ?c)[sid := Some (- 1)],
      assigned := (assigned ?c)(fd := None), socket_map := (socket_map ?c)(fd := None)\<rparr>)"
    using assms(2) Some by (auto simp: closesocket_cb_def Let_def)
  have "calls_ok C ?c" using assms(1) by (rule calls_ok_cancel)
  then show ?thesis unfolding s' by (intro calls_ok_post) simp_all
qed

lemma calls_ok_async_wait:
  "calls_ok C s \<Longrightarrow> handled w \<Longrightarrow> async_wait_on sid w s = Inr s' \<Longrightarrow> calls_ok C s'"
  by (auto simp: async_wait_on_def intro: calls_ok_post calls_ok_wait split: if_splits)

lemma calls_ok_user_op: "calls_ok C s \<Longrightarrow> calls_ok C (do_user_op E u s)"
  by (cases u) (auto simp: perform_async_def same_call_def intro!: calls_ok_post calls_ok_update)

lemma user_op_same: "same_call (contexts (do_user_op E u s) cid) (contexts s cid)"
  by (cases u) (simp_all add: perform_async_def io_defs same_call_def)

lemma curl_handle_handled:
  "calls_ok C s \<Longrightarrow> x_private (contexts s cid) \<Longrightarrow> curl_handle cid s = Some cid"
  by (simp add: curl_handle_def calls_ok_def)

text \<open>The end of a call: the reference it held is passed on to the queue.\<close>

lemma calls_ok_stop:
  assumes "calls_ok C s"
  shows "calls_ok C (post (Run_poll_remove (Some cid)) True
           (update_context cid (\<lambda>x. x\<lparr>x_private := False\<rparr>) (update_context cid curl_stop s)))"
  using assms by (auto simp: calls_ok_def io_defs curl_stop_def)

lemma calls_ok_call_back: "calls_ok C s \<Longrightarrow> calls_ok C (call_back E cid s)"
  by (auto simp: call_back_def Let_def calls_ok_user_op intro!: fold_keeps [where P = "calls_ok C"])

lemma calls_ok_store_result: "calls_ok C s \<Longrightarrow> calls_ok C (store_result cid r s)"
  by (auto simp: store_result_def Let_def same_call_def intro!: calls_ok_update)

lemma store_result_same [simp]:
  "x_shared (contexts (store_result cid r s) cid') = x_shared (contexts s cid')"
  "x_private (contexts (store_result cid r s) cid') = x_private (contexts s cid')"
  by (simp_all add: store_result_def Let_def update_context_def)

lemma calls_ok_poll_removed:
  assumes "calls_ok C s" and "x_private (contexts s cid)"
  shows "calls_ok C (poll_removed E cid r s)"
proof -
  have "curl_handle cid (store_result cid r s) = Some cid"
    using assms by (simp add: curl_handle_def calls_ok_def)
  then show ?thesis
    using assms(1)
    by (simp add: poll_removed_def Let_def calls_ok_stop calls_ok_call_back calls_ok_store_result)
qed

lemma calls_ok_sock_switch:
  assumes "calls_ok C s" and "x_private (contexts s cid)" and "sock_switch E cid what sid s = Inr s'"
  shows "calls_ok C s'"
proof -
  have h: "curl_handle cid s = Some cid" using assms(1,2) by (rule curl_handle_handled)
  have keep: "contexts t = contexts s" if "async_wait_on sid w s = Inr t" for w t
    using deliversD [OF async_wait_on_added that] by simp
  show ?thesis
  proof (cases what)
    case Poll_inout
    with assms(3) h obtain t where t: "async_wait_on sid (Run_rx sid (Some cid)) s = Inr t"
      "async_wait_on sid (Run_tx sid (curl_handle cid t)) t = Inr s'"
      by (auto simp: sock_switch_def)
    with h keep have "curl_handle cid t = Some cid" by (simp add: curl_handle_def)
    with t have tx: "async_wait_on sid (Run_tx sid (Some cid)) t = Inr s'" by simp
    have "calls_ok C t" using calls_ok_async_wait [OF assms(1) _ t(1)] by simp
    then show ?thesis using calls_ok_async_wait [OF _ _ tx] by simp
  qed (use assms h in \<open>auto simp: sock_switch_def calls_ok_poll_removed
      dest!: calls_ok_async_wait [OF assms(1), rotated]\<close>)
qed

lemma calls_ok_sock_cb:
  assumes "calls_ok C s" and "sock_cb E cid fd what p s = Inr s'"
  shows "calls_ok C s'"
  using assms(2)
proof (cases rule: sock_cb_cases)
  case ignored
  with assms(1) show ?thesis by simp
next
  case (switched sid t)
  with assms(1) have "calls_ok C t" "x_private (contexts t cid)" by auto
  then show ?thesis using switched(3) by (rule calls_ok_sock_switch)
qed

section \<open>The contract with libcurl, discharged\<close>

definition client_ok :: "('os, 'p) client_env \<Rightarrow> nat set \<Rightarrow> 'os http_client \<Rightarrow> bool" where
  "client_ok E C s \<longleftrightarrow> open_law (ce_open E) \<and> sockets_ok s \<and> calls_ok C s"

lemma delivers_conj: "delivers Q P r \<Longrightarrow> (\<And>a. r = Inr a \<Longrightarrow> P' a) \<Longrightarrow> delivers Q (\<lambda>a. P a \<and> P' a) r"
  by (cases r) auto

interpretation client: curl_contract E "client_ok E C" "\<lambda>f. f = Assertion" for E :: "('os, 'p) client_env" and C
proof
  fix s :: "'os http_client" and cid fd :: nat and b p n d sz nmemb
  assume ok: "client_ok E C s"
  then have s: "open_law (ce_open E)" "sockets_ok s" "calls_ok C s" by (simp_all add: client_ok_def)
  show "client_ok E C (cancel_waits (\<lambda>w. w = Run_timer) s)" "client_ok E C (wait_for Run_timer s)"
    "client_ok E C (s\<lparr>still_running := n\<rparr>)" "client_ok E C (snd (opensocket_cb E b s))"
    using s sockets_ok_wait [OF s(2), of Run_timer]
    by (simp_all add: client_ok_def sockets_ok_cancel calls_ok_cancel calls_ok_wait
        opensocket_keeps calls_ok_opensocket)
  show "delivers (\<lambda>f. f = Assertion) (client_ok E C) (closesocket_cb fd' s)" for fd'
    unfolding client_ok_def
    using s closesocket_keeps [OF s(2), of "\<lambda>f. f = Assertion" fd']
    by (auto simp: delivers_def split: sum.splits dest: calls_ok_closesocket)
  show "delivers (\<lambda>f. f = Assertion) (client_ok E C) (sock_cb E cid fd' what p s)" for fd' what
    unfolding client_ok_def
    using s sock_cb_keeps [OF s(2), of "\<lambda>f. f = Assertion" E cid fd' what p]
    by (auto simp: delivers_def split: sum.splits dest: calls_ok_sock_cb)
  show "client_ok E C (update_context cid (\<lambda>x. snd (write_callback (ce_libs E) d x)) s)"
    "client_ok E C (update_context cid (rx_headers_call d) s)"
    using s by (auto simp: client_ok_def write_callback_def rx_headers_call_def parse_headers_def same_call_def
        intro!: calls_ok_update)
  show "delivers (\<lambda>f. f = Assertion) (\<lambda>(d, x). client_ok E C (update_context cid (\<lambda>_. x) s))
      (read_callback sz nmemb (contexts s cid))" if "cid \<in> set (added s)"
  proof -
    from that s(3) obtain str where "x_tx_stream (contexts s cid) = Some str"
      by (auto simp: calls_ok_def)
    then show ?thesis
      using s by (auto simp: read_callback_def client_ok_def same_call_def split: prod.splits intro!: calls_ok_update)
  qed
qed

lemma alive_sock_switch: "alive sid s \<Longrightarrow> sock_switch E cid what sid' s = Inr s' \<Longrightarrow> alive sid s'"
  by (cases what) (auto simp: sock_switch_def alive_def dest!: deliversD [OF async_wait_on_added])

interpretation living: curl_contract E "alive sid" "\<lambda>_. True" for E :: "('os, 'p) client_env" and sid
proof
  fix s :: "'os http_client" and cid fd :: nat and b p n d sz nmemb
  assume s: "alive sid s"
  then show "alive sid (cancel_waits (\<lambda>w. w = Run_timer) s)" "alive sid (wait_for Run_timer s)"
    "alive sid (s\<lparr>still_running := n\<rparr>)" "alive sid (snd (opensocket_cb E b s))"
    "alive sid (update_context cid (\<lambda>x. snd (write_callback (ce_libs E) d x)) s)"
    "alive sid (update_context cid (rx_headers_call d) s)"
    by (auto simp: alive_def io_defs opensocket_cb_def Let_def nth_append split: option.splits)
  show "delivers (\<lambda>_. True) (alive sid) (closesocket_cb fd' s)" for fd'
    using s by (auto simp: closesocket_cb_def Let_def io_defs alive_def nth_list_update delivers_def
        native_handle_def split: option.splits sum.splits)
  have "alive sid s'" if "sock_cb E cid fd' what p s = Inr s'" for fd' what s'
    using that
  proof (cases rule: sock_cb_cases)
    case ignored
    with s show ?thesis by simp
  next
    case (switched sid' t)
    with s have "alive sid t" by (auto simp: alive_def)
    then show ?thesis using switched(3) by (rule alive_sock_switch)
  qed
  then show "delivers (\<lambda>_. True) (alive sid) (sock_cb E cid fd' what p s)" for fd' what
    by (simp add: delivers_def split: sum.splits)
  show "delivers (\<lambda>_. True) (\<lambda>(d, x). alive sid (update_context cid (\<lambda>_. x) s))
      (read_callback sz nmemb (contexts s cid))"
    using s by (auto simp: delivers_def alive_def io_defs split: sum.splits)
qed

end
