(* ===== verification/Client_Steps.thy ===== *)
theory Client_Steps
  imports Client_Safety
begin

text \<open>
  The client at work: each handler keeps the invariant, hence every step of the io_service
  and of the user does; the properties of all reachable states follow.
\<close>

section \<open>Steps\<close>

text \<open>The handles libcurl can speak of while a handler runs: those in the multi handle.\<close>

fun known :: "work \<Rightarrow> 'os http_client \<Rightarrow> nat set" where
  "known (Run_perform cid) s = insert cid (set (added s))"
| "known w s = set (added s)"

definition fresh_calls :: "('os, 'p) libs \<Rightarrow> (nat \<Rightarrow> 'os call_context) \<Rightarrow> bool" where
  "fresh_calls L ctx \<longleftrightarrow> (\<forall>cid. \<exists>m uri hs timeout. ctx cid = create_http_request L m uri hs timeout)"

text \<open>
  The reactor makes a wait ready, the io_service runs the first ready handler, the user
  calls a public operation or closes the client.
\<close>

inductive client_step :: "('os, 'p) client_env \<Rightarrow> 'os http_client \<Rightarrow> 'os http_client \<Rightarrow> bool" for E where
  reactor: "waiting s = xs @ w # ys \<Longrightarrow>
     client_step E s (s\<lparr>waiting := xs @ ys, ready := ready s @ [(w, b)]\<rparr>)"
| run: "ready s = (w, b) # q \<Longrightarrow> easy_handles t \<subseteq> known w s \<Longrightarrow>
     run_work E t w b (s\<lparr>ready := q\<rparr>) = Inr s' \<Longrightarrow> client_step E s s'"
| user: "client_step E s (do_user_op E u s)"
| close: "client_step E s (client_close s)"

inductive client_reachable :: "('os, 'p) client_env \<Rightarrow> 'os http_client \<Rightarrow> bool" for E where
  init: "fresh_calls (ce_libs E) ctx \<Longrightarrow> client_reachable E (http_client_new ctx)"
| step: "client_reachable E s \<Longrightarrow> client_step E s s' \<Longrightarrow> client_reachable E s'"

section \<open>The handlers keep the invariant\<close>

lemma client_ok_pop:
  assumes "client_ok E {} s" and "ready s = (w, b) # q" and "\<forall>sid. w \<noteq> Run_delete sid"
    and "\<And>cid. w = Run_poll_remove (Some cid) \<Longrightarrow> cid \<in> C"
  shows "client_ok E C (s\<lparr>ready := q\<rparr>)"
proof -
  have "deletes (ready s) = deletes q" using assms(2) deletes_single [OF assms(3), of b]
    deletes_append [of "[(w, b)]" q] by simp
  moreover have "ready_ok (sockets s) q"
    using assms(1,2) ready_ok_tail unfolding client_ok_def sockets_ok_def by metis
  ultimately have "sockets_ok (s\<lparr>ready := q\<rparr>)" using assms(1) by (simp add: client_ok_def sockets_ok_def)
  moreover have "calls_ok C (s\<lparr>ready := q\<rparr>)"
    using assms(1,2,4) unfolding client_ok_def calls_ok_def by auto
  ultimately show ?thesis using assms(1) by (simp add: client_ok_def)
qed

lemma sockets_ok_delete:
  assumes s: "sockets_ok s" and q: "ready s = (Run_delete sid, b) # q"
  shows "sockets_ok (s\<lparr>ready := q, sockets := (sockets s)[sid := None]\<rparr>)"
proof -
  have sid: "sid < length (sockets s)" "sockets s ! sid = Some (- 1)" using deletedD [OF s, of sid] q by simp_all
  have new: "sid \<notin> set (deletes q)" using s q by (simp add: sockets_ok_def deletes_ok_def)
  have "map_ok (socket_map s) ((sockets s)[sid := None])"
    using mappedD [OF s] sid unfolding map_ok_def by (metis length_list_update nth_list_update_neq option.inject
      add.inverse_inverse neg_0_le_iff_le not_one_le_zero)
  moreover have "live_ok (socket_map s) ((sockets s)[sid := None]) (deletes q)"
    unfolding live_ok_def
  proof (intro allI impI)
    fix sid' fd
    assume h: "sid' < length ((sockets s)[sid := None])" "(sockets s)[sid := None] ! sid' = Some fd"
    then have "sid' \<noteq> sid" using sid(1) by auto
    with h have h': "sid' < length (sockets s)" "sockets s ! sid' = Some fd" by simp_all
    show "if fd = - 1 then sid' \<in> set (deletes q) else socket_map s fd = Some sid'"
      using openD [OF s h'] closedD [OF s h'(1)] h'(2) q \<open>sid' \<noteq> sid\<close> by auto
  qed
  moreover have "deletes_ok ((sockets s)[sid := None]) (deletes q)"
    using s q new by (auto simp: sockets_ok_def deletes_ok_def nth_list_update)
  moreover have "ready_ok ((sockets s)[sid := None]) q"
    unfolding ready_ok_def
  proof (intro conjI allI impI)
    show "no_late q" using s q by (simp add: sockets_ok_def ready_ok_def)
    fix w sid'
    assume w: "(w, True) \<in> set q" "on_socket sid' w"
    with s q have "sid' \<noteq> sid" by (auto simp: sockets_ok_def ready_ok_def)
    with readyD [OF s, of w sid'] w q
    show "sid' < length ((sockets s)[sid := None])" "(sockets s)[sid := None] ! sid' \<noteq> None" by simp_all
  qed
  ultimately show ?thesis using s by (simp add: sockets_ok_def)
qed

lemma client_ok_delete:
  assumes "client_ok E {} s" and "ready s = (Run_delete sid, b) # q"
  shows "delivers Q (client_ok E {}) (delete_socket sid (s\<lparr>ready := q\<rparr>))"
proof -
  have s: "sockets_ok s" "calls_ok {} s" using assms(1) by (simp_all add: client_ok_def)
  have "native_handle sid (s\<lparr>ready := q\<rparr>) = Inr (- 1)"
    using deletedD [OF s(1), of sid] assms(2) by (simp add: native_handle_def)
  moreover have "calls_ok {} (s\<lparr>ready := q\<rparr>)" using s(2) assms(2) by (auto simp: calls_ok_def)
  ultimately show ?thesis
    using assms(1) sockets_ok_delete [OF s(1) assms(2)] by (simp add: delete_socket_def client_ok_def)
qed

lemma client_ok_wait_on:
  assumes "client_ok E C s" and "alive sid s" and "w = Run_rx sid h \<or> w = Run_tx sid h" and "h \<noteq> None"
  shows "delivers Q (client_ok E C) (async_wait_on sid w s)"
proof -
  have "delivers Q sockets_ok (async_wait_on sid w s)"
    using assms by (intro sockets_ok_async_wait) (auto simp: client_ok_def)
  moreover have "calls_ok C s'" if "async_wait_on sid w s = Inr s'" for s'
    using calls_ok_async_wait [OF _ _ that] assms by (auto simp: client_ok_def)
  ultimately show ?thesis using assms(1) by (auto simp: delivers_def client_ok_def split: sum.splits)
qed

lemma rx_keeps:
  assumes "client_ok E {} s" and "h \<noteq> None" and "b \<Longrightarrow> alive sid s" and "easy_handles t \<subseteq> set (added s)"
  shows "delivers (\<lambda>f. f = Assertion) (client_ok E {}) (socket_rx_cb E t b sid h s)"
proof (cases b)
  case True
  from assms(2) obtain cid where h: "h = Some cid" by blast
  have act: "delivers (\<lambda>f. f = Assertion) (\<lambda>s'. client_ok E {} s' \<and> alive sid s') (socket_action E t s)"
    using delivers_conj [OF delivers_mono [OF client.action_keeps [OF assms(1,4)]]]
      deliversD [OF living.action_keeps [OF assms(3) [OF True] assms(4)]] by auto
  have "delivers (\<lambda>f. f = Assertion) (client_ok E {}) (bindE (socket_action E t s) (\<lambda>s.
      if x_curl_done (contexts s cid) then Inr s else async_wait_on sid (Run_rx sid h) s))"
    using act by (rule delivers_bind) (use h in \<open>auto intro!: client_ok_wait_on\<close>)
  with True assms(1) show ?thesis
    unfolding h by (auto simp: socket_rx_cb_def native_handle_alive [OF assms(3) [OF True]])
qed (use assms(1) in \<open>simp add: socket_rx_cb_def\<close>)

lemma tx_keeps:
  assumes "client_ok E {} s" and "b \<Longrightarrow> alive sid s" and "easy_handles t \<subseteq> set (added s)"
  shows "delivers (\<lambda>f. f = Assertion) (client_ok E {}) (socket_tx_cb E t b sid h s)"
proof (cases b)
  case True
  then show ?thesis
    using delivers_mono [OF client.action_keeps [OF assms(1,3)]]
    by (simp add: socket_tx_cb_def native_handle_alive [OF assms(2) [OF True]])
qed (use assms(1) in \<open>simp add: socket_tx_cb_def\<close>)

text \<open>Once a handle is out of the multi handle, nothing has to keep its context alive.\<close>

lemma poll_remove_keeps:
  assumes "client_ok E {cid} s" and "easy_handles t \<subseteq> set (added s)"
  shows "delivers (\<lambda>f. f = Assertion) (client_ok E {}) (poll_remove_handler E t (Some cid) s)"
proof -
  have "client_ok E {} (s'\<lparr>added := remove1 cid (added s)\<rparr>)" if "client_ok E {cid} s' \<and> added s' = added s" for s'
    using that by (auto simp: client_ok_def calls_ok_def)
  then have "delivers (\<lambda>f. f = Assertion) (client_ok E {})
      (bindE (run_curl E t s) (\<lambda>(n, s). Inr (s\<lparr>added := remove1 cid (added s)\<rparr>)))"
    by (intro delivers_bind [OF client.run_keeps [OF assms(1) refl assms(2)]]) (simp split: prod.splits cong: conj_cong)
  then show ?thesis by (simp add: poll_remove_handler_def)
qed

lemma perform_keeps:
  assumes "client_ok E {} s" and "avro_law (ce_libs E)" and "easy_handles t \<subseteq> insert cid (set (added s))"
  shows "delivers (\<lambda>f. f = Assertion) (client_ok E {}) (perform_handler E t cid s)"
proof (cases "method_options (ce_libs E) (contexts s cid)")
  case (Inl f)
  then show ?thesis
    using assms(2) by (auto simp: perform_handler_def perform_context_eq method_options_def split: if_splits)
next
  case (Inr opts)
  define opts' where "opts' = request_options (contexts s cid) opts"
  define x where "x = (contexts s cid)\<lparr>x_shared := True,
      x_tx_stream := Some (os_content (ce_libs E) (x_tx_buffer (contexts s cid))), x_private := True,
      x_headerlist := Some (fixed_headers @ x_tx_headers (contexts s cid))\<rparr>"
  define s1 where "s1 = tell (Performed cid opts') (update_context cid (\<lambda>_. x) s)"
  have ctx: "perform_context (ce_libs E) (contexts s cid) = Inr (opts', x)"
    using Inr assms(2) by (simp add: perform_context_eq opts'_def x_def)
  have live: "x_shared x" "x_tx_stream x \<noteq> None" by (simp_all add: x_def)
  have ok1: "client_ok E {} s1"
    using assms(1) live by (auto simp: client_ok_def s1_def) (auto simp: calls_ok_def update_context_def)
  have ok2: "client_ok E {} (s1\<lparr>added := cid # added s1\<rparr>)" if "cid \<notin> set (added s1)"
    using that ok1 live by (auto simp: client_ok_def calls_ok_def) (auto simp: s1_def tell_def update_context_def)
  have "added s1 = added s" by (simp add: s1_def tell_def update_context_def)
  then have t: "easy_handles t \<subseteq> set (added (s1\<lparr>added := cid # added s1\<rparr>))" using assms(3) by simp
  have "perform_handler E t cid s = (if cid \<in> set (added s1) then Inr s1
      else bindE (run_curl E t (s1\<lparr>added := cid # added s1\<rparr>)) (\<lambda>(n, s). Inr s))"
    by (simp add: perform_handler_def ctx s1_def Let_def)
  then show ?thesis
    using ok1 client.run_keeps [OF ok2 refl t] by (auto intro: delivers_bind)
qed

lemma run_work_keeps:
  assumes s: "client_ok E {} s" and L: "avro_law (ce_libs E)" and q: "ready s = (w, b) # q"
    and t: "easy_handles t \<subseteq> known w s"
  shows "delivers (\<lambda>f. f = Assertion) (client_ok E {}) (run_work E t w b (s\<lparr>ready := q\<rparr>))"
proof -
  let ?s = "s\<lparr>ready := q\<rparr>"
  have pop: "client_ok E {} ?s" if "\<forall>sid. w \<noteq> Run_delete sid" "\<forall>cid. w \<noteq> Run_poll_remove (Some cid)"
    using that by (intro client_ok_pop [OF s q]) auto
  have hd: "alive sid ?s" if "on_socket sid w" "b" for sid
    using readyD [of s w sid] s q that by (simp add: client_ok_def alive_def)
  have handled: "handled w" using s q by (simp add: client_ok_def calls_ok_def)
  show ?thesis
  proof (cases w)
    case Run_timer
    then show ?thesis
      using pop t delivers_mono [OF client.action_keeps [of E "{}" ?s t]] by (auto simp: timer_cb_def)
  next
    case Run_keepalive
    have "client_ok E {} (wait_for Run_keepalive ?s)"
      using pop Run_keepalive by (auto simp: client_ok_def intro!: sockets_ok_wait calls_ok_wait)
    with pop Run_keepalive show ?thesis by (simp add: keepalivetimer_cb_def)
  next
    case (Run_rx sid h)
    with pop hd handled t show ?thesis by (auto intro!: rx_keeps)
  next
    case (Run_tx sid h)
    with pop hd t show ?thesis by (auto intro!: tx_keeps)
  next
    case (Run_poll_remove h)
    with handled obtain cid where h: "h = Some cid" by auto
    have "client_ok E {cid} ?s" using Run_poll_remove h by (intro client_ok_pop [OF s q]) auto
    with Run_poll_remove h t show ?thesis by (auto intro!: poll_remove_keeps)
  next
    case (Run_delete sid)
    with client_ok_delete s q show ?thesis by fastforce
  next
    case (Run_perform cid)
    with pop t L show ?thesis by (auto intro!: perform_keeps)
  qed
qed

lemma client_ok_new: "open_law (ce_open E) \<Longrightarrow> fresh_calls L ctx \<Longrightarrow> client_ok E {} (http_client_new ctx)"
proof -
  assume *: "open_law (ce_open E)" "fresh_calls L ctx"
  have "\<not> x_private (ctx cid)" for cid
    using *(2) unfolding fresh_calls_def
    by (metis call_context_new_def create_http_request_def call_context.select_convs(16))
  with * show ?thesis
    by (simp add: client_ok_def sockets_ok_def calls_ok_def http_client_new_def ok_defs)
qed

lemma client_ok_step:
  assumes "client_step E s s'" and "client_ok E {} s" and "avro_law (ce_libs E)"
  shows "client_ok E {} s'"
  using assms
proof (induction rule: client_step.induct)
  case (reactor s xs w ys b)
  then have w: "w \<in> set (waiting s)" "set (xs @ ys) \<subseteq> set (waiting s)" by auto
  have s: "sockets_ok s" "calls_ok {} s" using reactor by (simp_all add: client_ok_def)
  have "sockets_ok (s\<lparr>waiting := xs @ ys, ready := ready s @ [(w, b)]\<rparr>)"
    using w waitD [OF s(1)] s(1) by (intro sockets_ok_queue) (auto simp: sockets_ok_def waits_ok_def deletes_single)
  moreover have "calls_ok {} (s\<lparr>waiting := xs @ ys, ready := ready s @ [(w, b)]\<rparr>)"
    using s(2) w by (intro calls_ok_mono [OF s(2)]) auto
  ultimately show ?case using reactor by (simp add: client_ok_def)
next
  case (run s w b q t s')
  then show ?case using run_work_keeps [OF run(4,5,1,2)] by simp
next
  case (user s u)
  then show ?case by (simp add: client_ok_def user_op_keeps calls_ok_user_op)
next
  case (close s)
  then show ?case by (simp add: client_ok_def client_close_def sockets_ok_cancel calls_ok_cancel)
qed

lemma client_reachable_ok:
  "client_reachable E s \<Longrightarrow> avro_law (ce_libs E) \<Longrightarrow> open_law (ce_open E) \<Longrightarrow> client_ok E {} s"
  by (induction rule: client_reachable.induct) (auto intro: client_ok_new client_ok_step)

end
