(* ===== verification/Client_Calls.thy ===== *)
theory Client_Calls
  imports Client_Steps
begin

text \<open>
  Invariants of the calls alone, in a locale of their own: a property of contexts and log
  that survives the end of a call, a new run of it and the data libcurl moves, survives
  everything the client does. Its two instances are the balance of runs and completion
  callbacks, and the mark of a call that is done.
\<close>

section \<open>What the operations do to contexts and log\<close>

lemma async_wait_frame:
  assumes "async_wait_on sid w s = Inr s'"
  shows "contexts s' = contexts s \<and> log s' = log s"
  using deliversD [OF async_wait_on_added assms] by simp

lemma closesocket_frame: "closesocket_cb fd s = Inr s' \<Longrightarrow> contexts s' = contexts s \<and> log s' = log s"
  by (auto simp: closesocket_cb_def Let_def io_defs split: option.splits)

text \<open>Data moved by libcurl or by the user leaves the state of the call as it is.\<close>

definition kept :: "'os call_context \<Rightarrow> 'os call_context \<Rightarrow> bool" where
  "kept x y \<longleftrightarrow> x_private x = x_private y \<and> x_shared x = x_shared y \<and> x_curl_done x = x_curl_done y"

lemma kept_data:
  "kept (snd (write_callback L d x)) x" "kept (rx_headers_call d x) x"
  "read_callback sz nmemb x = Inr (d, y) \<Longrightarrow> kept y x"
  by (auto simp: kept_def write_callback_def rx_headers_call_def parse_headers_def read_callback_def read_loop_eq
      split: if_splits)

section \<open>Invariants of calls\<close>

locale call_invariant =
  fixes E :: "('os, 'p) client_env" and P :: "'os http_client \<Rightarrow> bool"
  assumes frame: "contexts s' = contexts s \<Longrightarrow> log s' = log s \<Longrightarrow> P s \<Longrightarrow> P s'"
    and removed: "P s \<Longrightarrow> x_private (contexts s cid) \<Longrightarrow> P (poll_removed E cid r s)"
    and moved: "P s \<Longrightarrow> kept x (contexts s cid) \<Longrightarrow> P (update_context cid (\<lambda>_. x) s)"
    and performed: "P s \<Longrightarrow> perform_context (ce_libs E) (contexts s cid) = Inr (opts, x) \<Longrightarrow>
      P (tell (Performed cid opts) (update_context cid (\<lambda>_. x) s))"
begin

lemma updated: "P s \<Longrightarrow> kept (f (contexts s cid)) (contexts s cid) \<Longrightarrow> P (update_context cid f s)"
  using moved [of s "f (contexts s cid)" cid] by (simp add: update_context_def)

lemma user_keeps:
  assumes "P s"
  shows "P (do_user_op E u s)"
proof (cases u)
  case (Perform_async cid)
  have "P (update_context cid (\<lambda>x. x\<lparr>x_callback := True\<rparr>) s)"
    using assms by (intro updated) (simp_all add: kept_def)
  then show ?thesis by (rule frame [rotated -1]) (simp_all add: Perform_async perform_async_def post_def)
qed (use assms in \<open>auto simp: kept_def intro!: updated\<close>)

lemma switch_keeps:
  assumes "P s" and "x_private (contexts s cid)" and "sock_switch E cid what sid s = Inr s'"
  shows "P s'"
proof (cases what)
  case Poll_none
  with assms show ?thesis by (simp add: sock_switch_def)
next
  case Poll_in
  with assms(3) have "async_wait_on sid (Run_rx sid (curl_handle cid s)) s = Inr s'" by (simp add: sock_switch_def)
  from async_wait_frame [OF this] frame assms(1) show ?thesis by blast
next
  case Poll_out
  with assms(3) have "async_wait_on sid (Run_tx sid (curl_handle cid s)) s = Inr s'" by (simp add: sock_switch_def)
  from async_wait_frame [OF this] frame assms(1) show ?thesis by blast
next
  case Poll_inout
  with assms(3) obtain t where "async_wait_on sid (Run_rx sid (curl_handle cid s)) s = Inr t"
    "async_wait_on sid (Run_tx sid (curl_handle cid t)) t = Inr s'"
    by (auto simp: sock_switch_def)
  from this [THEN async_wait_frame] show ?thesis by (intro frame [OF _ _ assms(1)]) simp_all
next
  case (Poll_remove r)
  with assms(3) have "s' = poll_removed E cid r s" by (simp add: sock_switch_def)
  with assms(1,2) show ?thesis by (simp add: removed)
qed

lemma sock_keeps:
  assumes "P s" and "sock_cb E cid fd what p s = Inr s'"
  shows "P s'"
  using assms(2)
proof (cases rule: sock_cb_cases)
  case ignored
  with assms(1) show ?thesis by simp
next
  case (switched sid t)
  then have "contexts t = contexts s" "log t = log s" by auto
  with assms(1) switched(1) have "P t" "x_private (contexts t cid)" using frame by auto
  then show ?thesis using switched(3) by (rule switch_keeps)
qed

end

sublocale call_invariant \<subseteq> curl: curl_contract E P "\<lambda>_. True"
proof
  fix s cid fd what b p n d sz nmemb
  assume s: "P s"
  show "P (cancel_waits (\<lambda>w. w = Run_timer) s)" "P (wait_for Run_timer s)" "P (s\<lparr>still_running := n\<rparr>)"
    "P (snd (opensocket_cb E b s))"
    by (rule frame [OF _ _ s]; simp add: io_defs opensocket_frame)+
  show "P (update_context cid (\<lambda>x. snd (write_callback (ce_libs E) d x)) s)"
    "P (update_context cid (rx_headers_call d) s)"
    using s by (auto intro!: updated simp: kept_data)
  show "delivers (\<lambda>_. True) P (closesocket_cb fd s)"
    using s frame closesocket_frame [of fd s] by (simp add: delivers_def split: sum.splits)
  show "delivers (\<lambda>_. True) P (sock_cb E cid fd what p s)"
    using sock_keeps [OF s, of cid fd what p] by (simp add: delivers_def split: sum.splits)
  show "delivers (\<lambda>_. True) (\<lambda>(d, x). P (update_context cid (\<lambda>_. x) s)) (read_callback sz nmemb (contexts s cid))"
    using moved [OF s kept_data(3)] by (auto simp: delivers_def split: sum.splits)
qed

context call_invariant
begin

lemma action:
  "P s \<Longrightarrow> easy_handles t \<subseteq> set (added s) \<Longrightarrow> socket_action E t s = Inr s' \<Longrightarrow> P s'"
  using deliversD [OF curl.action_keeps] by blast

lemma run_keeps:
  "P s \<Longrightarrow> easy_handles t \<subseteq> set (added s) \<Longrightarrow> run_curl E t s = Inr (n, s') \<Longrightarrow> P s'"
  using deliversD [OF curl.run_keeps] by blast

lemma work_keeps:
  assumes P: "P s" and t: "easy_handles t \<subseteq> known w s" and run: "run_work E t w b s = Inr s'"
  shows "P s'"
proof (cases w)
  case Run_timer
  with run P t show ?thesis by (auto simp: timer_cb_def split: if_splits dest: action [OF P, rotated])
next
  case Run_keepalive
  with run have "contexts s' = contexts s" "log s' = log s" by (auto simp: keepalivetimer_cb_def io_defs)
  with P show ?thesis by (simp add: frame [of s' s])
next
  case (Run_rx sid h)
  show ?thesis
  proof (cases "socket_rx_cb E t b sid h s = Inr s")
    case True
    with Run_rx run P show ?thesis by simp
  next
    case False
    with Run_rx run obtain cid s1 where s1: "socket_action E t s = Inr s1"
      "s' = s1 \<or> async_wait_on sid (Run_rx sid h) s1 = Inr s'"
      by (auto simp: socket_rx_cb_def split: if_splits)
    have "P s1" using t Run_rx by (intro action [OF P _ s1(1)]) simp
    with s1(2) async_wait_frame frame show ?thesis by blast
  qed
next
  case (Run_tx sid h)
  with run P t show ?thesis by (auto simp: socket_tx_cb_def split: if_splits dest: action [OF P, rotated])
next
  case (Run_poll_remove h)
  with run obtain cid n s1 where s1: "run_curl E t s = Inr (n, s1)" "s' = s1\<lparr>added := remove1 cid (added s1)\<rparr>"
    by (auto simp: poll_remove_handler_def)
  have "P s1" using t Run_poll_remove by (intro run_keeps [OF P _ s1(1)]) simp
  then show ?thesis unfolding s1(2) by (rule frame [rotated -1]) simp_all
next
  case (Run_delete sid)
  with run have "contexts s' = contexts s" "log s' = log s" by (auto simp: delete_socket_def)
  with P show ?thesis by (simp add: frame [of s' s])
next
  case (Run_perform cid)
  with run obtain opts x where x: "perform_context (ce_libs E) (contexts s cid) = Inr (opts, x)"
    by (auto simp: perform_handler_def)
  let ?s = "tell (Performed cid opts) (update_context cid (\<lambda>_. x) s)"
  have "P ?s" using P x by (rule performed)
  then have added: "P (?s\<lparr>added := A\<rparr>)" for A by (rule frame [rotated -1]) simp_all
  have "added ?s = added s" by (simp add: io_defs)
  have t': "easy_handles t \<subseteq> set (added (?s\<lparr>added := cid # added s\<rparr>))" using t Run_perform by simp
  show ?thesis
    using run x Run_perform \<open>P ?s\<close> \<open>added ?s = added s\<close>
    by (auto simp: perform_handler_def Let_def split: if_splits dest: run_keeps [OF added t'])
qed

lemma step_keeps:
  assumes "client_step E s s'" and "P s"
  shows "P s'"
  using assms
proof (induction rule: client_step.induct)
  case (reactor s xs w ys b)
  show ?case by (rule frame [OF _ _ reactor(2)]) simp_all
next
  case (run s w b q t s')
  have "P (s\<lparr>ready := q\<rparr>)" using run(4) by (rule frame [rotated -1]) simp_all
  moreover have "easy_handles t \<subseteq> known w (s\<lparr>ready := q\<rparr>)" using run(2) by (cases w) simp_all
  ultimately show ?case using run(3) by (rule work_keeps)
next
  case (user s u)
  then show ?case by (rule user_keeps)
next
  case (close s)
  show ?case by (rule frame [OF _ _ close]) (simp_all add: client_close_def io_defs)
qed

lemma reachable_keeps:
  assumes "client_reachable E s" and "\<And>ctx. fresh_calls (ce_libs E) ctx \<Longrightarrow> P (http_client_new ctx)"
  shows "P s"
  using assms by (induction rule: client_reachable.induct) (auto intro: step_keeps)

end

section \<open>The balance of runs and callbacks\<close>

definition performs :: "nat \<Rightarrow> told \<Rightarrow> bool" where
  "performs cid m = (case m of Performed cid' _ \<Rightarrow> cid' = cid | _ \<Rightarrow> False)"

text \<open>Between two performs a call is called back at most once: the private pointer is the token.\<close>

definition paid :: "nat \<Rightarrow> 'os http_client \<Rightarrow> bool" where
  "paid cid s \<longleftrightarrow> length (filter (calls_back cid) (log s)) + (if x_private (contexts s cid) then 1 else 0)
      \<le> length (filter (performs cid) (log s))"

lemma user_op_private [simp]: "x_private (contexts (do_user_op E u s) cid) = x_private (contexts s cid)"
  using user_op_same [of E u s cid] by (simp add: same_call_def)

lemma user_ops_private [simp]: "x_private (contexts (fold (do_user_op E) us s) cid) = x_private (contexts s cid)"
  by (induction us arbitrary: s) simp_all

lemma poll_removed_log:
  "log (poll_removed E cid r s) = log s
   \<or> (\<exists>n b. log (poll_removed E cid r s) = log s @ [Called_back cid n b])"
  by (auto simp: poll_removed_def store_result_def call_back_def Let_def io_defs)

lemma paid_log:
  "log s' = log s \<or> (\<exists>n b. log s' = log s @ [Called_back cid n b]) \<Longrightarrow>
   length (filter (performs cid') (log s')) = length (filter (performs cid') (log s))
   \<and> length (filter (calls_back cid') (log s'))
        \<le> length (filter (calls_back cid') (log s)) + (if cid = cid' then 1 else 0)"
  by (auto simp: calls_back_def performs_def)

lemma poll_removed_private:
  "x_private (contexts (poll_removed E cid r s) cid') = (cid' \<noteq> cid \<and> x_private (contexts s cid'))"
  by (simp add: poll_removed_def store_result_def call_back_def Let_def io_defs curl_stop_def)

lemma paid_poll_removed:
  assumes "paid cid' s" and "x_private (contexts s cid)"
  shows "paid cid' (poll_removed E cid r s)"
  using paid_log [OF poll_removed_log [of E cid r s], of cid'] assms
  by (cases "cid' = cid") (simp_all add: paid_def poll_removed_private)

lemma performed_private:
  "perform_context L x = Inr (opts, x') \<Longrightarrow> x_private x' \<and> x_curl_done x' = x_curl_done x"
  by (auto simp: perform_context_def Let_def curl_start_def split: if_splits)

interpretation balance: call_invariant E "paid cid" for E :: "('os, 'p) client_env" and cid
proof
  fix s s' :: "'os http_client" and cid' r x opts
  show "contexts s' = contexts s \<Longrightarrow> log s' = log s \<Longrightarrow> paid cid s \<Longrightarrow> paid cid s'" by (simp add: paid_def)
  show "paid cid s \<Longrightarrow> x_private (contexts s cid') \<Longrightarrow> paid cid (poll_removed E cid' r s)"
    by (rule paid_poll_removed)
  show "paid cid s \<Longrightarrow> kept x (contexts s cid') \<Longrightarrow> paid cid (update_context cid' (\<lambda>_. x) s)"
    by (auto simp: paid_def kept_def update_context_def)
  show "paid cid s \<Longrightarrow> perform_context (ce_libs E) (contexts s cid') = Inr (opts, x) \<Longrightarrow>
      paid cid (tell (Performed cid' opts) (update_context cid' (\<lambda>_. x) s))"
    by (auto simp: paid_def io_defs performs_def calls_back_def dest: performed_private split: if_splits)
qed

section \<open>Done is for ever\<close>

lemma user_ops_done [simp]:
  "x_curl_done (contexts (fold (do_user_op E) us s) cid) = x_curl_done (contexts s cid)"
proof (induction us arbitrary: s)
  case (Cons u us)
  have "x_curl_done (contexts (do_user_op E u s) cid) = x_curl_done (contexts s cid)"
    by (cases u) (simp_all add: perform_async_def io_defs)
  with Cons show ?case by simp
qed simp

interpretation completed: call_invariant E "\<lambda>s. x_curl_done (contexts s cid)"
  for E :: "('os, 'p) client_env" and cid
proof
  fix s s' :: "'os http_client" and cid' r x opts
  show "x_curl_done (contexts s cid) \<Longrightarrow> x_curl_done (contexts (poll_removed E cid' r s) cid)"
    by (auto simp: poll_removed_def store_result_def call_back_def Let_def io_defs curl_stop_def)
  show "x_curl_done (contexts s cid) \<Longrightarrow> perform_context (ce_libs E) (contexts s cid') = Inr (opts, x) \<Longrightarrow>
      x_curl_done (contexts (tell (Performed cid' opts) (update_context cid' (\<lambda>_. x) s)) cid)"
    by (auto simp: io_defs dest: performed_private)
qed (auto simp: kept_def update_context_def)

end
