(* ===== verification/Client_Properties.thy ===== *)
theory Client_Properties
  imports Client_Calls
begin

text \<open>
  What the client guarantees and where it does not: ownership of sockets and contexts, the
  completion callback, the timer, and the fate of a request that is sent again.
\<close>

section \<open>An environment for the witnesses\<close>

text \<open>The operating system numbers sockets from 0; the user reacts as \<open>react\<close> says.\<close>

definition sample_open :: "int option list \<Rightarrow> int option" where
  "sample_open hs = (if Some (int (length hs)) \<in> set hs then None else Some (int (length hs)))"

definition sample_env :: "(nat \<Rightarrow> string call_context \<Rightarrow> user_op list) \<Rightarrow> (string, script) client_env" where
  "sample_env react = \<lparr>ce_libs = ref_libs [], ce_open = sample_open, ce_react = react\<rparr>"

lemma open_law_sample [simp]: "open_law (ce_open (sample_env react))"
  by (simp add: open_law_def sample_env_def sample_open_def)

lemma avro_law_sample [simp]: "avro_law (ce_libs (sample_env react))"
  by (simp add: sample_env_def)

definition sample_client :: "method_t \<Rightarrow> string http_client" where
  "sample_client m = http_client_new (\<lambda>_. create_http_request (ref_libs []) m ''/'' [] 5000)"

lemma sample_reachable: "client_reachable (sample_env react) (sample_client m)"
  unfolding sample_client_def
  by (rule client_reachable.init) (auto simp: sample_env_def fresh_calls_def)

lemma sample_started: "client_reachable (sample_env react) (perform_async 0 (sample_client m))"
  using client_reachable.step [OF sample_reachable client_step.user [where u = "Perform_async 0"]] by simp

lemmas sample_defs = sample_client_def http_client_new_def perform_async_def io_defs sample_env_def
  sample_open_def

section \<open>Memory\<close>

text \<open>
  C8. Whatever libcurl calls back, whatever becomes ready in whatever order and whatever the
  user does in completion callbacks, no handler of the client uses a deleted socket, an
  empty handle or a missing stream: the only thing that can stop one is an \<^verbatim>\<open>assert\<close>.
\<close>

theorem client_only_asserts:
  assumes "client_reachable E s" and "avro_law (ce_libs E)" and "open_law (ce_open E)"
    and "ready s = (w, b) # q" and "easy_handles t \<subseteq> known w s"
    and "run_work E t w b (s\<lparr>ready := q\<rparr>) = Inl f"
  shows "f = Assertion"
  using run_work_keeps [OF client_reachable_ok [OF assms(1-3)] assms(2,4,5)] assms(6) by simp

theorem client_only_asserts_witness:
  "run_work (sample_env (\<lambda>_ _. [])) (Return 0) (Run_perform 0) True
     ((perform_async 0 (sample_client HEAD))\<lparr>ready := []\<rparr>) = Inl Assertion"
proof -
  let ?E = "sample_env (\<lambda>_ _. [])" and ?s = "perform_async 0 (sample_client HEAD)"
  have r: "ready ?s = (Run_perform 0, True) # []" by (simp add: sample_defs)
  have "method_options (ce_libs ?E) (contexts (?s\<lparr>ready := []\<rparr>) 0) = Inl Assertion"
    by (simp add: sample_defs method_options_def create_http_request_def call_context_new_def)
  then obtain f where f: "run_work ?E (Return 0) (Run_perform 0) True (?s\<lparr>ready := []\<rparr>) = Inl f"
    by (simp add: perform_handler_def perform_context_eq [OF avro_law_sample])
  moreover have "f = Assertion"
    using client_only_asserts [OF sample_started avro_law_sample open_law_sample r _ f] by simp
  ultimately show ?thesis by simp
qed

lemma count_deletes: "count_list (map fst q) (Run_delete sid) = count_list (deletes q) sid"
  by (induction q rule: deletes.induct) auto

lemma count_distinct: "distinct xs \<Longrightarrow> count_list xs x = (if x \<in> set xs then 1 else 0)"
  by (induction xs) auto

text \<open>
  C9. Every socket object has one owner: it is the entry of its own descriptor in
  \<^verbatim>\<open>_socket_map\<close>, or it is closed and exactly one handler that deletes it is queued, or it
  is deleted. So none leaks and none is deleted twice, and libcurl is never left with a
  pointer to a socket that is not in the map.
\<close>

theorem sockets_owned:
  assumes "client_reachable E s" and "avro_law (ce_libs E)" and "open_law (ce_open E)"
    and "sid < length (sockets s)"
  shows "(case sockets s ! sid of
      None \<Rightarrow> sid \<notin> ran (socket_map s) \<and> count_list (map fst (ready s)) (Run_delete sid) = 0
    | Some fd \<Rightarrow>
        if fd = - 1 then sid \<notin> ran (socket_map s) \<and> count_list (map fst (ready s)) (Run_delete sid) = 1
        else socket_map s fd = Some sid \<and> count_list (map fst (ready s)) (Run_delete sid) = 0)
    \<and> assigned s \<subseteq>\<^sub>m socket_map s"
proof -
  have s: "sockets_ok s" using client_reachable_ok [OF assms(1-3)] by (simp add: client_ok_def)
  then have d: "distinct (deletes (ready s))" "assigned s \<subseteq>\<^sub>m socket_map s"
    by (simp_all add: sockets_ok_def deletes_ok_def)
  have ran: "\<exists>fd. sockets s ! sid = Some fd \<and> fd \<noteq> - 1" if "sid \<in> ran (socket_map s)"
    using that mappedD [OF s] by (fastforce simp: ran_def)
  show ?thesis
  proof (cases "sockets s ! sid")
    case None
    with d deletedD [OF s, of sid] ran show ?thesis
      by (auto simp: count_deletes count_distinct [OF d(1)])
  next
    case (Some fd)
    with d deletedD [OF s, of sid] closedD [OF s assms(4)] openD [OF s assms(4) Some] ran show ?thesis
      by (auto simp: count_deletes count_distinct [OF d(1)])
  qed
qed

text \<open>Opening a socket for a request and closing it: one object, one delete.\<close>

definition open_and_close :: curl where
  "open_and_close = Open_call True (\<lambda>fd. Close_call fd (Return 0))"

theorem sockets_owned_witness:
  "\<exists>s. client_reachable (sample_env (\<lambda>_ _. [])) s \<and> sockets s = [Some (- 1)]
     \<and> 0 \<notin> ran (socket_map s) \<and> count_list (map fst (ready s)) (Run_delete 0) = 1"
proof -
  let ?E = "sample_env (\<lambda>_ _. [])" and ?s = "perform_async 0 (sample_client GET)"
  have r: "ready ?s = (Run_perform 0, True) # []" by (simp add: sample_defs)
  have "\<exists>s'. run_work ?E open_and_close (Run_perform 0) True (?s\<lparr>ready := []\<rparr>) = Inr s'
      \<and> sockets s' = [Some (- 1)]"
    by (simp add: perform_handler_def perform_context_eq [OF avro_law_ref_libs] open_and_close_def
        method_options_def create_http_request_def call_context_new_def opensocket_cb_def
        closesocket_cb_def native_handle_def sample_defs)
  then obtain s' where s': "run_work ?E open_and_close (Run_perform 0) True (?s\<lparr>ready := []\<rparr>) = Inr s'"
    "sockets s' = [Some (- 1)]" by blast
  have "client_reachable ?E s'"
    by (rule client_reachable.step [OF sample_started client_step.run [OF r _ s'(1)]])
      (simp add: open_and_close_def)
  moreover have "0 \<notin> ran (socket_map s') \<and> count_list (map fst (ready s')) (Run_delete 0) = 1"
    using sockets_owned [OF calculation avro_law_sample open_law_sample, of 0] s'(2) by simp
  ultimately show ?thesis using s'(2) by blast
qed

text \<open>
  C12. A context that libcurl can call back about is alive without the user: while its easy
  handle is in the multi handle it refers to itself, or the handler that takes it out is
  queued and refers to it; and while it is the private pointer of its easy handle it refers
  to itself, so the handles given to socket waits are never empty.
\<close>

theorem calls_kept_alive:
  assumes "client_reachable E s" and "avro_law (ce_libs E)" and "open_law (ce_open E)"
  shows "(cid \<in> set (added s) \<longrightarrow>
        x_shared (contexts s cid) \<or> Run_poll_remove (Some cid) \<in> fst ` set (ready s))
    \<and> (x_private (contexts s cid) \<longrightarrow> curl_handle cid s = Some cid)
    \<and> (Run_rx sid h \<in> set (waiting s) \<longrightarrow> h \<noteq> None)"
proof -
  have s: "calls_ok {} s" using client_reachable_ok [OF assms] by (simp add: client_ok_def)
  then have "\<forall>w \<in> set (waiting s). handled w" by (simp add: calls_ok_def)
  then have "handled (Run_rx sid h)" if "Run_rx sid h \<in> set (waiting s)" using that by blast
  with s show ?thesis by (simp add: calls_ok_def curl_handle_def)
qed

theorem calls_kept_alive_witness:
  "\<exists>s. client_reachable (sample_env (\<lambda>_ _. [])) s \<and> 0 \<in> set (added s)
     \<and> (x_shared (contexts s 0) \<or> Run_poll_remove (Some 0) \<in> fst ` set (ready s))"
proof -
  let ?E = "sample_env (\<lambda>_ _. [])" and ?s = "perform_async 0 (sample_client GET)"
  have r: "ready ?s = (Run_perform 0, True) # []" by (simp add: sample_defs)
  have "\<exists>s'. run_work ?E (Return 0) (Run_perform 0) True (?s\<lparr>ready := []\<rparr>) = Inr s' \<and> 0 \<in> set (added s')"
    by (simp add: perform_handler_def perform_context_eq [OF avro_law_ref_libs]
        method_options_def create_http_request_def call_context_new_def sample_defs)
  then obtain s' where s': "run_work ?E (Return 0) (Run_perform 0) True (?s\<lparr>ready := []\<rparr>) = Inr s'"
    "0 \<in> set (added s')" by blast
  have "client_reachable ?E s'"
    by (rule client_reachable.step [OF sample_started client_step.run [OF r _ s'(1)]]) simp
  with calls_kept_alive [OF this avro_law_sample open_law_sample, of 0] s'(2) show ?thesis by blast
qed

section \<open>The completion callback\<close>

text \<open>
  C14. When libcurl takes a socket of a call away, the call is complete: the result stored is
  the status libcurl reports, a call without one has failed in transport, the callback runs
  once with that result, and the context is released to the handler that removes it.
\<close>

theorem removal_completes_call:
  assumes "x_shared (contexts s cid)" and "s' = poll_removed E cid response s"
  shows "log s' = log s @ (if x_callback (contexts s cid)
        then [Called_back cid (reported response) (Some (reported response > 0))] else [])
    \<and> call_ok (contexts s' cid) = Inr (200 \<le> reported response \<and> reported response < 300)
    \<and> x_curl_done (contexts s' cid) \<and> \<not> x_shared (contexts s' cid)
    \<and> last (ready s') = (Run_poll_remove (Some cid), True)"
proof -
  have op: "x_http_result (contexts (do_user_op E u t) i) = x_http_result (contexts t i)"
    "x_transport_ok (contexts (do_user_op E u t) i) = x_transport_ok (contexts t i)"
    "x_curl_done (contexts (do_user_op E u t) i) = x_curl_done (contexts t i)" for u t i
    by (cases u; simp add: perform_async_def io_defs)+
  have ops: "x_http_result (contexts (fold (do_user_op E) us t) i) = x_http_result (contexts t i)"
    "x_transport_ok (contexts (fold (do_user_op E) us t) i) = x_transport_ok (contexts t i)"
    "x_curl_done (contexts (fold (do_user_op E) us t) i) = x_curl_done (contexts t i)" for us t i
    by (induction us arbitrary: t) (simp_all add: op)
  show ?thesis
    using assms(1) unfolding assms(2) poll_removed_def store_result_def call_back_def Let_def
    by (auto simp: io_defs curl_handle_def curl_stop_def call_ok_def transport_result_def ops)
qed

theorem removal_completes_call_witness:
  "\<exists>s'. s' = poll_removed (sample_env (\<lambda>_ _. [])) 0 (Some 404)
        (update_context 0 curl_start (perform_async 0 (sample_client GET)))
     \<and> log s' = [Called_back 0 404 (Some True)] \<and> call_ok (contexts s' 0) = Inr False"
  using removal_completes_call [of "update_context 0 curl_start (perform_async 0 (sample_client GET))" 0
      _ "sample_env (\<lambda>_ _. [])" "Some 404", OF _ refl]
  by (simp add: sample_defs curl_start_def reported_def)

text \<open>
  C13. A call is called back at most as often as it was performed, so the promise of
  \<^verbatim>\<open>perform\<close> is set once: after its first removal libcurl would run into the \<^verbatim>\<open>assert\<close> on
  the private pointer.
\<close>

theorem callback_once:
  assumes "client_reachable E s"
  shows "length (filter (calls_back cid) (log s)) \<le> length (filter (performs cid) (log s))
    \<and> sock_cb E cid fd what p (poll_removed E cid r s) = Inl Assertion"
proof -
  have "paid cid s"
    using assms by (rule balance.reachable_keeps) (auto simp: paid_def http_client_new_def fresh_calls_def
        create_http_request_def call_context_new_def dest!: spec [of _ cid])
  then show ?thesis by (simp add: paid_def sock_cb_def poll_removed_private)
qed

theorem callback_once_witness:
  "length (filter (calls_back 0) (log (perform_async 0 (sample_client GET))))
     \<le> length (filter (performs 0) (log (perform_async 0 (sample_client GET))))
   \<and> sock_cb (sample_env (\<lambda>_ _. [])) 0 3 Poll_in False
        (poll_removed (sample_env (\<lambda>_ _. [])) 0 (Some 200) (perform_async 0 (sample_client GET))) = Inl Assertion"
  by (rule callback_once [OF sample_started])

text \<open>The calls a behaviour of libcurl takes a socket away from.\<close>

primrec removals :: "curl \<Rightarrow> nat set" where
  "removals (Return n) = {}"
| "removals (Timer_call ms nested k) = removals nested \<union> removals k"
| "removals (Sock_call cid fd what p k) = (case what of Poll_remove r \<Rightarrow> {cid} | _ \<Rightarrow> {}) \<union> removals k"
| "removals (Open_call b k) = (\<Union>fd. removals (k fd))"
| "removals (Close_call fd k) = removals k"
| "removals (Write_call cid d k) = removals k"
| "removals (Read_call cid sz nmemb k) = (\<Union>d. removals (k d))"
| "removals (Header_call cid d k) = removals k"

lemma sock_switch_log:
  assumes "sock_switch E cid what sid s = Inr s'" and "\<And>r. what = Poll_remove r \<Longrightarrow> cid' \<noteq> cid"
  shows "filter (calls_back cid') (log s') = filter (calls_back cid') (log s)"
proof (cases what)
  case (Poll_remove r)
  with assms have "s' = poll_removed E cid r s" "cid' \<noteq> cid" by (simp_all add: sock_switch_def)
  with poll_removed_log [of E cid r s] show ?thesis by (auto simp: calls_back_def)
next
  case Poll_inout
  with assms(1) obtain t where "async_wait_on sid (Run_rx sid (curl_handle cid s)) s = Inr t"
    "async_wait_on sid (Run_tx sid (curl_handle cid t)) t = Inr s'"
    by (auto simp: sock_switch_def)
  from this [THEN async_wait_frame] show ?thesis by simp
qed (use assms(1) in \<open>auto simp: sock_switch_def dest!: async_wait_frame\<close>)

lemma sock_cb_log:
  assumes "sock_cb E cid fd what p s = Inr s'" and "\<And>r. what = Poll_remove r \<Longrightarrow> cid' \<noteq> cid"
  shows "filter (calls_back cid') (log s') = filter (calls_back cid') (log s)"
  using assms(1)
proof (cases rule: sock_cb_cases)
  case ignored
  then show ?thesis by simp
next
  case (switched sid t)
  then have "log t = log s" by auto
  with sock_switch_log [OF switched(3) assms(2)] show ?thesis by simp
qed

lemma run_curl_log:
  "run_curl E t s = Inr (n, s') \<Longrightarrow> cid' \<notin> removals t \<Longrightarrow>
     filter (calls_back cid') (log s') = filter (calls_back cid') (log s)"
proof (induction t arbitrary: s n s')
  case (Return m)
  then show ?case by simp
next
  case (Timer_call ms nested k)
  let ?c = "cancel_waits (\<lambda>w. w = Run_timer) s"
  from Timer_call.prems(1) obtain s1 where
    s1: "multi_timer_cb (\<lambda>s. bindE (run_curl E nested s) (\<lambda>(n, s). Inr (s\<lparr>still_running := Some n\<rparr>))) ms s = Inr s1"
    "run_curl E k s1 = Inr (n, s')" by auto
  have "filter (calls_back cid') (log s1) = filter (calls_back cid') (log ?c)"
    using s1(1) Timer_call.IH(1) [of ?c] Timer_call.prems(2)
    by (auto simp: multi_timer_cb_def timer_cb_def Let_def wait_for_def split: if_splits)
  then show ?case using Timer_call.IH(2) [OF s1(2)] Timer_call.prems(2) by (simp add: cancel_waits_def)
next
  case (Sock_call cid fd what p k)
  from Sock_call.prems(1) obtain s1 where s1: "sock_cb E cid fd what p s = Inr s1" "run_curl E k s1 = Inr (n, s')"
    by auto
  have "filter (calls_back cid') (log s1) = filter (calls_back cid') (log s)"
    using Sock_call.prems(2) by (intro sock_cb_log [OF s1(1)]) auto
  with Sock_call.IH [OF s1(2)] Sock_call.prems(2) show ?case by simp
next
  case (Open_call b k)
  obtain fd s1 where o: "opensocket_cb E b s = (fd, s1)" by fastforce
  then have "log s1 = log s" using opensocket_frame(5) [of E b s] by simp
  with o Open_call.IH [OF rangeI, of fd s1] Open_call.prems show ?case by simp
next
  case (Close_call fd k)
  then obtain s1 where "closesocket_cb fd s = Inr s1" "run_curl E k s1 = Inr (n, s')" by auto
  with Close_call.IH [of s1] Close_call.prems(2) show ?case by (simp add: closesocket_frame)
next
  case (Write_call cid d k)
  then show ?case by (auto simp: update_context_def)
next
  case (Read_call cid sz nmemb k)
  then obtain d x where "run_curl E (k d) (update_context cid (\<lambda>_. x) s) = Inr (n, s')" by auto
  with Read_call.IH [OF rangeI] Read_call.prems(2) show ?case by (fastforce simp: update_context_def)
next
  case (Header_call cid d k)
  then show ?case by (auto simp: update_context_def)
qed

lemma run_work_log:
  assumes "run_work E t w b s = Inr s'" and "cid' \<notin> removals t"
  shows "filter (calls_back cid') (log s') = filter (calls_back cid') (log s)"
proof -
  have action: "filter (calls_back cid') (log u') = filter (calls_back cid') (log u)"
    if "socket_action E t u = Inr u'" for u u'
    using that run_curl_log [OF _ assms(2)] by (auto simp: socket_action_def)
  show ?thesis
  proof (cases w)
    case (Run_rx sid h)
    with assms(1) show ?thesis
      by (auto simp: socket_rx_cb_def split: if_splits dest!: action async_wait_frame)
  next
    case (Run_perform cid)
    with assms show ?thesis
      by (auto simp: perform_handler_def Let_def tell_def update_context_def calls_back_def
          split: if_splits dest!: run_curl_log)
  qed (use assms action in \<open>auto simp: timer_cb_def keepalivetimer_cb_def io_defs socket_tx_cb_def
      poll_remove_handler_def delete_socket_def split: if_splits dest!: run_curl_log\<close>)
qed

interpretation growing: call_invariant E "\<lambda>s. \<exists>ms. log s = l @ ms" for E :: "('os, 'p) client_env" and l
proof
  fix s s' :: "'os http_client" and cid r x opts
  show "\<exists>ms. log s = l @ ms \<Longrightarrow> \<exists>ms. log (poll_removed E cid r s) = l @ ms"
    using poll_removed_log [of E cid r s] by (metis append_assoc)
qed (auto simp: io_defs)

text \<open>
  \<^verbatim>\<open>perform\<close> returns only when libcurl takes a socket of the call away inside some handler:
  a step in which it does not leaves the caller waiting. A transfer that ends without that,
  like one whose name does not resolve, is never reported: \<^verbatim>\<open>check_multi_info\<close>, which would ask
  libcurl, is commented out.
\<close>

theorem perform_waits_for_removal:
  assumes "run_work E t w b s = Inr s'" and "cid \<notin> removals t" and "\<not> perform_returned cid s0 s"
    and "log s = log s0 @ ms" and "easy_handles t \<subseteq> known w s"
  shows "\<not> perform_returned cid s0 s'"
proof -
  have f: "filter (calls_back cid) (log s') = filter (calls_back cid) (log s0 @ ms)"
    using run_work_log [OF assms(1,2)] assms(4) by simp
  moreover have "filter (calls_back cid) ms = []"
    using assms(3,4) by (simp add: perform_returned_def list_ex_iff filter_empty_conv)
  ultimately have "filter (calls_back cid) (log s') = filter (calls_back cid) (log s0)" by simp
  moreover have "\<exists>rest. log s' = log s0 @ rest"
    using growing.work_keeps [OF _ assms(5) assms(1), of "log s0"] assms(4) by blast
  ultimately show ?thesis
    by (auto simp: perform_returned_def list_ex_iff filter_empty_conv)
qed

theorem perform_waits_for_removal_witness:
  "\<exists>s'. run_work (sample_env (\<lambda>_ _. [])) (Return 0) (Run_perform 0) True
         ((perform_begin 0 False (sample_client GET))\<lparr>ready := []\<rparr>) = Inr s'
     \<and> added s' = [0] \<and> \<not> perform_returned 0 (sample_client GET) s'"
proof -
  let ?E = "sample_env (\<lambda>_ _. [])" and ?s = "(perform_begin 0 False (sample_client GET))\<lparr>ready := []\<rparr>"
  have "\<exists>s'. run_work ?E (Return 0) (Run_perform 0) True ?s = Inr s' \<and> added s' = [0]"
    by (simp add: perform_handler_def perform_context_eq [OF avro_law_ref_libs] perform_begin_def
        method_options_def create_http_request_def call_context_new_def sample_defs)
  then obtain s' where s': "run_work ?E (Return 0) (Run_perform 0) True ?s = Inr s'" "added s' = [0]" by blast
  have "\<not> perform_returned 0 (sample_client GET) ?s" "log ?s = log (sample_client GET) @ []"
    by (simp_all add: perform_returned_def perform_begin_def sample_defs)
  from perform_waits_for_removal [OF s'(1) _ this] s' show ?thesis by auto
qed

section \<open>Sending a request again\<close>

text \<open>
  C32. A request performed again from its own completion callback is lost: it is performed
  while its easy handle is still in the multi handle, which refuses it, and then the handle
  is taken out. Nothing is left to complete the call, and the context keeps itself alive.
\<close>

theorem resend_in_callback_lost:
  assumes "avro_law (ce_libs E)" and "ce_react E cid = (\<lambda>_. [Perform_async cid])"
    and "x_shared (contexts s cid)" and "x_callback (contexts s cid)"
    and "x_method (contexts s cid) \<in> {GET, PUT, POST}"
    and "cid \<in> set (added s)" and "distinct (added s)" and "ready s = []"
  shows "\<exists>s2 s3. ready (poll_removed E cid r s) = [(Run_perform cid, True), (Run_poll_remove (Some cid), True)]
    \<and> run_work E t (Run_perform cid) True
        (poll_removed E cid r s\<lparr>ready := [(Run_poll_remove (Some cid), True)]\<rparr>) = Inr s2
    \<and> run_work E (Return n) (Run_poll_remove (Some cid)) True (s2\<lparr>ready := []\<rparr>) = Inr s3
    \<and> cid \<notin> set (added s3) \<and> ready s3 = [] \<and> waiting s3 = waiting s
    \<and> x_shared (contexts s3 cid)"
proof -
  let ?s1 = "poll_removed E cid r s\<lparr>ready := [(Run_poll_remove (Some cid), True)]\<rparr>"
  have r: "ready (poll_removed E cid r s) = [(Run_perform cid, True), (Run_poll_remove (Some cid), True)]"
    using assms(2-4,8)
    by (simp add: poll_removed_def store_result_def call_back_def Let_def io_defs curl_handle_def perform_async_def)
  have "x_method (contexts ?s1 cid) = x_method (contexts s cid)"
    using assms(2-4) by (simp add: poll_removed_def store_result_def call_back_def Let_def io_defs
        perform_async_def curl_stop_def)
  then obtain opts where opts: "method_options (ce_libs E) (contexts ?s1 cid) = Inr opts"
    using assms(5) by (auto simp: method_options_def)
  have "\<exists>s2. run_work E t (Run_perform cid) True ?s1 = Inr s2 \<and> added s2 = added s
      \<and> waiting s2 = waiting s \<and> x_shared (contexts s2 cid)"
    using opts assms(6) by (simp add: perform_handler_def perform_context_eq [OF assms(1)] io_defs)
  then show ?thesis using r assms(7) by (auto simp: poll_remove_handler_def)
qed

definition removing :: "(string, script) client_env \<Rightarrow> string http_client" where
  "removing E = update_context 0 curl_start ((sample_client GET)\<lparr>added := [0],
     contexts := (\<lambda>_. (create_http_request (ref_libs []) GET ''/'' [] 5000)\<lparr>x_callback := True\<rparr>)\<rparr>)"

theorem resend_in_callback_lost_witness:
  "\<exists>s2 s3. run_work (sample_env (\<lambda>cid _. [Perform_async cid])) (Return 1) (Run_perform 0) True
        (poll_removed (sample_env (\<lambda>cid _. [Perform_async cid])) 0 (Some 503) (removing (sample_env (\<lambda>_ _. [])))
          \<lparr>ready := [(Run_poll_remove (Some 0), True)]\<rparr>) = Inr s2
     \<and> run_work (sample_env (\<lambda>cid _. [Perform_async cid])) (Return 0) (Run_poll_remove (Some 0)) True
          (s2\<lparr>ready := []\<rparr>) = Inr s3
     \<and> 0 \<notin> set (added s3) \<and> ready s3 = [] \<and> x_shared (contexts s3 0)"
proof -
  let ?E = "sample_env (\<lambda>cid _. [Perform_async cid])" and ?s = "removing (sample_env (\<lambda>_ _. []))"
  have "x_shared (contexts ?s 0)" "x_callback (contexts ?s 0)" "x_method (contexts ?s 0) \<in> {GET, PUT, POST}"
    "0 \<in> set (added ?s)" "distinct (added ?s)" "ready ?s = []"
    by (simp_all add: removing_def sample_defs curl_start_def create_http_request_def call_context_new_def)
  from resend_in_callback_lost [OF avro_law_sample _ this, of "\<lambda>cid _. [Perform_async cid]" "Some 503" "Return 1" 0]
  show ?thesis by (simp add: sample_env_def) blast
qed

text \<open>
  A context is done for ever: whatever happens afterwards, being performed again
  included, the handler that reads from its sockets returns at once, without telling
  libcurl and without waiting for more.
\<close>

theorem done_call_not_read:
  assumes "x_curl_done (contexts s cid)" and "client_step E s s'"
  shows "x_curl_done (contexts s' cid) \<and> socket_rx_cb E t b sid (Some cid) s' = Inr s'"
  using completed.step_keeps [OF assms(2,1)] by (simp add: socket_rx_cb_def)

theorem done_call_not_read_witness:
  "socket_rx_cb (sample_env (\<lambda>_ _. [])) (Return 0) True 7 (Some 0)
     (perform_async 0 (poll_removed (sample_env (\<lambda>_ _. [])) 0 (Some 200) (sample_client GET)))
   = Inr (perform_async 0 (poll_removed (sample_env (\<lambda>_ _. [])) 0 (Some 200) (sample_client GET)))"
  using done_call_not_read [of "poll_removed (sample_env (\<lambda>_ _. [])) 0 (Some 200) (sample_client GET)" 0
      "sample_env (\<lambda>_ _. [])" _ "Return 0" True 7, OF _ client_step.user [where u = "Perform_async 0"]]
  by (simp add: poll_removed_def store_result_def call_back_def Let_def io_defs sample_client_def
      http_client_new_def curl_stop_def create_http_request_def call_context_new_def)

section \<open>Timer and read wait\<close>

text \<open>
  After \<^verbatim>\<open>multi_timer_cb\<close> with a positive timeout exactly one wait on the timer is pending,
  whatever was pending before. With any other value the timeout is taken as over at once
  and libcurl is called inside its own callback: with 0, and also with \<open>- 1\<close>, by which
  libcurl asks to delete the timer.
\<close>

theorem one_timer:
  "if timeout_ms > 0
   then \<exists>s'. multi_timer_cb action timeout_ms s = Inr s' \<and> count_list (waiting s') Run_timer = 1
   else multi_timer_cb action timeout_ms s = action (cancel_waits (\<lambda>w. w = Run_timer) s)
     \<and> multi_timer_cb action (- 1) s = multi_timer_cb action 0 s"
proof -
  have "count_list (filter (\<lambda>w. w \<noteq> Run_timer) ws) Run_timer = 0" for ws by (induction ws) simp_all
  then show ?thesis by (simp add: multi_timer_cb_def timer_cb_def Let_def io_defs)
qed

text \<open>
  A call goes on reading: when data has arrived and libcurl has not ended the call, a
  wait for more is pending on the same socket with the same handle, or has failed already
  because the socket was closed meanwhile.
\<close>

theorem read_goes_on:
  assumes "easy_handles t \<subseteq> set (added s)" and "socket_rx_cb E t True sid (Some cid) s = Inr s'"
    and "\<not> x_curl_done (contexts s' cid)"
  shows "Run_rx sid (Some cid) \<in> set (waiting s') \<or> (Run_rx sid (Some cid), False) \<in> set (ready s')"
proof -
  have "\<not> x_curl_done (contexts s cid)"
    using completed.work_keeps [of s cid t "Run_rx sid (Some cid)" E True s'] assms by auto
  with assms(2) obtain s1 where s1: "\<not> x_curl_done (contexts s1 cid) \<Longrightarrow>
      async_wait_on sid (Run_rx sid (Some cid)) s1 = Inr s'" "x_curl_done (contexts s1 cid) \<Longrightarrow> s' = s1"
    by (auto simp: socket_rx_cb_def split: if_splits)
  with assms(3) have "async_wait_on sid (Run_rx sid (Some cid)) s1 = Inr s'" by blast
  then show ?thesis by (auto simp: async_wait_on_def io_defs split: if_splits)
qed

theorem read_goes_on_witness:
  "\<exists>s'. socket_rx_cb (sample_env (\<lambda>_ _. [])) (Write_call 0 ''ab'' (Return 1)) True 0 (Some 0)
          ((sample_client GET)\<lparr>sockets := [Some 5], added := [0]\<rparr>) = Inr s'
     \<and> Run_rx 0 (Some 0) \<in> set (waiting s') \<and> x_rx_buffer (contexts s' 0) = ''ab''"
proof -
  let ?E = "sample_env (\<lambda>_ _. [])" and ?t = "Write_call 0 ''ab'' (Return 1)"
    and ?s = "(sample_client GET)\<lparr>sockets := [Some 5], added := [0]\<rparr>"
  have "\<exists>s'. socket_rx_cb ?E ?t True 0 (Some 0) ?s = Inr s' \<and> \<not> x_curl_done (contexts s' 0)
      \<and> ready s' = [] \<and> x_rx_buffer (contexts s' 0) = ''ab''"
    by (simp add: socket_rx_cb_def native_handle_def socket_action_def async_wait_on_def write_callback_def
        create_http_request_def call_context_new_def sample_defs) (simp add: ref_libs_def)
  then obtain s' where s': "socket_rx_cb ?E ?t True 0 (Some 0) ?s = Inr s'" "\<not> x_curl_done (contexts s' 0)"
    "ready s' = []" "x_rx_buffer (contexts s' 0) = ''ab''" by blast
  with read_goes_on [OF _ s'(1,2)] show ?thesis by simp
qed

end
