(* ===== verification/Client_Shutdown.thy ===== *)
theory Client_Shutdown
  imports Client_Steps
begin

text \<open>
  How long the \<^verbatim>\<open>io_service\<close> of a client has work. The samples run it in a thread and end with
  \<^verbatim>\<open>handler.close(); th.join();\<close>: the keep-alive timer, which waits again each time it has
  expired (\<^verbatim>\<open>keepalivetimer_cb\<close>), holds the thread in \<^verbatim>\<open>run\<close> until \<^verbatim>\<open>close\<close> cancels it. No other
  handler, callback or operation touches that timer, which \<open>curl_contract\<close> carries over
  to every call of libcurl.
\<close>

section \<open>The keep-alive timer\<close>

text \<open>Its waits, and the outcomes of its completions that are queued.\<close>

definition keepalives :: "'os http_client \<Rightarrow> nat \<times> bool list" where
  "keepalives s = (count_list (waiting s) Run_keepalive,
     map snd (filter (\<lambda>x. fst x = Run_keepalive) (ready s)))"

text \<open>The io_service has nothing to do, so \<^verbatim>\<open>run\<close> returns.\<close>

definition no_work :: "'os http_client \<Rightarrow> bool" where
  "no_work s \<longleftrightarrow> waiting s = [] \<and> ready s = []"

lemma count_list_filter: "p x \<Longrightarrow> count_list (filter p xs) x = count_list xs x"
  by (induction xs) auto

lemma keepalives_cong [simp]:
  "keepalives (s\<lparr>socket_map := m\<rparr>) = keepalives s" "keepalives (s\<lparr>sockets := os\<rparr>) = keepalives s"
  "keepalives (s\<lparr>assigned := a\<rparr>) = keepalives s" "keepalives (s\<lparr>added := l\<rparr>) = keepalives s"
  "keepalives (s\<lparr>contexts := c\<rparr>) = keepalives s" "keepalives (s\<lparr>still_running := n\<rparr>) = keepalives s"
  "keepalives (s\<lparr>log := lg\<rparr>) = keepalives s" "keepalives (update_context cid f s) = keepalives s"
  "keepalives (tell msg s) = keepalives s"
  by (simp_all add: keepalives_def update_context_def tell_def)

lemma keepalives_wait [simp]: "w \<noteq> Run_keepalive \<Longrightarrow> keepalives (wait_for w s) = keepalives s"
  by (simp add: keepalives_def wait_for_def)

lemma keepalives_post [simp]: "w \<noteq> Run_keepalive \<Longrightarrow> keepalives (post w b s) = keepalives s"
  by (simp add: keepalives_def post_def)

lemma keepalives_cancel [simp]: "\<not> p Run_keepalive \<Longrightarrow> keepalives (cancel_waits p s) = keepalives s"
proof -
  assume p: "\<not> p Run_keepalive"
  then have "filter (\<lambda>x. fst x = Run_keepalive) (map (\<lambda>w. (w, False)) (filter p ws)) = []" for ws
    by (auto simp: filter_empty_conv)
  with p show ?thesis by (simp add: keepalives_def cancel_waits_def count_list_filter)
qed

lemma keepalives_user_op [simp]: "keepalives (do_user_op E u s) = keepalives s"
  by (cases u) (simp_all add: perform_async_def)

lemma keepalives_user_ops [simp]: "keepalives (fold (do_user_op E) us s) = keepalives s"
  by (induction us arbitrary: s) simp_all

lemma keepalives_poll_removed [simp]: "keepalives (poll_removed E cid r s) = keepalives s"
  by (simp add: poll_removed_def Let_def call_back_def store_result_def)

lemma keepalives_async_wait:
  "w \<noteq> Run_keepalive \<Longrightarrow> async_wait_on sid w s = Inr s' \<Longrightarrow> keepalives s' = keepalives s"
  by (auto simp: async_wait_on_def split: if_splits)

lemma keepalives_sock_cb: "sock_cb E cid fd what b s = Inr s' \<Longrightarrow> keepalives s' = keepalives s"
proof (erule sock_cb_cases, simp)
  fix sid t
  assume t: "t = s \<or> t = s\<lparr>assigned := (assigned s)(fd \<mapsto> sid)\<rparr>" and run: "sock_switch E cid what sid t = Inr s'"
  have "keepalives s' = keepalives t"
    using run by (cases what) (auto simp: sock_switch_def dest!: keepalives_async_wait [rotated])
  with t show "keepalives s' = keepalives s" by auto
qed

interpretation timer_kept: curl_contract E "\<lambda>s. keepalives s = k" "\<lambda>_. True" for E :: "('os, 'p) client_env" and k
proof
  fix s :: "'os http_client" and cid fd :: nat and what p n d b sz nmemb
  assume k: "keepalives s = k"
  show "keepalives (cancel_waits (\<lambda>w. w = Run_timer) s) = k" "keepalives (wait_for Run_timer s) = k"
    "keepalives (s\<lparr>still_running := n\<rparr>) = k"
    "keepalives (update_context cid (\<lambda>x. snd (write_callback (ce_libs E) d x)) s) = k"
    "keepalives (update_context cid (rx_headers_call d) s) = k"
    by (simp_all add: k)
  show "keepalives (snd (opensocket_cb E b s)) = k"
    by (simp add: k opensocket_cb_def Let_def split: option.split)
  show "delivers (\<lambda>_. True) (\<lambda>s. keepalives s = k) (sock_cb E cid fd' what p s)" for fd'
    using k by (auto simp: delivers_def dest: keepalives_sock_cb split: sum.split)
  show "delivers (\<lambda>_. True) (\<lambda>s. keepalives s = k) (closesocket_cb fd' s)" for fd'
    using k by (auto simp: delivers_def closesocket_cb_def Let_def split: sum.splits option.splits)
  show "delivers (\<lambda>_. True) (\<lambda>(d, x). keepalives (update_context cid (\<lambda>_. x) s) = k) (read_callback sz nmemb (contexts s cid))"
    by (simp add: k delivers_def split: sum.split)
qed

text \<open>Every handler but its own leaves the timer alone.\<close>

lemma run_work_keepalives:
  assumes "w \<noteq> Run_keepalive" and "easy_handles t \<subseteq> known w s" and "run_work E t w b (s\<lparr>ready := q\<rparr>) = Inr s'"
  shows "keepalives s' = keepalives (s\<lparr>ready := q\<rparr>)"
proof -
  let ?s = "s\<lparr>ready := q\<rparr>" and ?k = "keepalives (s\<lparr>ready := q\<rparr>)"
  have act: "keepalives s2 = ?k" if "socket_action E t s1 = Inr s2" "keepalives s1 = ?k" "easy_handles t \<subseteq> set (added s1)" for s1 s2
    using deliversD [OF timer_kept.action_keeps [OF that(2,3)] that(1)] by simp
  have run: "keepalives s2 = ?k" if "run_curl E t s1 = Inr (n, s2)" "keepalives s1 = ?k" "easy_handles t \<subseteq> set (added s1)" for s1 s2 n
    using deliversD [OF timer_kept.run_keeps [OF that(2) refl that(3)] that(1)] by simp
  show ?thesis
  proof (cases w)
    case (Run_rx sid h)
    with assms(2,3) show ?thesis
      by (auto simp: socket_rx_cb_def split: if_splits dest!: act dest: keepalives_async_wait [rotated])
  next
    case (Run_tx sid h)
    with assms(2,3) show ?thesis by (auto simp: socket_tx_cb_def split: if_splits dest!: act)
  next
    case (Run_perform cid)
    have "added (tell msg (update_context cid f s)) = added s" for msg f and s :: "'a http_client"
      by (simp add: tell_def update_context_def)
    with Run_perform assms(2,3) show ?thesis
      by (auto simp: perform_handler_def Let_def split: if_splits dest!: run)
  qed (use assms in \<open>auto simp: timer_cb_def poll_remove_handler_def delete_socket_def split: if_splits dest!: act run\<close>)
qed

section \<open>Steps of the io_service\<close>

text \<open>
  What the thread in \<^verbatim>\<open>run\<close> does: it makes a wait ready, where a timer that nobody cancels
  completes without an error, and runs the first ready handler. The user may start calls
  (\<open>live_step\<close>); after \<^verbatim>\<open>close\<close> the samples only join the thread.
\<close>

inductive io_step :: "('os, 'p) client_env \<Rightarrow> 'os http_client \<Rightarrow> 'os http_client \<Rightarrow> bool" for E where
  completes: "waiting s = xs @ w # ys \<Longrightarrow> (w = Run_keepalive \<or> w = Run_timer \<Longrightarrow> b) \<Longrightarrow>
     io_step E s (s\<lparr>waiting := xs @ ys, ready := ready s @ [(w, b)]\<rparr>)"
| runs: "ready s = (w, b) # q \<Longrightarrow> easy_handles t \<subseteq> known w s \<Longrightarrow>
     run_work E t w b (s\<lparr>ready := q\<rparr>) = Inr s' \<Longrightarrow> io_step E s s'"

definition live_step :: "('os, 'p) client_env \<Rightarrow> 'os http_client \<Rightarrow> 'os http_client \<Rightarrow> bool" where
  "live_step E s s' \<longleftrightarrow> io_step E s s' \<or> (\<exists>u. s' = do_user_op E u s)"

lemma io_step_client: "io_step E s s' \<Longrightarrow> client_step E s s'"
  by (induction rule: io_step.induct) (auto intro: client_step.intros)

text \<open>One wait or one completion at most; \<open>armed\<close> and \<open>disarmed\<close> are the two ways to have it.\<close>

definition armed :: "'os http_client \<Rightarrow> bool" where
  "armed s \<longleftrightarrow> keepalives s = (1, []) \<or> keepalives s = (0, [True])"

definition disarmed :: "'os http_client \<Rightarrow> bool" where
  "disarmed s \<longleftrightarrow> keepalives s = (0, []) \<or> keepalives s = (0, [False])"

lemma armed_works: "armed s \<Longrightarrow> \<not> no_work s"
  by (auto simp: armed_def keepalives_def no_work_def)

lemma disarmed_waits: "disarmed s \<Longrightarrow> Run_keepalive \<notin> set (waiting s)"
  by (auto simp: disarmed_def keepalives_def count_list_0_iff)

lemma keepalives_ready:
  "keepalives (s\<lparr>waiting := xs, ready := ready s @ [(w, b)]\<rparr>)
     = (count_list xs Run_keepalive, snd (keepalives s) @ (if w = Run_keepalive then [b] else []))"
  by (simp add: keepalives_def)

lemma keepalives_pop:
  "ready s = (w, b) # q \<Longrightarrow> keepalives s
     = (fst (keepalives (s\<lparr>ready := q\<rparr>)), (if w = Run_keepalive then [b] else []) @ snd (keepalives (s\<lparr>ready := q\<rparr>)))"
  by (simp add: keepalives_def)

text \<open>The steps move its one token, or leave it where it is.\<close>

lemma completes_keepalives:
  assumes "waiting s = xs @ w # ys"
  shows "if w = Run_keepalive
    then \<exists>n bs. keepalives s = (Suc n, bs) \<and> keepalives (s\<lparr>waiting := xs @ ys, ready := ready s @ [(w, b)]\<rparr>) = (n, bs @ [b])
    else keepalives (s\<lparr>waiting := xs @ ys, ready := ready s @ [(w, b)]\<rparr>) = keepalives s"
  using assms by (simp add: keepalives_def)

lemma run_keepalives:
  assumes "ready s = (w, b) # q" and "easy_handles t \<subseteq> known w s" and "run_work E t w b (s\<lparr>ready := q\<rparr>) = Inr s'"
  shows "if w = Run_keepalive
    then \<exists>n bs. keepalives s = (n, b # bs) \<and> keepalives s' = (if b then (Suc n, bs) else (n, bs))
    else keepalives s' = keepalives s"
proof (cases "w = Run_keepalive")
  case True
  with assms(3) have "s' = (if b then wait_for Run_keepalive (s\<lparr>ready := q\<rparr>) else s\<lparr>ready := q\<rparr>)"
    by (simp add: keepalivetimer_cb_def)
  with True assms(1) show ?thesis by (simp add: keepalives_def wait_for_def)
next
  case False
  with run_work_keepalives [OF False assms(2,3)] keepalives_pop [OF assms(1)] show ?thesis by (simp add: prod_eq_iff)
qed

lemma keepalives_close: "keepalives (client_close s) = (0, snd (keepalives s) @ replicate (fst (keepalives s)) False)"
proof -
  have "map snd (filter (\<lambda>x. fst x = Run_keepalive) (map (\<lambda>w. (w, False)) (filter (\<lambda>w. w = Run_keepalive) ws)))
      = replicate (count_list ws Run_keepalive) False" for ws by (induction ws) auto
  moreover have "count_list (filter (\<lambda>w. w \<noteq> Run_keepalive) ws) Run_keepalive = 0" for ws by (induction ws) simp_all
  ultimately have "keepalives (cancel_waits (\<lambda>w. w = Run_keepalive) s)
      = (0, snd (keepalives s) @ replicate (fst (keepalives s)) False)"
    by (simp add: keepalives_def cancel_waits_def)
  then show ?thesis by (simp add: client_close_def)
qed

lemma io_step_armed: "io_step E s s' \<Longrightarrow> armed s \<Longrightarrow> armed s'"
proof (induction rule: io_step.induct)
  case (completes s xs w ys b)
  with completes_keepalives [of s xs w ys b] show ?case by (auto simp: armed_def split: if_splits)
next
  case (runs s w b q t s')
  with run_keepalives [OF runs(1-3)] show ?case by (auto simp: armed_def split: if_splits)
qed

lemma client_step_disarmed: "client_step E s s' \<Longrightarrow> disarmed s \<Longrightarrow> disarmed s'"
proof (induction rule: client_step.induct)
  case (reactor s xs w ys b)
  with completes_keepalives [of s xs w ys b] show ?case by (auto simp: disarmed_def split: if_splits)
next
  case (run s w b q t s')
  with run_keepalives [OF run(1-3)] show ?case by (auto simp: disarmed_def split: if_splits)
next
  case (user s u)
  then show ?case by (simp add: disarmed_def)
next
  case (close s)
  then show ?case by (auto simp: disarmed_def keepalives_close)
qed

lemma client_step_token: "client_step E s s' \<Longrightarrow> armed s \<Longrightarrow> armed s' \<or> disarmed s'"
proof (induction rule: client_step.induct)
  case (reactor s xs w ys b)
  with completes_keepalives [of s xs w ys b] show ?case by (cases b) (auto simp: disarmed_def armed_def split: if_splits)
next
  case (run s w b q t s')
  with run_keepalives [OF run(1-3)] show ?case by (auto simp: disarmed_def armed_def split: if_splits)
next
  case (user s u)
  then show ?case by (simp add: armed_def)
next
  case (close s)
  then show ?case by (auto simp: disarmed_def armed_def keepalives_close)
qed

lemma armed_user_op: "armed s \<Longrightarrow> armed (do_user_op E u s)"
  by (simp add: armed_def)

lemma armed_new: "armed (http_client_new ctx)"
  by (simp add: armed_def keepalives_def http_client_new_def)

lemma client_reachable_token: "client_reachable E s \<Longrightarrow> armed s \<or> disarmed s"
  by (induction rule: client_reachable.induct) (auto simp: armed_new dest: client_step_disarmed client_step_token)

lemma io_steps_armed: "(io_step E)\<^sup>*\<^sup>* s t \<Longrightarrow> armed s \<Longrightarrow> armed t"
  by (induction rule: rtranclp_induct) (auto intro: io_step_armed)

lemma io_steps_disarmed: "(io_step E)\<^sup>*\<^sup>* s t \<Longrightarrow> disarmed s \<Longrightarrow> disarmed t"
  by (induction rule: rtranclp_induct) (auto intro: client_step_disarmed io_step_client)

section \<open>Properties\<close>

text \<open>
  Until it is closed, a client keeps its \<^verbatim>\<open>io_service\<close> at work, whatever calls the user starts
  and however they end: \<^verbatim>\<open>run\<close> does not return early.
\<close>

theorem open_client_has_work:
  assumes "(live_step E)\<^sup>*\<^sup>* (http_client_new ctx) s"
  shows "\<not> no_work s"
proof -
  from assms have "armed s"
    by (induction rule: rtranclp_induct) (auto simp: live_step_def armed_new intro: io_step_armed armed_user_op)
  then show ?thesis by (rule armed_works)
qed

text \<open>
  C34. What \<^verbatim>\<open>close\<close> does depends on where the keep-alive timer is. While it is waiting,
  \<^verbatim>\<open>close\<close> ends it: it never waits again, and a client without calls runs out of work with the
  next handler, so that the thread in \<^verbatim>\<open>run\<close> can be joined. But in the moment in which the
  timer has expired and its handler is queued, \<^verbatim>\<open>cancel\<close> finds nothing: the handler sees no
  error and waits again, from then on without end, and \<^verbatim>\<open>th.join()\<close> of the samples never returns.
\<close>

theorem close_ends_or_misses:
  assumes "client_reachable E s"
  shows "(Run_keepalive \<in> set (waiting s) \<longrightarrow>
        (\<forall>t. (io_step E)\<^sup>*\<^sup>* (client_close s) t \<longrightarrow> Run_keepalive \<notin> set (waiting t))
        \<and> (waiting s = [Run_keepalive] \<and> ready s = [] \<longrightarrow>
             (\<exists>t. io_step E (client_close s) t) \<and> (\<forall>t. io_step E (client_close s) t \<longrightarrow> no_work t)))
    \<and> ((Run_keepalive, True) \<in> set (ready s) \<longrightarrow> (\<forall>t. (io_step E)\<^sup>*\<^sup>* (client_close s) t \<longrightarrow> \<not> no_work t))"
proof (intro conjI impI allI)
  have token: "armed s \<or> disarmed s" by (rule client_reachable_token [OF assms])
  show "Run_keepalive \<notin> set (waiting t)" if "Run_keepalive \<in> set (waiting s)" "(io_step E)\<^sup>*\<^sup>* (client_close s) t" for t
  proof -
    have "count_list (waiting s) Run_keepalive \<noteq> 0" using that(1) by (simp add: count_list_0_iff)
    with token have "keepalives s = (1, [])" by (auto simp: armed_def disarmed_def keepalives_def)
    then have "disarmed (client_close s)" by (simp add: keepalives_close disarmed_def)
    with io_steps_disarmed [OF that(2)] show ?thesis by (auto dest: disarmed_waits)
  qed
  show "\<not> no_work t" if "(Run_keepalive, True) \<in> set (ready s)" "(io_step E)\<^sup>*\<^sup>* (client_close s) t" for t
  proof -
    have "True \<in> set (snd (keepalives s))" using that(1) by (force simp: keepalives_def)
    with token have "armed (client_close s)" by (auto simp: armed_def disarmed_def keepalives_close)
    with io_steps_armed [OF that(2)] show ?thesis by (auto dest: armed_works)
  qed
  assume "waiting s = [Run_keepalive] \<and> ready s = []"
  then have q: "waiting (client_close s) = []" "ready (client_close s) = [(Run_keepalive, False)]"
    by (simp_all add: client_close_def cancel_waits_def)
  show "\<exists>t. io_step E (client_close s) t"
    using io_step.runs [OF q(2), of "Return 0" E] by (auto simp: keepalivetimer_cb_def)
  show "no_work t" if "io_step E (client_close s) t" for t
    using that q by cases (auto simp: no_work_def keepalivetimer_cb_def)
qed

theorem close_ends_or_misses_witness:
  "let E = \<lparr>ce_libs = ref_libs [], ce_open = \<lambda>_. None, ce_react = \<lambda>_ _. []\<rparr>;
       s = http_client_new (\<lambda>_. create_http_request (ref_libs []) GET ''http://localhost'' [] 1000)
   in (\<forall>t. io_step E (client_close s) t \<longrightarrow> no_work t)
     \<and> (\<forall>t. (io_step E)\<^sup>*\<^sup>* (client_close (s\<lparr>waiting := [], ready := [(Run_keepalive, True)]\<rparr>)) t \<longrightarrow> \<not> no_work t)"
proof -
  let ?E = "\<lparr>ce_libs = ref_libs [], ce_open = \<lambda>_. None, ce_react = \<lambda>_ _. []\<rparr>"
  let ?s = "http_client_new (\<lambda>_. create_http_request (ref_libs []) GET ''http://localhost'' [] 1000)"
  have "fresh_calls (ce_libs ?E) (\<lambda>_. create_http_request (ref_libs []) GET ''http://localhost'' [] 1000)"
    by (auto simp: fresh_calls_def)
  then have s: "client_reachable ?E ?s" by (rule client_reachable.init)
  have "waiting ?s = [] @ Run_keepalive # []" "ready ?s = []" by (simp_all add: http_client_new_def)
  then have "client_step ?E ?s (?s\<lparr>waiting := [], ready := [(Run_keepalive, True)]\<rparr>)"
    using client_step.reactor [of ?s "[]" Run_keepalive "[]" ?E True] by simp
  with s have s': "client_reachable ?E (?s\<lparr>waiting := [], ready := [(Run_keepalive, True)]\<rparr>)"
    by (rule client_reachable.step)
  from close_ends_or_misses [OF s] close_ends_or_misses [OF s'] show ?thesis
    by (simp add: http_client_new_def Let_def)
qed

end
