(* ===== verification/Encoding.thy ===== *)
theory Encoding
  imports Call_Context
begin

text \<open>
  The encodings of request and reply bodies: the Avro helpers (\<^verbatim>\<open>encoding/avro_json_encoding.h\<close>,
  \<^verbatim>\<open>encoding/avro_raw_binary_encoding.h\<close>, \<^verbatim>\<open>encoding/http_rest_avro_*_encoding.h\<close>) and the
  generated traits of the two sample records (\<^verbatim>\<open>samples/avro_defs\<close>). Avro's encoders and
  decoders are a parameter.
\<close>

section \<open>Avro\<close>

text \<open>
  An encoder turns the primitive values it is given into bytes; a decoder hands them out
  again, or throws (\<open>None\<close>). A resolving decoder also announces the order of the fields.
\<close>

datatype datum = Avro_string string | Avro_long "64 word"

record 'd codec =
  co_bytes :: "datum list \<Rightarrow> string"
  co_open :: "string \<Rightarrow> 'd"
  co_string :: "'d \<Rightarrow> (string \<times> 'd) option"
  co_long :: "'d \<Rightarrow> (64 word \<times> 'd) option"
  co_order :: "'d \<Rightarrow> nat list option"

text \<open>\<open>d\<close> is a decoder that hands out \<open>ds\<close> next.\<close>

fun hands_out :: "'d codec \<Rightarrow> 'd \<Rightarrow> datum list \<Rightarrow> bool" where
  "hands_out C d [] = True"
| "hands_out C d (Avro_string s # ds) =
     (case co_string C d of Some (s', d') \<Rightarrow> s' = s \<and> hands_out C d' ds | None \<Rightarrow> False)"
| "hands_out C d (Avro_long n # ds) =
     (case co_long C d of Some (n', d') \<Rightarrow> n' = n \<and> hands_out C d' ds | None \<Rightarrow> False)"

text \<open>
  A decoder over what the encoder wrote hands it out again; the binary and the JSON decoder
  are not resolving decoders.
\<close>

definition codec_law :: "'d codec \<Rightarrow> bool" where
  "codec_law C \<longleftrightarrow> (\<forall>ds. hands_out C (co_open C (co_bytes C ds)) ds) \<and> (\<forall>s. co_order C (co_open C s) = None)"

definition decode_string :: "'d codec \<Rightarrow> 'd \<Rightarrow> (string \<times> 'd) res" where
  "decode_string C d = (case co_string C d of None \<Rightarrow> Inl (Exception ''avro'') | Some r \<Rightarrow> Inr r)"

definition decode_long :: "'d codec \<Rightarrow> 'd \<Rightarrow> (64 word \<times> 'd) res" where
  "decode_long C d = (case co_long C d of None \<Rightarrow> Inl (Exception ''avro'') | Some r \<Rightarrow> Inr r)"

section \<open>The sample records\<close>

record hello_request =
  rq_message :: string
  rq_delay :: "64 word"

definition hello_request_new :: hello_request where
  "hello_request_new = \<lparr>rq_message = [], rq_delay = 0\<rparr>"

definition hello_request_encode :: "hello_request \<Rightarrow> datum list" where
  "hello_request_encode v = [Avro_string (rq_message v), Avro_long (rq_delay v)]"

definition decode_message :: "'d codec \<Rightarrow> 'd \<times> hello_request \<Rightarrow> ('d \<times> hello_request) res" where
  "decode_message C x = (case x of (d, v) \<Rightarrow>
     bindE (decode_string C d) (\<lambda>(s, d). Inr (d, v\<lparr>rq_message := s\<rparr>)))"

definition decode_delay :: "'d codec \<Rightarrow> 'd \<times> hello_request \<Rightarrow> ('d \<times> hello_request) res" where
  "decode_delay C x = (case x of (d, v) \<Rightarrow>
     bindE (decode_long C d) (\<lambda>(n, d). Inr (d, v\<lparr>rq_delay := n\<rparr>)))"

fun request_fields :: "'d codec \<Rightarrow> nat list \<Rightarrow> 'd \<times> hello_request \<Rightarrow> ('d \<times> hello_request) res" where
  "request_fields C [] x = Inr x"
| "request_fields C (i # fo) x =
     bindE (if i = 0 then decode_message C x else if i = 1 then decode_delay C x else Inr x)
       (request_fields C fo)"

definition hello_request_decode :: "'d codec \<Rightarrow> 'd \<Rightarrow> hello_request \<Rightarrow> ('d \<times> hello_request) res" where
  "hello_request_decode C d v =
     (case co_order C d of
        Some fo \<Rightarrow> request_fields C fo (d, v)
      | None \<Rightarrow> bindE (decode_message C (d, v)) (decode_delay C))"

record hello_response =
  rs_message :: string

definition hello_response_new :: hello_response where
  "hello_response_new = \<lparr>rs_message = []\<rparr>"

definition hello_response_encode :: "hello_response \<Rightarrow> datum list" where
  "hello_response_encode v = [Avro_string (rs_message v)]"

definition decode_reply_message :: "'d codec \<Rightarrow> 'd \<times> hello_response \<Rightarrow> ('d \<times> hello_response) res" where
  "decode_reply_message C x = (case x of (d, v) \<Rightarrow>
     bindE (decode_string C d) (\<lambda>(s, d). Inr (d, v\<lparr>rs_message := s\<rparr>)))"

fun response_fields :: "'d codec \<Rightarrow> nat list \<Rightarrow> 'd \<times> hello_response \<Rightarrow> ('d \<times> hello_response) res" where
  "response_fields C [] x = Inr x"
| "response_fields C (i # fo) x =
     bindE (if i = 0 then decode_reply_message C x else Inr x) (response_fields C fo)"

definition hello_response_decode :: "'d codec \<Rightarrow> 'd \<Rightarrow> hello_response \<Rightarrow> ('d \<times> hello_response) res" where
  "hello_response_decode C d v =
     (case co_order C d of
        Some fo \<Rightarrow> response_fields C fo (d, v)
      | None \<Rightarrow> decode_reply_message C (d, v))"

section \<open>The helpers\<close>

text \<open>\<open>enc\<close> and \<open>dec\<close> are the traits of the type; \<open>C\<close> the encoder and decoder the helper makes.\<close>

definition avro_json_encode :: "('os, 'p) libs \<Rightarrow> 'd codec \<Rightarrow> ('t \<Rightarrow> datum list) \<Rightarrow> 't \<Rightarrow> 'os \<Rightarrow> 'os" where
  "avro_json_encode L C enc src dst = lib_os_write L dst (co_bytes C (enc src))"

definition avro_json_decode ::
  "('os, 'p) libs \<Rightarrow> 'd codec \<Rightarrow> ('d codec \<Rightarrow> 'd \<Rightarrow> 't \<Rightarrow> ('d \<times> 't) res) \<Rightarrow> 'os \<Rightarrow> 't \<Rightarrow> 't res" where
  "avro_json_decode L C dec src dst =
     bindE (input_stream L src) (\<lambda>mis. bindE (dec C (co_open C mis) dst) (\<lambda>(d, v). Inr v))"

definition avro_raw_binary_encode :: "('os, 'p) libs \<Rightarrow> 'd codec \<Rightarrow> ('t \<Rightarrow> datum list) \<Rightarrow> 't \<Rightarrow> 'os \<Rightarrow> 'os" where
  "avro_raw_binary_encode L C enc src dst = lib_os_write L dst (co_bytes C (enc src))"

definition avro_raw_binary_decode ::
  "('os, 'p) libs \<Rightarrow> 'd codec \<Rightarrow> ('d codec \<Rightarrow> 'd \<Rightarrow> 't \<Rightarrow> ('d \<times> 't) res) \<Rightarrow> 'os \<Rightarrow> 't \<Rightarrow> 't res" where
  "avro_raw_binary_decode L C dec src dst =
     bindE (input_stream L src) (\<lambda>mis. bindE (dec C (co_open C mis) dst) (\<lambda>(d, v). Inr v))"

text \<open>\<open>buffer\<close> is the memory from the pointer on; what is left of it keeps its content.\<close>

definition avro_raw_binary_encode_buffer ::
  "('os, 'p) libs \<Rightarrow> 'd codec \<Rightarrow> ('t \<Rightarrow> datum list) \<Rightarrow> 't \<Rightarrow> string \<Rightarrow> nat \<Rightarrow> (nat \<times> string) res" where
  "avro_raw_binary_encode_buffer L C enc src buffer capacity =
     (let os = lib_os_write L (lib_os_new L) (co_bytes C (enc src)); sz = lib_os_count L os in
      if sz \<le> capacity then
        (case lib_os_read L os sz of
           None \<Rightarrow> Inl (Exception ''EOF reached'')
         | Some s \<Rightarrow> if sz \<le> length buffer then Inr (sz, s @ drop sz buffer) else Inl Buffer_overflow)
      else Inl Assertion)"

definition avro_raw_binary_decode_buffer ::
  "'d codec \<Rightarrow> ('d codec \<Rightarrow> 'd \<Rightarrow> 't \<Rightarrow> ('d \<times> 't) res) \<Rightarrow> string \<Rightarrow> nat \<Rightarrow> 't \<Rightarrow> 't res" where
  "avro_raw_binary_decode_buffer C dec buffer sz dst =
     (if sz \<le> length buffer then bindE (dec C (co_open C (take sz buffer)) dst) (\<lambda>(d, v). Inr v)
      else Inl Out_of_bounds)"

definition create_avro_binary_rest ::
  "('os, 'p) libs \<Rightarrow> 'd codec \<Rightarrow> ('t \<Rightarrow> datum list) \<Rightarrow> string \<Rightarrow> 't \<Rightarrow> string list \<Rightarrow> int \<Rightarrow> 'os call_context" where
  "create_avro_binary_rest L C enc uri request headers timeout =
     (let p = call_context_new L POST uri headers timeout False
      in p\<lparr>x_tx_buffer := avro_raw_binary_encode L C enc request (x_tx_buffer p)\<rparr>)"

definition create_avro_json_rest ::
  "('os, 'p) libs \<Rightarrow> 'd codec \<Rightarrow> ('t \<Rightarrow> datum list) \<Rightarrow> method_t \<Rightarrow> string \<Rightarrow> 't \<Rightarrow> string list \<Rightarrow> int
     \<Rightarrow> 'os call_context" where
  "create_avro_json_rest L C enc meth uri request headers timeout =
     (let p = call_context_new L meth uri headers timeout False
      in p\<lparr>x_tx_buffer := avro_json_encode L C enc request (x_tx_buffer p)\<rparr>)"

text \<open>\<^verbatim>\<open>debug_to_string\<close> of \<^verbatim>\<open>csi_http.cpp\<close>, with which the samples print a body they cannot decode.\<close>

definition debug_to_string :: "('os, 'p) libs \<Rightarrow> 'os \<Rightarrow> string res" where
  "debug_to_string L os =
     (let sz = lib_os_count L os; res = vec_resize NUL sz [] in
      case lib_os_read L os sz of
        None \<Rightarrow> Inl (Exception ''EOF reached'')
      | Some s \<Rightarrow> Inr (s @ drop (length s) res))"

section \<open>A codec for the witnesses\<close>

text \<open>Its decoder is the list of values still to come; strings may contain anything but NUL.\<close>

fun show_datum :: "datum \<Rightarrow> string" where
  "show_datum (Avro_string s) = CHR ''s'' # show_nat (length s) @ CHR '':'' # s"
| "show_datum (Avro_long n) = CHR ''n'' # show_nat (unat n) @ '':''"

definition split_colon :: "string \<Rightarrow> string \<times> string" where
  "split_colon s = (takeWhile (\<lambda>c. c \<noteq> CHR '':'') s, tl (dropWhile (\<lambda>c. c \<noteq> CHR '':'') s))"

lemma split_colon_show: "split_colon (show_nat n @ CHR '':'' # s) = (show_nat n, s)"
proof -
  have *: "\<forall>c \<in> set (show_nat n). c \<noteq> CHR '':''" using colon_notin_show_nat by metis
  then show ?thesis by (simp add: split_colon_def takeWhile_append2 dropWhile_append2)
qed

definition ref_string :: "string \<Rightarrow> (string \<times> string) option" where
  "ref_string d = (case d of [] \<Rightarrow> None | c # r \<Rightarrow>
     (case split_colon r of (ds, s) \<Rightarrow> case read_nat ds of None \<Rightarrow> None
        | Some n \<Rightarrow> if c = CHR ''s'' \<and> n \<le> length s then Some (take n s, drop n s) else None))"

definition ref_long :: "string \<Rightarrow> (64 word \<times> string) option" where
  "ref_long d = (case d of [] \<Rightarrow> None | c # r \<Rightarrow>
     (case split_colon r of (ds, s) \<Rightarrow> case read_nat ds of None \<Rightarrow> None
        | Some n \<Rightarrow> if c = CHR ''n'' then Some (word_of_nat n, s) else None))"

definition ref_codec :: "string codec" where
  "ref_codec = \<lparr>co_bytes = (\<lambda>ds. concat (map show_datum ds)), co_open = (\<lambda>s. s),
     co_string = ref_string, co_long = ref_long, co_order = (\<lambda>_. None)\<rparr>"

lemma hands_out_ref: "hands_out ref_codec (concat (map show_datum ds) @ r) ds"
proof (induction ds)
  case (Cons d ds)
  then show ?case
    by (cases d) (simp_all add: ref_codec_def ref_string_def ref_long_def split_colon_show)
qed simp

lemma codec_law_ref [simp]: "codec_law ref_codec"
  using hands_out_ref [of _ "[]"] by (simp add: codec_law_def) (simp add: ref_codec_def)

section \<open>Properties of the Avro helpers\<close>

lemma codec_lawD:
  "codec_law C \<Longrightarrow> hands_out C (co_open C (co_bytes C ds)) ds" "codec_law C \<Longrightarrow> co_order C (co_open C s) = None"
  by (simp_all add: codec_law_def)

lemma request_decoded:
  assumes "hands_out C d (hello_request_encode v)" and "co_order C d = None"
  shows "\<exists>d'. hello_request_decode C d w = Inr (d', v)"
proof -
  obtain d1 d2 where "co_string C d = Some (rq_message v, d1)" "co_long C d1 = Some (rq_delay v, d2)"
    using assms(1) by (auto simp: hello_request_encode_def split: option.splits)
  then show ?thesis
    using assms(2) by (cases v) (simp add: hello_request_decode_def decode_message_def decode_delay_def
      decode_string_def decode_long_def)
qed

lemma response_decoded:
  assumes "hands_out C d (hello_response_encode v)" and "co_order C d = None"
  shows "\<exists>d'. hello_response_decode C d w = Inr (d', v)"
proof -
  obtain d1 where "co_string C d = Some (rs_message v, d1)"
    using assms(1) by (auto simp: hello_response_encode_def split: option.splits)
  then show ?thesis
    using assms(2) by (cases v) (simp add: hello_response_decode_def decode_reply_message_def decode_string_def)
qed

lemma debug_to_string_content: "avro_law L \<Longrightarrow> debug_to_string L os = Inr (os_content L os)"
  by (simp add: debug_to_string_def avro_lawD)

lemma hello_json_decoded:
  assumes "avro_law L" and "codec_law C" and "os_content L os = co_bytes C (hello_request_encode v)"
  shows "avro_json_decode L C hello_request_decode os w = Inr v"
  using request_decoded [OF codec_lawD(1) [OF assms(2)] codec_lawD(2) [OF assms(2)]] assms(3)
  by (auto simp: avro_json_decode_def input_stream_eq [OF assms(1)])

text \<open>
  C26. What is encoded is decoded: a request put into the body of a REST call, in either
  encoding, comes out of that body as it was, whatever the object decoded into held; so
  does a response.
\<close>

theorem avro_body_roundtrip:
  assumes "avro_law L" and "codec_law C"
  shows "avro_json_decode L C hello_request_decode
            (x_tx_buffer (create_avro_json_rest L C hello_request_encode meth uri v hs t)) w = Inr v
    \<and> avro_raw_binary_decode L C hello_request_decode
            (x_tx_buffer (create_avro_binary_rest L C hello_request_encode uri v hs t)) w = Inr v
    \<and> avro_json_decode L C hello_response_decode
            (avro_json_encode L C hello_response_encode r (lib_os_new L)) q = Inr r"
proof -
  have "\<exists>d'. hello_request_decode C (co_open C (co_bytes C (hello_request_encode v))) w = Inr (d', v)"
    using assms(2) by (intro request_decoded) (simp_all add: codec_lawD)
  moreover have "\<exists>d'. hello_response_decode C (co_open C (co_bytes C (hello_response_encode r))) q = Inr (d', r)"
    using assms(2) by (intro response_decoded) (simp_all add: codec_lawD)
  ultimately show ?thesis
    using assms(1)
    by (auto simp: avro_json_decode_def avro_raw_binary_decode_def create_avro_json_rest_def
        create_avro_binary_rest_def avro_json_encode_def avro_raw_binary_encode_def call_context_new_def
        input_stream_eq avro_lawD)
qed

theorem avro_body_roundtrip_witness:
  "avro_json_decode (ref_libs []) ref_codec hello_request_decode
      (x_tx_buffer (create_avro_json_rest (ref_libs []) ref_codec hello_request_encode POST ''/rest'' 
         \<lparr>rq_message = ''hi'', rq_delay = - 1\<rparr> [] 1000)) hello_request_new = Inr \<lparr>rq_message = ''hi'', rq_delay = - 1\<rparr>"
  using avro_body_roundtrip [OF avro_law_ref_libs codec_law_ref] by blast

text \<open>
  The encoder into a character array writes exactly the encoding and returns its length
  when the capacity allows it, leaves the rest of the array alone, and what it wrote decodes
  to the value; when the capacity is too small it runs into its \<^verbatim>\<open>assert\<close> without writing.
\<close>

theorem encode_into_buffer:
  assumes "avro_law L" and "codec_law C" and "capacity \<le> length buffer"
    and n: "n = length (co_bytes C (hello_request_encode v))"
  shows "if n \<le> capacity
    then \<exists>out. avro_raw_binary_encode_buffer L C hello_request_encode v buffer capacity = Inr (n, out)
      \<and> length out = length buffer \<and> drop n out = drop n buffer
      \<and> avro_raw_binary_decode_buffer C hello_request_decode out n w = Inr v
    else avro_raw_binary_encode_buffer L C hello_request_encode v buffer capacity = Inl Assertion"
proof -
  let ?s = "co_bytes C (hello_request_encode v)"
  have "\<exists>d'. hello_request_decode C (co_open C ?s) w = Inr (d', v)"
    using assms(2) by (intro request_decoded) (simp_all add: codec_lawD)
  then show ?thesis
    using assms(1,3) by (auto simp: avro_raw_binary_encode_buffer_def avro_raw_binary_decode_buffer_def
        Let_def avro_lawD n)
qed

theorem encode_into_buffer_witness:
  "\<exists>n out. avro_raw_binary_encode_buffer (ref_libs []) ref_codec hello_request_encode
       \<lparr>rq_message = ''abc'', rq_delay = 7\<rparr> (replicate 20 NUL) 20 = Inr (n, out)
     \<and> avro_raw_binary_decode_buffer ref_codec hello_request_decode out n hello_request_new
         = Inr \<lparr>rq_message = ''abc'', rq_delay = 7\<rparr>
     \<and> avro_raw_binary_encode_buffer (ref_libs []) ref_codec hello_request_encode
         \<lparr>rq_message = ''abc'', rq_delay = 7\<rparr> (replicate 20 NUL) 3 = Inl Assertion"
proof -
  let ?v = "\<lparr>rq_message = ''abc'', rq_delay = 7\<rparr>"
  have n: "length (co_bytes ref_codec (hello_request_encode ?v)) = 9"
    by (simp add: ref_codec_def hello_request_encode_def show_nat.simps digit_def)
  have 1: "\<exists>out. avro_raw_binary_encode_buffer (ref_libs []) ref_codec hello_request_encode ?v (replicate 20 NUL) 20
        = Inr (9, out)
      \<and> avro_raw_binary_decode_buffer ref_codec hello_request_decode out 9 hello_request_new = Inr ?v"
    using encode_into_buffer [OF avro_law_ref_libs codec_law_ref _ n [symmetric],
        of 20 "replicate 20 NUL" "[]" hello_request_new] by auto
  have 2: "avro_raw_binary_encode_buffer (ref_libs []) ref_codec hello_request_encode ?v (replicate 20 NUL) 3
      = Inl Assertion"
    using encode_into_buffer [OF avro_law_ref_libs codec_law_ref _ n [symmetric],
        of 3 "replicate 20 NUL" "[]" hello_request_new] by simp
  from 1 2 show ?thesis by blast
qed

text \<open>The fields of a request by number, in the order of the schema.\<close>

definition request_datum :: "hello_request \<Rightarrow> nat \<Rightarrow> datum list" where
  "request_datum v i = (if i = 0 then [Avro_string (rq_message v)] else if i = 1 then [Avro_long (rq_delay v)] else [])"

lemma request_datum_simps [simp]:
  "request_datum v 0 = [Avro_string (rq_message v)]" "request_datum v (Suc 0) = [Avro_long (rq_delay v)]"
  by (simp_all add: request_datum_def)

lemma request_fields_any:
  "hands_out C d (concat (map (request_datum v) fo)) \<Longrightarrow>
   \<exists>d'. request_fields C fo (d, w) = Inr (d', \<lparr>rq_message = (if 0 \<in> set fo then rq_message v else rq_message w),
       rq_delay = (if 1 \<in> set fo then rq_delay v else rq_delay w)\<rparr>)"
proof (induction fo arbitrary: d w)
  case Nil
  then show ?case by (cases w) simp
next
  case (Cons i fo)
  consider "i = 0" | "i = 1" | "i \<noteq> 0" "i \<noteq> 1" by blast
  then show ?case
  proof cases
    case 1
    then obtain d1 where d1: "co_string C d = Some (rq_message v, d1)" "hands_out C d1 (concat (map (request_datum v) fo))"
      using Cons.prems by (auto split: option.splits)
    from Cons.IH [OF d1(2), of "w\<lparr>rq_message := rq_message v\<rparr>"] d1(1) 1 show ?thesis
      by (simp add: decode_message_def decode_string_def cong: if_cong split: if_splits)
  next
    case 2
    then obtain d1 where d1: "co_long C d = Some (rq_delay v, d1)" "hands_out C d1 (concat (map (request_datum v) fo))"
      using Cons.prems by (auto split: option.splits)
    from Cons.IH [OF d1(2), of "w\<lparr>rq_delay := rq_delay v\<rparr>"] d1(1) 2 show ?thesis
      by (simp add: decode_delay_def decode_long_def cong: if_cong split: if_splits)
  next
    case 3
    with Cons.IH [of d w] Cons.prems show ?thesis by (auto simp: request_datum_def)
  qed
qed

text \<open>
  With a resolving decoder the fields are taken in the order it announces: whatever that
  order is, and whatever fields unknown here it mentions, a request whose two fields occur
  in it is decoded, and a field that does not occur keeps its value.
\<close>

theorem decode_in_field_order:
  assumes "co_order C d = Some fo" and "hands_out C d (concat (map (request_datum v) fo))"
  shows "\<exists>d'. hello_request_decode C d w = Inr (d', \<lparr>rq_message = (if 0 \<in> set fo then rq_message v else rq_message w),
       rq_delay = (if 1 \<in> set fo then rq_delay v else rq_delay w)\<rparr>)"
  using request_fields_any [OF assms(2), of w] assms(1) by (simp add: hello_request_decode_def)

theorem decode_in_field_order_witness:
  "\<exists>d'. hello_request_decode (ref_codec\<lparr>co_order := (\<lambda>_. Some [2, 1, 0])\<rparr>) ''n5:s2:ok''
     hello_request_new = Inr (d', \<lparr>rq_message = ''ok'', rq_delay = 5\<rparr>)"
proof -
  let ?C = "ref_codec\<lparr>co_order := (\<lambda>_. Some [2, 1, 0])\<rparr>" and ?v = "\<lparr>rq_message = ''ok'', rq_delay = 5\<rparr>"
  have "hands_out ?C ''n5:s2:ok'' (concat (map (request_datum ?v) [2, 1, 0]))"
    by (simp add: request_datum_def ref_codec_def ref_long_def ref_string_def split_colon_def read_nat_def
        read_digit_def digit_value_def upt_rec)
  from decode_in_field_order [OF _ this, of hello_request_new] show ?thesis by simp
qed

end
