(* ===== verification/Json_Encoding.thy ===== *)
theory Json_Encoding
  imports Call_Context
begin

text \<open>
  \<^verbatim>\<open>encoding/avro_json_spirit_encoding.h\<close>: bodies in JSON through json_spirit, and the record
  the two json_spirit samples exchange with it. json_spirit is a parameter: its values are
  of some type, an object is the vector of its pairs, and a getter of the wrong type throws.
\<close>

section \<open>The code\<close>

record 'v json =
  js_string :: "string \<Rightarrow> 'v"
  js_uint64 :: "64 word \<Rightarrow> 'v"
  js_get_str :: "'v \<Rightarrow> string option"
  js_get_uint64 :: "'v \<Rightarrow> 64 word option"
  js_get_obj :: "'v \<Rightarrow> (string \<times> 'v) list option"
  js_write :: "(string \<times> 'v) list \<Rightarrow> string"
  js_read :: "string \<Rightarrow> 'v"

text \<open>What is written is read back, pair by pair; a value has the type it was made with.\<close>

definition json_law :: "'v json \<Rightarrow> bool" where
  "json_law J \<longleftrightarrow> (\<forall>s. js_get_str J (js_string J s) = Some s) \<and> (\<forall>n. js_get_uint64 J (js_uint64 J n) = Some n)
     \<and> (\<forall>s. js_get_uint64 J (js_string J s) = None) \<and> (\<forall>n. js_get_str J (js_uint64 J n) = None)
     \<and> (\<forall>ob. snd ` set ob \<subseteq> range (js_string J) \<union> range (js_uint64 J)
            \<longrightarrow> js_get_obj J (js_read J (js_write J ob)) = Some ob)"

record sample_data_req1 =
  email :: string
  phone :: string
  delay :: "64 word"

definition sample_data_req1_new :: sample_data_req1 where
  "sample_data_req1_new = \<lparr>email = [], phone = [], delay = 0\<rparr>"

definition json_encode :: "'v json \<Rightarrow> sample_data_req1 \<Rightarrow> (string \<times> 'v) list" where
  "json_encode J sd =
     [(''delay'', js_uint64 J (delay sd)), (''email'', js_string J (email sd)), (''phone'', js_string J (phone sd))]"

text \<open>The loop ends with \<open>False\<close> at the first getter that throws, with what it has stored so far.\<close>

fun json_decode_loop :: "'v json \<Rightarrow> (string \<times> 'v) list \<Rightarrow> sample_data_req1 \<Rightarrow> bool \<times> sample_data_req1" where
  "json_decode_loop J [] sd = (True, sd)"
| "json_decode_loop J ((nm, v) # items) sd =
     (if nm = ''email'' then
        (case js_get_str J v of None \<Rightarrow> (False, sd) | Some s \<Rightarrow> json_decode_loop J items (sd\<lparr>email := s\<rparr>))
      else if nm = ''phone'' then
        (case js_get_str J v of None \<Rightarrow> (False, sd) | Some s \<Rightarrow> json_decode_loop J items (sd\<lparr>phone := s\<rparr>))
      else if nm = ''delay'' then
        (case js_get_uint64 J v of None \<Rightarrow> (False, sd) | Some n \<Rightarrow> json_decode_loop J items (sd\<lparr>delay := n\<rparr>))
      else json_decode_loop J items sd)"

definition json_decode :: "'v json \<Rightarrow> (string \<times> 'v) list \<Rightarrow> sample_data_req1 \<Rightarrow> bool \<times> sample_data_req1" where
  "json_decode J ob sd = json_decode_loop J ob sample_data_req1_new"

text \<open>\<^verbatim>\<open>json_spirit_encode\<close>, with the encoder \<open>enc\<close> of the type.\<close>

definition json_spirit_encode ::
  "('os, 'p) libs \<Rightarrow> 'v json \<Rightarrow> ('t \<Rightarrow> (string \<times> 'v) list) \<Rightarrow> 't \<Rightarrow> 'os \<Rightarrow> 'os" where
  "json_spirit_encode L J enc src dst = lib_os_write L dst (js_write J (enc src))"

text \<open>The copy of the stream, one byte at a time until there is no more.\<close>

fun copy_stream :: "string \<Rightarrow> string \<Rightarrow> string" where
  "copy_stream [] stream1 = stream1"
| "copy_stream (ch # stream0) stream1 = copy_stream stream0 (stream1 @ [ch])"

definition json_spirit_decode_stream ::
  "'v json \<Rightarrow> ((string \<times> 'v) list \<Rightarrow> 't \<Rightarrow> bool \<times> 't) \<Rightarrow> 't \<Rightarrow> string \<Rightarrow> bool \<times> 't" where
  "json_spirit_decode_stream J dec blank src =
     (let root = js_get_obj J (js_read J (copy_stream src [])) in
      case root of None \<Rightarrow> (False, blank) | Some ob \<Rightarrow> dec ob blank)"

definition json_spirit_decode ::
  "('os, 'p) libs \<Rightarrow> 'v json \<Rightarrow> ((string \<times> 'v) list \<Rightarrow> 't \<Rightarrow> bool \<times> 't) \<Rightarrow> 't \<Rightarrow> 'os \<Rightarrow> (bool \<times> 't) res" where
  "json_spirit_decode L J dec blank src =
     bindE (input_stream L src) (\<lambda>mis. Inr (json_spirit_decode_stream J dec blank mis))"

text \<open>\<^verbatim>\<open>json_decode_object\<close> of the sample server, an older form of the same that nothing calls.\<close>

definition json_decode_object ::
  "'v json \<Rightarrow> ((string \<times> 'v) list \<Rightarrow> 't \<Rightarrow> bool \<times> 't) \<Rightarrow> 't \<Rightarrow> string \<Rightarrow> bool \<times> 't" where
  "json_decode_object J dec blank is =
     (case js_get_obj J (js_read J is) of None \<Rightarrow> (False, blank) | Some root \<Rightarrow> dec root blank)"

definition create_json_spirit_request ::
  "('os, 'p) libs \<Rightarrow> 'v json \<Rightarrow> ('t \<Rightarrow> (string \<times> 'v) list) \<Rightarrow> method_t \<Rightarrow> string \<Rightarrow> 't \<Rightarrow> string list \<Rightarrow> int
     \<Rightarrow> 'os call_context" where
  "create_json_spirit_request L J enc meth uri request headers timeout =
     (let p = call_context_new L meth uri headers timeout False
      in p\<lparr>x_tx_buffer := json_spirit_encode L J enc request (x_tx_buffer p)\<rparr>)"

section \<open>A json_spirit for the witnesses\<close>

text \<open>Values are strings, numbers or whole objects; the text of an object is a list of its pairs.\<close>

datatype ref_value = Null | Str string | Num "64 word" | Obj "(string \<times> ref_value) list"

fun show_chars :: "string \<Rightarrow> string" where
  "show_chars [] = ''.''"
| "show_chars (c # cs) = CHR ''c'' # c # show_chars cs"

fun read_chars :: "string \<Rightarrow> string \<times> string" where
  "read_chars (k # c # cs) = (if k = CHR ''c'' then (case read_chars cs of (s, r) \<Rightarrow> (c # s, r)) else ([], c # cs))"
| "read_chars (k # []) = ([], [])"
| "read_chars [] = ([], [])"

lemma read_show_chars [simp]: "read_chars (show_chars s @ r) = (s, r)"
proof (induction s)
  case Nil
  then show ?case by (cases r) simp_all
qed simp

fun show_pairs :: "(string \<times> ref_value) list \<Rightarrow> string" where
  "show_pairs [] = []"
| "show_pairs ((nm, Str s) # ps) = CHR ''s'' # show_chars nm @ show_chars s @ show_pairs ps"
| "show_pairs ((nm, Num n) # ps) = CHR ''n'' # show_chars nm @ show_chars (show_nat (unat n)) @ show_pairs ps"
| "show_pairs (_ # ps) = show_pairs ps"

fun read_pairs :: "nat \<Rightarrow> string \<Rightarrow> (string \<times> ref_value) list" where
  "read_pairs 0 s = []"
| "read_pairs (Suc fuel) [] = []"
| "read_pairs (Suc fuel) (k # s) =
     (case read_chars s of (nm, r) \<Rightarrow> case read_chars r of (v, r') \<Rightarrow>
        (nm, if k = CHR ''s'' then Str v else case read_nat v of None \<Rightarrow> Null | Some n \<Rightarrow> Num (word_of_nat n))
          # read_pairs fuel r')"

lemma read_show_pairs:
  "snd ` set ps \<subseteq> range Str \<union> range Num \<Longrightarrow> length ps \<le> n \<Longrightarrow> read_pairs n (show_pairs ps) = ps"
proof (induction ps arbitrary: n)
  case Nil
  then show ?case by (cases n) simp_all
next
  case (Cons p ps)
  then obtain k where k: "n = Suc k" by (cases n) simp_all
  obtain nm v where p: "p = (nm, v)" by fastforce
  with Cons.prems consider s where "v = Str s" | w where "v = Num w" by auto
  then show ?case by cases (use Cons k p in simp_all)
qed

lemma length_show_pairs: "snd ` set ps \<subseteq> range Str \<union> range Num \<Longrightarrow> length ps \<le> length (show_pairs ps)"
proof (induction ps)
  case (Cons p ps)
  obtain nm v where p: "p = (nm, v)" by fastforce
  with Cons.prems consider s where "v = Str s" | w where "v = Num w" by auto
  then show ?case by cases (use Cons p in simp_all)
qed simp

definition ref_json :: "ref_value json" where
  "ref_json = \<lparr>js_string = Str, js_uint64 = Num,
     js_get_str = (\<lambda>v. case v of Str s \<Rightarrow> Some s | _ \<Rightarrow> None),
     js_get_uint64 = (\<lambda>v. case v of Num n \<Rightarrow> Some n | _ \<Rightarrow> None),
     js_get_obj = (\<lambda>v. case v of Obj ob \<Rightarrow> Some ob | _ \<Rightarrow> None),
     js_write = show_pairs, js_read = (\<lambda>s. Obj (read_pairs (length s) s))\<rparr>"

lemma json_law_ref [simp]: "json_law ref_json"
  using read_show_pairs length_show_pairs by (simp add: json_law_def ref_json_def)

section \<open>Properties\<close>

lemma copy_stream_eq: "copy_stream s acc = acc @ s"
  by (induction s acc rule: copy_stream.induct) simp_all

lemma json_decode_object_eq: "json_decode_object = json_spirit_decode_stream"
  by (simp add: fun_eq_iff json_decode_object_def json_spirit_decode_stream_def copy_stream_eq)

lemma json_spirit_decode_eq:
  assumes "avro_law L"
  shows "json_spirit_decode L J dec blank src =
     Inr (case js_get_obj J (js_read J (os_content L src)) of None \<Rightarrow> (False, blank) | Some ob \<Rightarrow> dec ob blank)"
  by (simp add: json_spirit_decode_def input_stream_eq [OF assms] json_spirit_decode_stream_def copy_stream_eq)

text \<open>
  C27. The record the samples exchange survives the way into the body of a call and out of
  it again.
\<close>

theorem json_spirit_roundtrip:
  assumes "avro_law L" and "json_law J"
  shows "json_spirit_decode L J (json_decode J) sample_data_req1_new
      (x_tx_buffer (create_json_spirit_request L J (json_encode J) meth uri sd hs t)) = Inr (True, sd)"
proof -
  have "js_get_obj J (js_read J (js_write J (json_encode J sd))) = Some (json_encode J sd)"
    using assms(2) by (simp add: json_law_def json_encode_def)
  moreover have "json_decode J (json_encode J sd) sample_data_req1_new = (True, sd)"
    using assms(2) by (simp add: json_law_def json_decode_def json_encode_def sample_data_req1_new_def)
  ultimately show ?thesis
    using assms(1) by (simp add: json_spirit_decode_eq create_json_spirit_request_def json_spirit_encode_def
        call_context_new_def avro_lawD)
qed

theorem json_spirit_roundtrip_witness:
  "json_spirit_decode (ref_libs []) ref_json (json_decode ref_json) sample_data_req1_new
      (x_tx_buffer (create_json_spirit_request (ref_libs []) ref_json (json_encode ref_json) POST ''/rest'' 
        \<lparr>email = ''a@b'', phone = ''1'', delay = 3\<rparr> [] 1000)) = Inr (True, \<lparr>email = ''a@b'', phone = ''1'', delay = 3\<rparr>)"
  by (rule json_spirit_roundtrip [OF avro_law_ref_libs json_law_ref])

text \<open>The reference: each field is the last of its name, if every value of that name has its type.\<close>

definition field_values :: "string \<Rightarrow> (string \<times> 'v) list \<Rightarrow> 'v list" where
  "field_values nm ob = map snd (filter (\<lambda>p. fst p = nm) ob)"

definition last_value :: "('v \<Rightarrow> 'a option) \<Rightarrow> string \<Rightarrow> (string \<times> 'v) list \<Rightarrow> 'a \<Rightarrow> 'a" where
  "last_value get nm ob d = (if field_values nm ob = [] then d else the (get (last (field_values nm ob))))"

definition well_typed :: "'v json \<Rightarrow> (string \<times> 'v) list \<Rightarrow> bool" where
  "well_typed J ob \<longleftrightarrow> (\<forall>v \<in> set (field_values ''email'' ob) \<union> set (field_values ''phone'' ob). js_get_str J v \<noteq> None)
     \<and> (\<forall>v \<in> set (field_values ''delay'' ob). js_get_uint64 J v \<noteq> None)"

lemma field_values_Cons:
  "field_values nm ((nm', v) # ob) = (if nm' = nm then v # field_values nm ob else field_values nm ob)"
  by (simp add: field_values_def)

lemma last_value_Cons:
  "last_value get nm ((nm', v) # ob) d = last_value get nm ob (if nm' = nm then the (get v) else d)"
  by (auto simp: last_value_def field_values_Cons)

lemma json_decode_loop_eq:
  "json_decode_loop J ob sd = (True, sd') \<longleftrightarrow> well_typed J ob
     \<and> sd' = \<lparr>email = last_value (js_get_str J) ''email'' ob (email sd),
              phone = last_value (js_get_str J) ''phone'' ob (phone sd),
              delay = last_value (js_get_uint64 J) ''delay'' ob (delay sd)\<rparr>"
proof (induction J ob sd rule: json_decode_loop.induct)
  case (1 J sd)
  show ?case by (cases sd) (auto simp: well_typed_def last_value_def field_values_def)
next
  case (2 J nm v items sd)
  consider "nm = ''email''" | "nm = ''phone''" | "nm = ''delay''" | "nm \<notin> {''email'', ''phone'', ''delay''}" by blast
  then show ?case
  proof cases
    case 1
    then show ?thesis
      using "2.IH"(1) by (cases "js_get_str J v") (auto simp: well_typed_def field_values_Cons last_value_Cons)
  next
    case 2
    then show ?thesis
      using "2.IH"(2) by (cases "js_get_str J v") (auto simp: well_typed_def field_values_Cons last_value_Cons)
  next
    case 3
    then show ?thesis
      using "2.IH"(3) by (cases "js_get_uint64 J v") (auto simp: well_typed_def field_values_Cons last_value_Cons)
  next
    case 4
    then show ?thesis
      using "2.IH"(4) by (auto simp: well_typed_def field_values_Cons last_value_Cons)
  qed
qed

text \<open>
  C28. Decoding an object succeeds exactly when every value under one of the three names has
  the type of the field; then each field is the last value of its name, or empty when there
  is none, and all other names are ignored.
\<close>

theorem json_decode_spec:
  "json_decode J ob sd = (True, sd') \<longleftrightarrow> well_typed J ob
     \<and> sd' = \<lparr>email = last_value (js_get_str J) ''email'' ob [],
              phone = last_value (js_get_str J) ''phone'' ob [],
              delay = last_value (js_get_uint64 J) ''delay'' ob 0\<rparr>"
  using json_decode_loop_eq [of J ob sample_data_req1_new sd']
  by (simp add: json_decode_def sample_data_req1_new_def)

end
