(* ===== verification/Samples.thy ===== *)
theory Samples
  imports Https_Connection Encoding Json_Encoding
begin

text \<open>
  The services of the sample servers (\<^verbatim>\<open>samples/avro_http_server_sample\<close>,
  \<^verbatim>\<open>samples/avro_https_server_sample\<close>, \<^verbatim>\<open>samples/json_spirit_http_server_sample\<close>) on top of the
  connections: the request handler, the service that answers after a delay, and its timer
  handler. \<open>wait\<close> and \<open>notify\<close> are the virtual \<^verbatim>\<open>wait_for_async_reply\<close> and
  \<^verbatim>\<open>notify_async_reply_done\<close> of the connection the sample runs on; the timer of the service
  belongs to the outside.
\<close>

section \<open>The Avro samples\<close>

text \<open>\<^verbatim>\<open>avro_json_encode(v, context->reply().content())\<close> and the binary form.\<close>

definition encode_reply ::
  "('os, 'p) libs \<Rightarrow> ('t \<Rightarrow> 'os \<Rightarrow> 'os) \<Rightarrow> 't \<Rightarrow> ('os, 'p) async_conn \<Rightarrow> ('os, 'p) async_conn res" where
  "encode_reply L encode v c =
     bindE (deref (p_avro_tx (c_reply c))) (\<lambda>os. Inr (c\<lparr>c_reply := (c_reply c)\<lparr>p_avro_tx := Some (encode v os)\<rparr>\<rparr>))"

definition avro_service_post ::
  "(('os, 'p) async_conn \<Rightarrow> ('os, 'p) async_conn) \<Rightarrow> ('os, 'p) async_conn \<Rightarrow> ('os, 'p) async_conn" where
  "avro_service_post wait c = wait c"

definition avro_service_handle_post ::
  "('os, 'p) libs \<Rightarrow> 'd codec \<Rightarrow> (('os, 'p) async_conn \<Rightarrow> ('os, 'p) async_conn) \<Rightarrow> ('os, 'p) async_conn
     \<Rightarrow> ('os, 'p) async_conn res" where
  "avro_service_handle_post L C notify c =
     (let resp = hello_response_new\<lparr>rs_message := ''hello to you!''\<rparr> in
      bindE (encode_reply L (avro_json_encode L C hello_response_encode) resp c) (\<lambda>c.
        bindE (conn_create L ok c) (\<lambda>c. Inr (notify c))))"

definition avro_handle_request ::
  "('os, 'p) libs \<Rightarrow> 'd codec \<Rightarrow> (('os, 'p) async_conn \<Rightarrow> ('os, 'p) async_conn) \<Rightarrow> ('os, 'p) async_conn
     \<Rightarrow> ('os, 'p) async_conn res" where
  "avro_handle_request L C wait c =
     bindE (initialised (r_method (c_request c))) (\<lambda>m.
       if m = POST then
         bindE (avro_json_decode L C hello_request_decode (r_rx (c_request c)) hello_request_new) (\<lambda>request.
           if rq_delay request = 0 then
             let response = hello_response_new\<lparr>rs_message := rq_message request\<rparr> in
             bindE (encode_reply L (avro_json_encode L C hello_response_encode) response c) (conn_create L ok)
           else Inr (avro_service_post wait c))
       else conn_create L bad_request c)"

text \<open>The TLS sample is the same in the binary encoding.\<close>

definition tls_service_post ::
  "(('os, 'p) async_conn \<Rightarrow> ('os, 'p) async_conn) \<Rightarrow> ('os, 'p) async_conn \<Rightarrow> ('os, 'p) async_conn" where
  "tls_service_post wait c = wait c"

definition tls_service_handle_post ::
  "('os, 'p) libs \<Rightarrow> 'd codec \<Rightarrow> (('os, 'p) async_conn \<Rightarrow> ('os, 'p) async_conn) \<Rightarrow> ('os, 'p) async_conn
     \<Rightarrow> ('os, 'p) async_conn res" where
  "tls_service_handle_post L C notify c =
     (let resp = hello_response_new\<lparr>rs_message := ''hello to you!''\<rparr> in
      bindE (encode_reply L (avro_raw_binary_encode L C hello_response_encode) resp c) (\<lambda>c.
        bindE (conn_create L ok c) (\<lambda>c. Inr (notify c))))"

definition tls_handle_request ::
  "('os, 'p) libs \<Rightarrow> 'd codec \<Rightarrow> (('os, 'p) async_conn \<Rightarrow> ('os, 'p) async_conn) \<Rightarrow> ('os, 'p) async_conn
     \<Rightarrow> ('os, 'p) async_conn res" where
  "tls_handle_request L C wait c =
     bindE (initialised (r_method (c_request c))) (\<lambda>m.
       if m = POST then
         bindE (avro_raw_binary_decode L C hello_request_decode (r_rx (c_request c)) hello_request_new) (\<lambda>request.
           if rq_delay request = 0 then
             let response = hello_response_new\<lparr>rs_message := rq_message request\<rparr> in
             bindE (encode_reply L (avro_raw_binary_encode L C hello_response_encode) response c) (conn_create L ok)
           else Inr (tls_service_post wait c))
       else conn_create L bad_request c)"

section \<open>The json_spirit sample\<close>

definition spirit_service_post ::
  "(('os, 'p) async_conn \<Rightarrow> ('os, 'p) async_conn) \<Rightarrow> ('os, 'p) async_conn \<Rightarrow> ('os, 'p) async_conn" where
  "spirit_service_post wait c = wait c"

definition spirit_service_handle_post ::
  "('os, 'p) libs \<Rightarrow> (('os, 'p) async_conn \<Rightarrow> ('os, 'p) async_conn) \<Rightarrow> ('os, 'p) async_conn
     \<Rightarrow> ('os, 'p) async_conn res" where
  "spirit_service_handle_post L notify c = bindE (conn_create L ok c) (\<lambda>c. Inr (notify c))"

definition spirit_handle_request ::
  "('os, 'p) libs \<Rightarrow> 'v json \<Rightarrow> (('os, 'p) async_conn \<Rightarrow> ('os, 'p) async_conn) \<Rightarrow> ('os, 'p) async_conn
     \<Rightarrow> ('os, 'p) async_conn res" where
  "spirit_handle_request L J wait c =
     bindE (initialised (r_method (c_request c))) (\<lambda>m.
       if m = POST then
         bindE (json_spirit_decode L J (json_decode J) sample_data_req1_new (r_rx (c_request c)))
           (\<lambda>(decoded, req1). if decoded then Inr (spirit_service_post wait c) else conn_create L bad_request c)
       else conn_create L bad_request c)"

text \<open>Registered by \<^verbatim>\<open>main\<close> under its path, with the \<^verbatim>\<open>wait_for_async_reply\<close> of the plain connection.\<close>

definition spirit_sample :: "('os, 'p) libs \<Rightarrow> 'v json \<Rightarrow> 64 word \<Rightarrow> ('os, 'p) conn_server" where
  "spirit_sample L J n = [handler_data_new (lib_split L) ''/rest/sample''
     (\<lambda>ps. spirit_handle_request L J http_wait_for_async_reply) n]"

section \<open>The statistics\<close>

text \<open>
  \<^verbatim>\<open>print_stat\<close>, the thread of the Avro servers: it looks at the server again and again, here
  at the states \<open>srvs\<close>, and prints a fifth of the number of requests since the last look;
  that number is kept as it is computed, in 64 bits.
\<close>

fun print_stat_loop :: "(string \<Rightarrow> string list) \<Rightarrow> 'c server list \<Rightarrow> 64 word \<Rightarrow> 64 word list res" where
  "print_stat_loop split [] prev = Inr []"
| "print_stat_loop split (srv # srvs) prev =
     bindE (get_no_of_requests split srv ''/rest/avro_sample'') (\<lambda>stat.
       bindE (print_stat_loop split srvs stat) (\<lambda>rs. Inr ((stat - prev) # rs)))"

definition print_stat :: "(string \<Rightarrow> string list) \<Rightarrow> 'c server \<Rightarrow> 'c server list \<Rightarrow> 64 word list res" where
  "print_stat split srv srvs =
     bindE (get_no_of_requests split srv ''/rest/avro_sample'') (print_stat_loop split srvs)"

definition tls_print_stat :: "(string \<Rightarrow> string list) \<Rightarrow> 'c server \<Rightarrow> 'c server list \<Rightarrow> 64 word list res" where
  "tls_print_stat split srv srvs =
     bindE (get_no_of_requests split srv ''/rest/avro_sample'') (print_stat_loop split srvs)"

lemma print_stat_loop_sum:
  assumes "\<And>srv. get_no_of_requests split srv ''/rest/avro_sample'' = Inr (n srv)"
  shows "\<exists>rs. print_stat_loop split srvs l = Inr rs \<and> length rs = length srvs
    \<and> l + sum_list rs = (if srvs = [] then l else n (last srvs))"
proof (induction srvs arbitrary: l)
  case (Cons srv srvs)
  from Cons.IH [of "n srv"] obtain rs where "print_stat_loop split srvs (n srv) = Inr rs"
    "length rs = length srvs" "n srv + sum_list rs = (if srvs = [] then n srv else n (last srvs))" by blast
  then show ?case by (simp add: assms algebra_simps)
qed simp

text \<open>
  Nothing is lost between two looks: the numbers printed add up, modulo the width of the
  counter, to the requests counted between the first look and the last.
\<close>

theorem print_stat_adds_up:
  "\<exists>rs n m. print_stat split srv srvs = Inr rs \<and> length rs = length srvs
    \<and> get_no_of_requests split srv ''/rest/avro_sample'' = Inr n
    \<and> get_no_of_requests split (last (srv # srvs)) ''/rest/avro_sample'' = Inr m
    \<and> sum_list rs = m - n \<and> tls_print_stat split srv srvs = Inr rs"
proof -
  define n where "n hs = (\<Sum>h \<leftarrow> hs. if serves h (split ''/rest/avro_sample'') then nr_of_requests h else 0)"
    for hs :: "'a server"
  have n: "get_no_of_requests split hs ''/rest/avro_sample'' = Inr (n hs)" for hs
    by (simp add: get_no_of_requests_def hd.count_loop_eq n_def)
  from print_stat_loop_sum [OF n, of srvs "n srv"] obtain rs where
    "print_stat_loop split srvs (n srv) = Inr rs" "length rs = length srvs"
    "n srv + sum_list rs = n (last (srv # srvs))" by auto
  then show ?thesis by (simp add: print_stat_def tls_print_stat_def n algebra_simps)
qed

section \<open>The handlers on a received request\<close>

lemma received_body:
  "avro_law L \<Longrightarrow> r\<lparr>r_id := [], r_uuid := 0\<rparr> = received L u uf fs n m bs \<Longrightarrow> os_content L (r_rx r) = concat bs"
  using os_content_foldl [of L "lib_os_new L" bs] by (cases r) (auto simp: received_def avro_lawD)

text \<open>Encoding a reply and creating it is answering at once, in the sense of \<open>respond\<close>.\<close>

lemma encode_and_create:
  assumes "\<And>os. encode v os = lib_os_write L os b"
  shows "bindE (encode_reply L encode v c) (conn_create L s) = respond L (\<lambda>ps r. (s, default_content_type, b)) ps c"
  using assms
  by (cases "p_avro_tx (c_reply c)")
    (simp_all add: encode_reply_def respond_def reply_content_write_def conn_create_def)

definition echo :: "'d codec \<Rightarrow> hello_request \<Rightarrow> string list \<Rightarrow> 'os request_t \<Rightarrow> status_type \<times> string \<times> string" where
  "echo C v ps r = (ok, default_content_type, co_bytes C (hello_response_encode \<lparr>rs_message = rq_message v\<rparr>))"

lemma avro_handle_at_once:
  assumes "avro_law L" and "codec_law C" and "r_method (c_request c) = Some POST" and "rq_delay v = 0"
    and "os_content L (r_rx (c_request c)) = co_bytes C (hello_request_encode v)"
  shows "avro_handle_request L C wait c = respond L (echo C v) ps c"
  using assms hello_json_decoded [OF assms(1,2,5)]
    encode_and_create [of "avro_json_encode L C hello_response_encode" "\<lparr>rs_message = rq_message v\<rparr>" L
      "co_bytes C (hello_response_encode \<lparr>rs_message = rq_message v\<rparr>)" c ok ps]
  by (simp add: avro_handle_request_def avro_json_encode_def hello_response_new_def echo_def [abs_def])

lemma avro_handle_later:
  assumes "avro_law L" and "codec_law C" and "r_method (c_request c) = Some POST" and "rq_delay v \<noteq> 0"
    and "os_content L (r_rx (c_request c)) = co_bytes C (hello_request_encode v)"
  shows "avro_handle_request L C wait c = Inr (wait c)"
  using assms hello_json_decoded [OF assms(1,2,5)] by (simp add: avro_handle_request_def avro_service_post_def)

lemma avro_handle_malformed:
  assumes "avro_law L" and "codec_law C" and "r_method (c_request c) = Some POST"
    and "co_string C (co_open C (os_content L (r_rx (c_request c)))) = None"
  shows "avro_handle_request L C wait c = Inl (Exception ''avro'')"
  using assms by (simp add: avro_handle_request_def avro_json_decode_def input_stream_eq hello_request_decode_def
      codec_lawD decode_message_def decode_string_def)

text \<open>The sample registered alone, on the path of the samples, and a \<^verbatim>\<open>POST\<close> that reaches it.\<close>

definition avro_sample :: "('os, 'p) libs \<Rightarrow> 'd codec \<Rightarrow> 64 word \<Rightarrow> ('os, 'p) conn_server" where
  "avro_sample L C n = [handler_data_new (lib_split L) ''/rest/avro_sample''
     (\<lambda>ps. avro_handle_request L C http_wait_for_async_reply) n]"

lemma registered_hit:
  assumes "split_law (lib_split L)" and "conn_url c = pat"
  shows "conn_handle_request L [handler_data_new (lib_split L) pat f n] c
     = bindE (f (lib_split L pat) c) (\<lambda>c'. Inr ([handler_data_new (lib_split L) pat f (n + 1)], c'))"
proof -
  have "uri_matches (lib_split L pat) (lib_split L (conn_url c))"
    by (simp add: assms(2) uri_matches_refl)
  then show ?thesis
    using conn_handle_request_hit [of "[]" L c pat f n "[]"] assms by simp
qed

lemma avro_sample_hit:
  assumes "split_law (lib_split L)" and "conn_url c = ''/rest/avro_sample''"
  shows "conn_handle_request L (avro_sample L C n) c
     = bindE (avro_handle_request L C http_wait_for_async_reply c) (\<lambda>c'. Inr (avro_sample L C (n + 1), c'))"
  using registered_hit [OF assms] by (simp add: avro_sample_def)

section \<open>Properties\<close>

text \<open>The TLS sample is registered on the same path; its handler differs in the helpers it calls only.\<close>

definition tls_sample :: "('os, 'p) libs \<Rightarrow> 'd codec \<Rightarrow> 64 word \<Rightarrow> ('os, 'p) conn_server" where
  "tls_sample L C n = [handler_data_new (lib_split L) ''/rest/avro_sample''
     (\<lambda>ps. tls_handle_request L C https_wait_for_async_reply) n]"

lemma raw_binary_json:
  "avro_raw_binary_encode = avro_json_encode" "avro_raw_binary_decode = avro_json_decode"
  by (simp_all add: fun_eq_iff avro_raw_binary_decode_def avro_json_decode_def
      avro_raw_binary_encode_def avro_json_encode_def)

lemma tls_handle_request_avro: "tls_handle_request = avro_handle_request"
  by (intro ext) (simp only: tls_handle_request_def avro_handle_request_def raw_binary_json
      tls_service_post_def avro_service_post_def cong: if_cong)

text \<open>A posted record without a delay, from the moment it reaches the server to its reply.\<close>

lemma echo_served:
  assumes "avro_law L" and "split_law (lib_split L)" and "codec_law C" and "log_peer E \<noteq> None"
    and "conn_url c = ''/rest/avro_sample''" and "r_method (c_request c) = Some (method_of_code 3)"
    and "(c_request c)\<lparr>r_id := [], r_uuid := 0\<rparr> = received L u uf fs n 3 bs"
    and "c_reply c = reply_reset L r" and "\<not> waiting_for_async_reply c"
    and "concat bs = co_bytes C (hello_request_encode v)" and "rq_delay v = 0"
    and h: "h = (\<lambda>m. [handler_data_new (lib_split L) ''/rest/avro_sample'' (\<lambda>ps. avro_handle_request L C wait) m])"
  obtains c' bufs hs body where
    "bindE (conn_handle_request L (h cnt) c) (\<lambda>(hs, c).
        if waiting_for_async_reply c then
          Inr (hs, issue [Timer_expires 3605, Timer_wait Handle_timer] c)
        else bindE (http_send_reply L E c) (\<lambda>c. Inr (hs, c))) = Inr (h (cnt + 1), c')"
    "io c' = io c @ [Async_write bufs]" "read_reply (concat bufs) = Some (status_text ok, hs, body)"
    "body = co_bytes C (hello_response_encode \<lparr>rs_message = rq_message v\<rparr>)"
proof -
  have post: "r_method (c_request c) = Some POST" using assms(6) by (simp add: method_of_code_POST)
  let ?body = "co_bytes C (hello_response_encode \<lparr>rs_message = rq_message v\<rparr>)"
  have "os_content L (r_rx (c_request c)) = co_bytes C (hello_request_encode v)"
    using received_body [OF assms(1,7)] assms(10) by simp
  from avro_handle_at_once [OF assms(1,3) post assms(11) this, of wait "[]"]
  have run: "avro_handle_request L C wait c = respond L (echo C v) [] c" .
  have "loggable E c" using post assms(4) by (simp add: loggable_def)
  moreover have "echo C v [] (c_request c) = (ok, default_content_type, ?body)" by (simp add: echo_def)
  ultimately obtain c3 c' bufs where c3: "respond L (echo C v) [] c = Inr c3"
    "waiting_for_async_reply c3 = waiting_for_async_reply c" "http_send_reply L E c3 = Inr c'"
    "io c' = io c @ [Async_write bufs]"
    "read_reply (concat bufs) = Some (status_text ok,
       content_headers default_content_type (length ?body) @ closing_headers (c_keep_alive c), ?body)"
    using respond_and_send [OF assms(1) _ assms(8), of E "echo C v" "[]" ok default_content_type ?body thesis]
    by (auto simp: default_content_type_def CR_def)
  have "conn_handle_request L (h cnt) c = Inr (h (cnt + 1), c3)"
    using registered_hit [OF assms(2,5), of "\<lambda>ps. avro_handle_request L C wait" cnt] run c3(1) by (simp add: h)
  with c3 assms(9) show ?thesis by (intro that [of c' bufs _ ?body]) simp_all
qed

text \<open>A response encoded by the server decodes to what it was.\<close>

lemma response_read:
  assumes "avro_law L" and "codec_law C" and "os_content L os = co_bytes C (hello_response_encode r)"
  shows "avro_json_decode L C hello_response_decode os w = Inr r"
proof -
  have "\<exists>d'. hello_response_decode C (co_open C (co_bytes C (hello_response_encode r))) w = Inr (d', r)"
    using assms(2) by (intro response_decoded) (simp_all add: codec_lawD)
  then show ?thesis
    using assms(1,3) by (auto simp: avro_json_decode_def input_stream_eq)
qed

text \<open>
  The Avro sample echoes: a client that posts a request record without a delay to
  \<^verbatim>\<open>/rest/avro_sample\<close> reads, in the reply written for it, status 200 and a body that
  decodes to the response record with the message it sent.
\<close>

theorem avro_sample_echoes:
  assumes "text_law L" and "avro_law L" and "split_law (lib_split L)" and "codec_law C"
    and "conn_ok L c" and "\<not> waiting_for_async_reply c" and "io c = []"
    and "acceptable L u uf fs" and "log_peer E1 \<noteq> None" and "log_peer E2 \<noteq> None"
    and "component u (uf_path uf) = ''/rest/avro_sample''"
    and "lib_execute L (c_parser c) buf = calls (request_events u fs n 3 bs k) (length buf, prs)"
    and "concat bs = co_bytes C (hello_request_encode v)" and "rq_delay v = 0"
  shows "\<exists>c' bufs hs body.
      http_handle_read L E1 E2 Success buf (avro_sample L C cnt, c) = Inr (avro_sample L C (cnt + 1), c')
      \<and> io c' = [Timer_cancel, Async_write bufs]
      \<and> read_reply (concat bufs) = Some (status_text ok, hs, body)
      \<and> body = co_bytes C (hello_response_encode \<lparr>rs_message = rq_message v\<rparr>)"
proof -
  obtain c2 where c2: "\<And>hs. http_handle_read L E1 E2 Success buf (hs, c) =
      bindE (conn_handle_request L hs c2) (\<lambda>(hs, c).
        if waiting_for_async_reply c then
          Inr (hs, issue [Timer_expires 3605, Timer_wait Handle_timer] c)
        else bindE (http_send_reply L E2 c) (\<lambda>c. Inr (hs, c)))"
    "(c_request c2)\<lparr>r_id := [], r_uuid := 0\<rparr> = received L u uf fs n 3 bs"
    "c_reply c2 = reply_reset L (c_reply c)" "\<not> waiting_for_async_reply c2" "io c2 = [Timer_cancel]"
    "conn_url c2 = component u (uf_path uf)" "r_method (c_request c2) = Some (method_of_code 3)"
    using request_reaches_server [OF assms(1,5-8) _ assms(9,12), of E2 thesis] by auto
  have url: "conn_url c2 = ''/rest/avro_sample''" using c2(6) assms(11) by simp
  note served = echo_served [OF assms(2,3,4,10) url c2(7,2,3,4) assms(13,14) refl, of http_wait_for_async_reply cnt]
  show ?thesis
    unfolding c2(1) avro_sample_def
    by (rule served, intro exI conjI) (assumption, simp_all add: c2(5))
qed

text \<open>The TLS sample echoes just so.\<close>

theorem tls_sample_echoes:
  assumes "text_law L" and "avro_law L" and "split_law (lib_split L)" and "codec_law C"
    and "conn_ok L c" and "\<not> waiting_for_async_reply c" and "io c = []"
    and "acceptable L u uf fs" and "log_peer E1 \<noteq> None" and "log_peer E2 \<noteq> None"
    and "component u (uf_path uf) = ''/rest/avro_sample''"
    and "lib_execute L (c_parser c) buf = calls (request_events u fs n 3 bs k) (length buf, prs)"
    and "concat bs = co_bytes C (hello_request_encode v)" and "rq_delay v = 0"
  shows "\<exists>c' bufs hs body.
      https_handle_read L E1 E2 Success buf (tls_sample L C cnt, c) = Inr (tls_sample L C (cnt + 1), c')
      \<and> io c' = [Async_write bufs]
      \<and> read_reply (concat bufs) = Some (status_text ok, hs, body)
      \<and> body = co_bytes C (hello_response_encode \<lparr>rs_message = rq_message v\<rparr>)"
proof -
  obtain c2 where c2: "\<And>hs. https_handle_read L E1 E2 Success buf (hs, c) =
      bindE (conn_handle_request L hs c2) (\<lambda>(hs, c).
        if waiting_for_async_reply c then
          Inr (hs, issue [Timer_expires 3605, Timer_wait Handle_timer] c)
        else bindE (http_send_reply L E2 c) (\<lambda>c. Inr (hs, c)))"
    "(c_request c2)\<lparr>r_id := [], r_uuid := 0\<rparr> = received L u uf fs n 3 bs"
    "c_reply c2 = reply_reset L (c_reply c)" "\<not> waiting_for_async_reply c2" "io c2 = []"
    "conn_url c2 = component u (uf_path uf)" "r_method (c_request c2) = Some (method_of_code 3)"
    using https_request_reaches_server [OF assms(1,5-8) _ assms(9,12), of E2 thesis] by auto
  have url: "conn_url c2 = ''/rest/avro_sample''" using c2(6) assms(11) by simp
  note served = echo_served [OF assms(2,3,4,10) url c2(7,2,3,4) assms(13,14) refl, of https_wait_for_async_reply cnt]
  show ?thesis
    unfolding c2(1) tls_sample_def tls_handle_request_avro
    by (rule served, intro exI conjI) (assumption, simp_all add: c2(5))
qed

text \<open>
  A request with a delay is answered by the TLS sample before its service has run: the wait
  that stands for the reply is aborted by the timer \<^verbatim>\<open>handle_read\<close> arms, and what goes out has
  no body, under the status of the reply before; on a new connection that status is memory
  nothing has written.
\<close>

theorem tls_sample_answers_early:
  assumes "text_law L" and "avro_law L" and "split_law (lib_split L)" and "codec_law C"
    and "conn_ok L c" and "\<not> waiting_for_async_reply c" and "io c = []"
    and "acceptable L u uf fs" and "log_peer E1 \<noteq> None" and "log_peer E2 \<noteq> None"
    and "component u (uf_path uf) = ''/rest/avro_sample''"
    and "lib_execute L (c_parser c) buf = calls (request_events u fs n 3 bs k) (length buf, prs)"
    and "concat bs = co_bytes C (hello_request_encode v)" and "rq_delay v \<noteq> 0"
  shows "\<exists>c1. https_handle_read L E1 E2 Success buf (tls_sample L C cnt, c) = Inr (tls_sample L C (cnt + 1), c1)
      \<and> waiting_for_async_reply c1 \<and> (Handle_async_call, True) \<in> set (waits (settle c c1 p))
      \<and> (case p_status (c_reply c) of
           None \<Rightarrow> https_handle_async_call L E2 Operation_aborted (c1\<lparr>io := []\<rparr>) = Inl Uninitialised
         | Some s \<Rightarrow> \<exists>c2 bufs. https_handle_async_call L E2 Operation_aborted (c1\<lparr>io := []\<rparr>) = Inr c2
                     \<and> io c2 = [Async_write bufs] \<and> \<not> waiting_for_async_reply c2
                     \<and> read_reply (concat bufs) = Some (status_text s, closing_headers (k \<noteq> 0), []))"
proof -
  have deferred: "tls_handle_request L C https_wait_for_async_reply d = Inr (https_wait_for_async_reply d)"
    if "(c_request d)\<lparr>r_id := [], r_uuid := 0\<rparr> = received L u uf fs n 3 bs"
      "r_method (c_request d) = Some (method_of_code 3)" for d :: "('a, 'b) async_conn"
    unfolding tls_handle_request_avro
    by (rule avro_handle_later [OF assms(2,4) _ assms(14)])
      (use that assms(13) received_body [OF assms(2) that(1)] in \<open>simp_all add: method_of_code_POST\<close>)
  have match: "uri_matches (lib_split L ''/rest/avro_sample'') (lib_split L (component u (uf_path uf)))"
    by (simp add: assms(11) uri_matches_refl)
  have "(3::nat) < 26" by simp
  from https_deferred_aborted [OF assms(1-3,5-8) this assms(9,10,12) match deferred, of cnt p]
  show ?thesis unfolding tls_sample_def by auto
qed

text \<open>A post of a request in the encoding of the reference codec, for the witnesses.\<close>

definition post_libs :: "string \<Rightarrow> (string, script) libs" where
  "post_libs body = ref_libs [(request_events ''/rest/avro_sample'' [] 0 3 [body] 1, 2)]"

lemma post_libs_simps [simp]:
  "text_law (post_libs body)" "avro_law (post_libs body)" "split_law (lib_split (post_libs body))"
  "os_content (post_libs body) os = os"
  by (simp_all add: post_libs_def split_law_split_slash)

lemma post_libs_run:
  "acceptable (post_libs body) ''/rest/avro_sample'' \<lparr>uf_path = Some (0, 17), uf_query = None\<rparr> []"
  "component ''/rest/avro_sample'' (uf_path \<lparr>uf_path = Some (0, 17), uf_query = None\<rparr>) = ''/rest/avro_sample''"
  "lib_execute (post_libs body) (c_parser (fresh_conn (post_libs body))) ''..''
     = calls (request_events ''/rest/avro_sample'' [] 0 3 [body] 1) (length ''..'', [])"
  by (simp_all add: acceptable_def post_libs_def in_range_def component_def numeral_2_eq_2)

lemma peer_env_peer: "log_peer peer_env \<noteq> None"
  by (simp add: peer_env_def)

lemma sample_request_bytes:
  "co_bytes ref_codec (hello_request_encode \<lparr>rq_message = ''hi'', rq_delay = 0\<rparr>) = ''s2:hin0:''"
  "co_bytes ref_codec (hello_request_encode \<lparr>rq_message = ''hi'', rq_delay = 5\<rparr>) = ''s2:hin5:''"
  by (simp_all add: ref_codec_def hello_request_encode_def show_nat.simps digit_def)

theorem avro_sample_echoes_witness:
  "let L = post_libs ''s2:hin0:'' in
   \<exists>c' bufs hs body.
      http_handle_read L peer_env peer_env Success ''..'' (avro_sample L ref_codec 0, fresh_conn L)
        = Inr (avro_sample L ref_codec 1, c')
      \<and> io c' = [Timer_cancel, Async_write bufs]
      \<and> read_reply (concat bufs) = Some (status_text ok, hs, body)
      \<and> body = co_bytes ref_codec (hello_response_encode \<lparr>rs_message = ''hi''\<rparr>)"
  unfolding Let_def
  using avro_sample_echoes [OF post_libs_simps(1-3) codec_law_ref conn_ok_fresh _ _ post_libs_run(1)
      peer_env_peer peer_env_peer post_libs_run(2,3), of "''s2:hin0:''" "\<lparr>rq_message = ''hi'', rq_delay = 0\<rparr>" 0]
  by (simp add: sample_request_bytes)

text \<open>
  C21. A request with a delay is answered by the service's timer: until it fires nothing is
  written, then its handler puts the greeting into the reply and the connection writes it.
\<close>

theorem avro_sample_answers_later:
  assumes "text_law L" and "avro_law L" and "split_law (lib_split L)" and "codec_law C"
    and "conn_ok L c" and "\<not> waiting_for_async_reply c" and "io c = []"
    and "acceptable L u uf fs" and "log_peer E1 \<noteq> None" and "log_peer E2 \<noteq> None"
    and "component u (uf_path uf) = ''/rest/avro_sample''"
    and "lib_execute L (c_parser c) buf = calls (request_events u fs n 3 bs k) (length buf, prs)"
    and "concat bs = co_bytes C (hello_request_encode v)" and "rq_delay v \<noteq> 0"
  shows "\<exists>c1 c2 c3 bufs hs body.
      http_handle_read L E1 E2 Success buf (avro_sample L C cnt, c) = Inr (avro_sample L C (cnt + 1), c1)
      \<and> waiting_for_async_reply c1 \<and> transfers (io c1) = 0
      \<and> avro_service_handle_post L C (http_notify_async_reply_done L E1) (c1\<lparr>io := []\<rparr>) = Inr c2
      \<and> io c2 = [Post_reply_done]
      \<and> http_handle_async_reply_done L E2 (c2\<lparr>io := []\<rparr>) = Inr c3
      \<and> io c3 = [Timer_cancel, Async_write bufs]
      \<and> read_reply (concat bufs) = Some (status_text ok, hs, body)
      \<and> avro_json_decode L C hello_response_decode (lib_os_write L (lib_os_new L) body) w
          = Inr \<lparr>rs_message = ''hello to you!''\<rparr>"
proof -
  obtain c0 where c0: "\<And>hs. http_handle_read L E1 E2 Success buf (hs, c) =
      bindE (conn_handle_request L hs c0) (\<lambda>(hs, c).
        if waiting_for_async_reply c then
          Inr (hs, issue [Timer_expires 3605, Timer_wait Handle_timer] c)
        else bindE (http_send_reply L E2 c) (\<lambda>c. Inr (hs, c)))"
    "(c_request c0)\<lparr>r_id := [], r_uuid := 0\<rparr> = received L u uf fs n 3 bs"
    "c_reply c0 = reply_reset L (c_reply c)" "io c0 = [Timer_cancel]"
    "conn_url c0 = component u (uf_path uf)" "r_method (c_request c0) = Some (method_of_code 3)"
    using request_reaches_server [OF assms(1,5-8) _ assms(9,12), of E2 thesis] by auto
  have post: "r_method (c_request c0) = Some POST" using c0(6) by (simp add: method_of_code_POST)
  have "os_content L (r_rx (c_request c0)) = co_bytes C (hello_request_encode v)"
    using received_body [OF assms(2) c0(2)] assms(13) by simp
  note later = avro_handle_later [OF assms(2,4) post assms(14) this, of http_wait_for_async_reply]
  define c1 where "c1 = issue [Timer_expires 3605, Timer_wait Handle_timer] (http_wait_for_async_reply c0)"
  have c1: "http_handle_read L E1 E2 Success buf (avro_sample L C cnt, c) = Inr (avro_sample L C (cnt + 1), c1)"
    "waiting_for_async_reply c1" "transfers (io c1) = 0" "r_method (c_request c1) = Some POST"
    "c_reply c1 = reply_reset L (c_reply c)"
    using c0(3-5) later assms(11) post
    by (simp_all add: c0(1) avro_sample_hit [OF assms(3)] c1_def http_wait_for_async_reply_def Let_def)
  let ?v = "\<lparr>rs_message = ''hello to you!''\<rparr>" and ?c = "c1\<lparr>io := []\<rparr>"
  let ?body = "co_bytes C (hello_response_encode ?v)"
  obtain c2 where c2: "respond L (\<lambda>ps r. (ok, default_content_type, ?body)) [] ?c = Inr c2"
    "p_avro_tx (c_reply c2) \<noteq> None" "os_content L (the (p_avro_tx (c_reply c2))) = ?body"
    "p_status (c_reply c2) = Some ok" "p_headers (c_reply c2) = content_headers default_content_type (length ?body)"
    "c_request c2 = c_request c1" "io c2 = []"
    using respond_eq [OF assms(2), of ?c "c_reply c" "\<lambda>ps r. (ok, default_content_type, ?body)" "[]" ok
        default_content_type ?body thesis] c1(5) by auto
  then have svc: "avro_service_handle_post L C (http_notify_async_reply_done L E1) ?c
      = Inr (http_notify_async_reply_done L E1 c2)"
    using encode_and_create [of "avro_json_encode L C hello_response_encode" ?v L ?body ?c ok "[]"]
    by (simp add: avro_service_handle_post_def hello_response_new_def avro_json_encode_def bindE_assoc [symmetric]) blast
  let ?d = "issue [Timer_cancel] ((http_notify_async_reply_done L E1 c2)\<lparr>io := []\<rparr>)"
  have d: "io (http_notify_async_reply_done L E1 c2) = [Post_reply_done]" "c_reply ?d = c_reply c2"
    "r_method (c_request ?d) = Some POST" "io ?d = [Timer_cancel]"
    using c2(6,7) c1(4) by (simp_all add: http_notify_async_reply_done_def Let_def)
  have "loggable E2 ?d" using d(3) assms(10) by (simp add: loggable_def)
  moreover obtain os where "p_avro_tx (c_reply ?d) = Some os" "os_content L os = ?body" using c2(2,3) d(2) by auto
  moreover have "\<forall>h \<in> set (p_headers (c_reply ?d)). wf_header h"
    using wf_content_headers [of default_content_type] c2(5) d(2) by (simp add: default_content_type_def CR_def)
  ultimately obtain c3 bufs where c3: "http_send_reply L E2 ?d = Inr c3" "io c3 = io ?d @ [Async_write bufs]"
    "read_reply (concat bufs) = Some (status_text ok, p_headers (c_reply ?d) @ closing_headers (c_keep_alive ?d), ?body)"
    using http_send_reply_wire [OF assms(2), of E2 ?d os ok thesis] c2(4) d(2) by auto
  have "avro_json_decode L C hello_response_decode (lib_os_write L (lib_os_new L) ?body) w = Inr ?v"
    using assms(2,4) by (intro response_read) (simp_all add: avro_lawD)
  then show ?thesis
    using c1(1-3) svc d(1,4) c3 by (auto simp: http_handle_async_reply_done_def)
qed

theorem avro_sample_answers_later_witness:
  "let L = post_libs ''s2:hin5:'' in
   \<exists>c1 c2 c3 bufs hs body.
      http_handle_read L peer_env peer_env Success ''..'' (avro_sample L ref_codec 0, fresh_conn L)
        = Inr (avro_sample L ref_codec 1, c1)
      \<and> waiting_for_async_reply c1
      \<and> avro_service_handle_post L ref_codec (http_notify_async_reply_done L peer_env) (c1\<lparr>io := []\<rparr>) = Inr c2
      \<and> http_handle_async_reply_done L peer_env (c2\<lparr>io := []\<rparr>) = Inr c3
      \<and> io c3 = [Timer_cancel, Async_write bufs]
      \<and> read_reply (concat bufs) = Some (status_text ok, hs, body)
      \<and> avro_json_decode L ref_codec hello_response_decode (lib_os_write L (lib_os_new L) body) hello_response_new
          = Inr \<lparr>rs_message = ''hello to you!''\<rparr>"
  unfolding Let_def
  using avro_sample_answers_later [OF post_libs_simps(1-3) codec_law_ref conn_ok_fresh _ _ post_libs_run(1)
      peer_env_peer peer_env_peer post_libs_run(2,3), of "''s2:hin5:''" "\<lparr>rq_message = ''hi'', rq_delay = 5\<rparr>" 0
      hello_response_new]
  by (simp add: sample_request_bytes) blast

text \<open>
  A body the decoder rejects takes the sample server down: the exception of Avro is
  caught nowhere between the decoder and \<^verbatim>\<open>main\<close>, where it ends the program. So one \<^verbatim>\<open>POST\<close>
  with an empty body does.
\<close>

theorem avro_sample_malformed_body:
  assumes "text_law L" and "avro_law L" and "split_law (lib_split L)" and "codec_law C"
    and "conn_ok L c" and "\<not> waiting_for_async_reply c" and "io c = []"
    and "acceptable L u uf fs" and "log_peer E1 \<noteq> None"
    and "component u (uf_path uf) = ''/rest/avro_sample''"
    and "lib_execute L (c_parser c) buf = calls (request_events u fs n 3 bs k) (length buf, prs)"
    and "co_string C (co_open C (concat bs)) = None"
  shows "http_handle_read L E1 E2 Success buf (avro_sample L C cnt, c) = Inl (Exception ''avro'')"
proof -
  obtain c2 where c2: "\<And>hs. http_handle_read L E1 E2 Success buf (hs, c) =
      bindE (conn_handle_request L hs c2) (\<lambda>(hs, c).
        if waiting_for_async_reply c then
          Inr (hs, issue [Timer_expires 3605, Timer_wait Handle_timer] c)
        else bindE (http_send_reply L E2 c) (\<lambda>c. Inr (hs, c)))"
    "(c_request c2)\<lparr>r_id := [], r_uuid := 0\<rparr> = received L u uf fs n 3 bs"
    "conn_url c2 = component u (uf_path uf)" "r_method (c_request c2) = Some (method_of_code 3)"
    using request_reaches_server [OF assms(1,5-8) _ assms(9,11), of E2 thesis] by auto
  have post: "r_method (c_request c2) = Some POST" using c2(4) by (simp add: method_of_code_POST)
  have "avro_handle_request L C http_wait_for_async_reply c2 = Inl (Exception ''avro'')"
    using assms(12) received_body [OF assms(2) c2(2)] by (intro avro_handle_malformed [OF assms(2,4) post]) simp
  then show ?thesis using c2(3) assms(10) by (simp add: c2(1) avro_sample_hit [OF assms(3)])
qed

theorem avro_sample_malformed_body_witness:
  "let L = post_libs [] in
   http_handle_read L peer_env peer_env Success ''..'' (avro_sample L ref_codec 0, fresh_conn L)
     = Inl (Exception ''avro'')"
  unfolding Let_def
  by (rule avro_sample_malformed_body [OF post_libs_simps(1-3) codec_law_ref conn_ok_fresh _ _ post_libs_run(1)
      peer_env_peer post_libs_run(2,3)]) (simp_all add: ref_codec_def ref_string_def)

text \<open>
  The json_spirit sample defers exactly the posts whose body decodes, whatever the delay,
  and answers 400 at once to everything else, a malformed body included; its deferred answer
  is an empty 200.
\<close>

theorem spirit_sample_answers:
  assumes "avro_law L" and "r_method (c_request c) = Some m" and "c_reply c = reply_reset L r0"
  shows "spirit_handle_request L J wait c =
      Inr (if m = POST \<and> (\<exists>ob sd. js_get_obj J (js_read J (os_content L (r_rx (c_request c)))) = Some ob
              \<and> json_decode J ob sample_data_req1_new = (True, sd))
           then wait c
           else c\<lparr>c_reply := (c_reply c)\<lparr>p_status := Some bad_request,
                    p_headers := [\<lparr>name = ''Content-Length'', val = ''0''\<rparr>]\<rparr>\<rparr>)
    \<and> spirit_service_handle_post L notify c
        = Inr (notify (c\<lparr>c_reply := (c_reply c)\<lparr>p_status := Some ok,
                    p_headers := [\<lparr>name = ''Content-Length'', val = ''0''\<rparr>]\<rparr>\<rparr>))"
proof -
  let ?v = "js_get_obj J (js_read J (os_content L (r_rx (c_request c))))"
  have create: "conn_create L s c = Inr (c\<lparr>c_reply := (c_reply c)\<lparr>p_status := Some s,
      p_headers := [\<lparr>name = ''Content-Length'', val = ''0''\<rparr>]\<rparr>\<rparr>)" for s
    using conn_create_empty [OF assms(1), of c "lib_os_new L" s] assms(1,3)
    by (simp add: reply_reset_def avro_lawD)
  have "spirit_handle_request L J wait c = Inr (if m = POST
      \<and> fst (case ?v of None \<Rightarrow> (False, sample_data_req1_new) | Some ob \<Rightarrow> json_decode J ob sample_data_req1_new)
      then wait c else c\<lparr>c_reply := (c_reply c)\<lparr>p_status := Some bad_request,
          p_headers := [\<lparr>name = ''Content-Length'', val = ''0''\<rparr>]\<rparr>\<rparr>)"
    by (simp add: spirit_handle_request_def assms(2) json_spirit_decode_eq [OF assms(1)] create
        spirit_service_post_def split: prod.split)
  moreover have "fst (case ?v of None \<Rightarrow> (False, sample_data_req1_new) | Some ob \<Rightarrow> json_decode J ob sample_data_req1_new)
      \<longleftrightarrow> (\<exists>ob sd. ?v = Some ob \<and> json_decode J ob sample_data_req1_new = (True, sd))"
    by (cases ?v) (auto simp: prod_eq_iff)
  ultimately show ?thesis by (simp add: spirit_service_handle_post_def create)
qed

theorem spirit_sample_answers_witness:
  "spirit_handle_request (ref_libs []) ref_json http_wait_for_async_reply
     ((fresh_conn (ref_libs []))\<lparr>c_request := (request_new (ref_libs []))\<lparr>r_method := Some GET\<rparr>,
        c_reply := reply_reset (ref_libs []) reply_new\<rparr>)
   = Inr ((fresh_conn (ref_libs []))\<lparr>c_request := (request_new (ref_libs []))\<lparr>r_method := Some GET\<rparr>,
        c_reply := (reply_reset (ref_libs []) reply_new)\<lparr>p_status := Some bad_request,
                    p_headers := [\<lparr>name = ''Content-Length'', val = ''0''\<rparr>]\<rparr>\<rparr>)"
  using spirit_sample_answers [of "ref_libs []"
      "(fresh_conn (ref_libs []))\<lparr>c_request := (request_new (ref_libs []))\<lparr>r_method := Some GET\<rparr>,
        c_reply := reply_reset (ref_libs []) reply_new\<rparr>" GET reply_new ref_json http_wait_for_async_reply id]
  by simp

end
