(* ===== verification/Sample_Clients.thy ===== *)
theory Sample_Clients
  imports Samples Http_Client
begin

text \<open>
  The sample clients (\<^verbatim>\<open>samples/*_client_*\<close>, \<^verbatim>\<open>samples/hello_google_sample\<close>): the requests they
  make, what they report of each result, and their loops. With the sample servers of theory
  \<open>Samples\<close> they close the circle: a record encoded by a client goes through the callbacks of
  libcurl, the parser, the connection, the handler and the write back into the client that
  decodes the answer. What is logged is a value here, without the time a call took.
\<close>

section \<open>What is reported\<close>

datatype client_report =
    Greeted string nat                     \<comment> \<open>message and length of the body\<close>
  | Undecodable string "string option"     \<comment> \<open>the exception, and the body where it is printed\<close>
  | Outcome string bool int                \<comment> \<open>address, transport result, status\<close>
  | Got string nat                         \<comment> \<open>address and length of the body\<close>
  | Httpres string int                     \<comment> \<open>address and status\<close>
  | Transport_failed
  | Posted string int "64 word"            \<comment> \<open>address, status and the delay asked for\<close>

text \<open>\<^verbatim>\<open>try\<close> and \<^verbatim>\<open>catch (std::exception& e)\<close>: any other fault is none of its business.\<close>

definition catch_exception :: "'a res \<Rightarrow> (string \<Rightarrow> 'a res) \<Rightarrow> 'a res" where
  "catch_exception m f = (case m of Inl (Exception what) \<Rightarrow> f what | _ \<Rightarrow> m)"

definition greeted :: "('os, 'p) libs \<Rightarrow> 'os call_context \<Rightarrow> hello_response \<Rightarrow> client_report" where
  "greeted L x response = Greeted (rs_message response) (rx_content_length L x)"

definition outcome :: "'os call_context \<Rightarrow> client_report res" where
  "outcome x = bindE (transport_result x) (\<lambda>t. Inr (Outcome (x_uri x) t (x_http_result x)))"

text \<open>The three Avro clients that block on \<^verbatim>\<open>perform\<close>.\<close>

definition avro_client_result ::
  "('os, 'p) libs \<Rightarrow> 'd codec \<Rightarrow> 'os call_context \<Rightarrow> client_report res" where
  "avro_client_result L C x =
     bindE (call_ok x) (\<lambda>success.
       if success then
         catch_exception
           (bindE (avro_json_decode L C hello_response_decode (x_rx_buffer x) hello_response_new) (\<lambda>response.
              Inr (greeted L x response)))
           (\<lambda>what. bindE (debug_to_string L (x_rx_buffer x)) (\<lambda>content. Inr (Undecodable what (Some content))))
       else outcome x)"

definition load_client_result ::
  "('os, 'p) libs \<Rightarrow> 'd codec \<Rightarrow> 'os call_context \<Rightarrow> client_report res" where
  "load_client_result L C x =
     bindE (call_ok x) (\<lambda>success.
       if success then
         catch_exception
           (bindE (avro_json_decode L C hello_response_decode (x_rx_buffer x) hello_response_new) (\<lambda>response.
              Inr (greeted L x response)))
           (\<lambda>what. Inr (Undecodable what None))
       else outcome x)"

definition tls_client_result ::
  "('os, 'p) libs \<Rightarrow> 'd codec \<Rightarrow> 'os call_context \<Rightarrow> client_report res" where
  "tls_client_result L C x =
     bindE (call_ok x) (\<lambda>success.
       if success then
         catch_exception
           (bindE (avro_raw_binary_decode L C hello_response_decode (x_rx_buffer x) hello_response_new) (\<lambda>response.
              Inr (greeted L x response)))
           (\<lambda>what. Inr (Undecodable what None))
       else outcome x)"

text \<open>The completion callback of the asynchronous Avro client logs the outcome first, then decodes.\<close>

definition avro_async_result ::
  "('os, 'p) libs \<Rightarrow> 'd codec \<Rightarrow> 'os call_context \<Rightarrow> client_report list res" where
  "avro_async_result L C x =
     bindE (outcome x) (\<lambda>o1.
       bindE (call_ok x) (\<lambda>success.
         if \<not> success then Inr [o1]
         else catch_exception
           (bindE (avro_json_decode L C hello_response_decode (x_rx_buffer x) hello_response_new) (\<lambda>response. Inr [o1]))
           (\<lambda>what. Inr [o1, Undecodable what None])))"

definition hello_google_result :: "('os, 'p) libs \<Rightarrow> 'os call_context \<Rightarrow> client_report res" where
  "hello_google_result L x =
     bindE (call_ok x) (\<lambda>success.
       if success then Inr (Got (x_uri x) (rx_content_length L x))
       else bindE (transport_result x) (\<lambda>t.
         if \<not> t then Inr Transport_failed else Inr (Httpres (x_uri x) (x_http_result x))))"

text \<open>\<^verbatim>\<open>handle_get\<close>, which three samples define and none calls, and its twin in the json_spirit client.\<close>

definition handle_get :: "('os, 'p) libs \<Rightarrow> 'os call_context \<Rightarrow> client_report" where
  "handle_get L x =
     (if x_http_result x \<ge> 200 \<and> x_http_result x < 300 then Got (x_uri x) (rx_content_length L x)
      else Httpres (x_uri x) (x_http_result x))"

definition spirit_on_complete :: "('os, 'p) libs \<Rightarrow> 'os call_context \<Rightarrow> client_report" where
  "spirit_on_complete L x =
     (if x_http_result x \<ge> 200 \<and> x_http_result x < 300 then Got (x_uri x) (rx_content_length L x)
      else Httpres (x_uri x) (x_http_result x))"

text \<open>
  The callback of its \<^verbatim>\<open>POST\<close> holds a reference to \<open>payload\<close>, a variable of the body of the
  loop that made the request: \<open>None\<close> once that body has been left.
\<close>

definition spirit_async_result :: "sample_data_req1 option \<Rightarrow> 'os call_context \<Rightarrow> client_report res" where
  "spirit_async_result payload x =
     (case payload of
        None \<Rightarrow> Inl Dangling_pointer
      | Some pd \<Rightarrow> Inr (Posted (x_uri x) (x_http_result x) (delay pd)))"

section \<open>The requests\<close>

definition greeting :: hello_request where
  "greeting = hello_request_new\<lparr>rq_message := ''greeting to you!'', rq_delay := 0\<rparr>"

definition avro_client_call :: "('os, 'p) libs \<Rightarrow> 'd codec \<Rightarrow> 'os call_context" where
  "avro_client_call L C = create_avro_json_rest L C hello_request_encode POST
     ''127.0.0.1:8090/rest/avro_sample'' greeting [''Content-Type:avro/json'', ''Accept:avro/json''] 1000"

definition load_client_call :: "('os, 'p) libs \<Rightarrow> 'd codec \<Rightarrow> 'os call_context" where
  "load_client_call L C = create_avro_binary_rest L C hello_request_encode
     ''127.0.0.1:8090/rest/avro_sample'' greeting [''Content-Type:avro/json'', ''Accept:avro/json''] 1000"

definition tls_client_call :: "('os, 'p) libs \<Rightarrow> 'd codec \<Rightarrow> 'os call_context" where
  "tls_client_call L C = create_avro_binary_rest L C hello_request_encode
     ''https://127.0.0.1:8090/rest/avro_sample'' greeting [''Content-Type:avro/binary'', ''Accept:avro/binary''] 1000"

definition avro_async_call :: "('os, 'p) libs \<Rightarrow> 'd codec \<Rightarrow> 'os call_context" where
  "avro_async_call L C = create_avro_json_rest L C hello_request_encode POST
     ''127.0.0.1:8090/rest/avro_sample'' (hello_request_new\<lparr>rq_delay := 0, rq_message := ''nisse was here''\<rparr>)
     [''Content-Type:avro/json'', ''Accept:avro/json''] 1000"

definition hello_google_call :: "('os, 'p) libs \<Rightarrow> 'os call_context" where
  "hello_google_call L = create_http_request L GET ''google.com'' [] 1000"

definition spirit_get_call :: "('os, 'p) libs \<Rightarrow> 'os call_context" where
  "spirit_get_call L = create_http_request L GET ''www.dn.se'' [''Accept:*/*''] 1000"

definition spirit_payload :: sample_data_req1 where
  "spirit_payload = sample_data_req1_new\<lparr>email := ''aaaaa@domain.com'', phone := ''89347856438756'', delay := 1\<rparr>"

section \<open>The loops\<close>

text \<open>
  \<open>perform\<close> is the client's \<^verbatim>\<open>perform\<close> run to its return (\<open>perform_begin\<close> until
  \<open>perform_returned\<close> of theory \<open>Http_Client\<close>): the context and \<^verbatim>\<open>verbose\<close>, then the same context
  when the call is over, and whatever state of client and world it depends on.
\<close>

fun rounds :: "nat \<Rightarrow> ('s \<Rightarrow> ('r \<times> 's) res) \<Rightarrow> 's \<Rightarrow> ('r list \<times> 's) res" where
  "rounds 0 body s = Inr ([], s)"
| "rounds (Suc n) body s =
     bindE (body s) (\<lambda>(r, s). bindE (rounds n body s) (\<lambda>(rs, s). Inr (r # rs, s)))"

definition one_call ::
  "('os call_context \<Rightarrow> bool \<Rightarrow> 's \<Rightarrow> ('os call_context \<times> 's) res) \<Rightarrow> 'os call_context \<Rightarrow> bool
     \<Rightarrow> ('os call_context \<Rightarrow> client_report res) \<Rightarrow> 's \<Rightarrow> (client_report \<times> 's) res" where
  "one_call perform call verbose result s =
     bindE (perform call verbose s) (\<lambda>(x, s). bindE (result x) (\<lambda>r. Inr (r, s)))"

definition avro_client_main ::
  "('os, 'p) libs \<Rightarrow> 'd codec \<Rightarrow> ('os call_context \<Rightarrow> bool \<Rightarrow> 's \<Rightarrow> ('os call_context \<times> 's) res)
     \<Rightarrow> 's \<Rightarrow> (client_report list \<times> 's) res" where
  "avro_client_main L C perform s =
     rounds 1000 (one_call perform (avro_client_call L C) False (avro_client_result L C)) s"

definition tls_client_main ::
  "('os, 'p) libs \<Rightarrow> 'd codec \<Rightarrow> ('os call_context \<Rightarrow> bool \<Rightarrow> 's \<Rightarrow> ('os call_context \<times> 's) res)
     \<Rightarrow> 's \<Rightarrow> (client_report list \<times> 's) res" where
  "tls_client_main L C perform s =
     rounds 1000 (one_call perform (tls_client_call L C) False (tls_client_result L C)) s"

text \<open>The first \<open>n\<close> rounds of \<^verbatim>\<open>make_calls\<close>, which goes on for ever; \<open>B\<close> is the binary codec, \<open>C\<close> the JSON one.\<close>

definition make_calls ::
  "('os, 'p) libs \<Rightarrow> 'b codec \<Rightarrow> 'd codec \<Rightarrow> ('os call_context \<Rightarrow> bool \<Rightarrow> 's \<Rightarrow> ('os call_context \<times> 's) res)
     \<Rightarrow> nat \<Rightarrow> 's \<Rightarrow> (client_report list \<times> 's) res" where
  "make_calls L B C perform n s =
     rounds n (one_call perform (load_client_call L B) False (load_client_result L C)) s"

definition hello_google_main ::
  "('os, 'p) libs \<Rightarrow> ('os call_context \<Rightarrow> bool \<Rightarrow> 's \<Rightarrow> ('os call_context \<times> 's) res)
     \<Rightarrow> 's \<Rightarrow> (client_report \<times> 's) res" where
  "hello_google_main L perform s =
     one_call perform (hello_google_call L) True (hello_google_result L) s"

text \<open>
  The asynchronous clients: \<open>cid\<close> numbers the context \<^verbatim>\<open>new\<close> has given them. One round of the
  Avro client makes a hundred calls.
\<close>

definition start_call :: "'os call_context \<Rightarrow> nat \<Rightarrow> 'os http_client \<Rightarrow> 'os http_client" where
  "start_call x cid s = perform_async cid (update_context cid (\<lambda>_. x) s)"

definition avro_async_round ::
  "('os, 'p) libs \<Rightarrow> 'd codec \<Rightarrow> nat \<Rightarrow> 'os http_client \<Rightarrow> 'os http_client" where
  "avro_async_round L C first s = fold (start_call (avro_async_call L C)) [first..<first + 100] s"

definition spirit_client_main ::
  "('os, 'p) libs \<Rightarrow> 'v json \<Rightarrow> nat \<Rightarrow> nat \<Rightarrow> 'os http_client \<Rightarrow> 'os http_client" where
  "spirit_client_main L J get_cid post_cid s =
     (let s = start_call (spirit_get_call L) get_cid s
      in start_call (create_json_spirit_request L J (json_encode J) POST ''127.0.0.1:8090/rest/sample''
           spirit_payload [''Content-Type:application/json'', ''Accept:application/json''] 1000) post_cid s)"

section \<open>Results and loops\<close>

lemma catch_exception_simps [simp]:
  "catch_exception (Inr v) f = Inr v" "catch_exception (Inl (Exception what)) f = f what"
  by (simp_all add: catch_exception_def)

text \<open>Decoding a response either gives one or throws what Avro throws.\<close>

lemma hello_response_decode_total:
  "(\<exists>d' v. hello_response_decode C d w = Inr (d', v)) \<or> hello_response_decode C d w = Inl (Exception ''avro'')"
proof -
  have one: "(\<exists>y. decode_reply_message C x = Inr y) \<or> decode_reply_message C x = Inl (Exception ''avro'')" for x
    by (cases x; cases "co_string C (fst x)") (auto simp: decode_reply_message_def decode_string_def)
  have "(\<exists>y. response_fields C fo x = Inr y) \<or> response_fields C fo x = Inl (Exception ''avro'')" for fo x
  proof (induction fo arbitrary: x)
    case (Cons i fo)
    from one [of x] show ?case
    proof (cases "decode_reply_message C x")
      case (Inr y)
      with Cons.IH [of y] Cons.IH [of x] show ?thesis by (cases "i = 0") auto
    qed (use one [of x] Cons.IH [of x] in \<open>cases "i = 0"; auto\<close>)
  qed simp
  with one show ?thesis by (auto simp: hello_response_decode_def split: option.splits)
qed

lemma hello_response_json_total:
  assumes "avro_law L"
  shows "(\<exists>v. avro_json_decode L C hello_response_decode os w = Inr v)
    \<or> avro_json_decode L C hello_response_decode os w = Inl (Exception ''avro'')"
  using hello_response_decode_total [of C "co_open C (os_content L os)" w] assms
  by (auto simp: avro_json_decode_def input_stream_eq)

text \<open>
  A completed call is always reported: as a greeting with the message decoded, as a body
  that cannot be decoded, with that body, or with its outcome when it was no success.
\<close>

theorem avro_client_reports:
  assumes "avro_law L" and "x_transport_ok x = Some t"
  shows "avro_client_result L C x = Inr
    (if t \<and> x_http_result x \<in> {200..<300}
     then (case avro_json_decode L C hello_response_decode (x_rx_buffer x) hello_response_new of
             Inr response \<Rightarrow> Greeted (rs_message response) (length (os_content L (x_rx_buffer x)))
           | Inl _ \<Rightarrow> Undecodable ''avro'' (Some (os_content L (x_rx_buffer x))))
     else Outcome (x_uri x) t (x_http_result x))"
  using hello_response_json_total [OF assms(1), of C "x_rx_buffer x" hello_response_new] assms
  by (auto simp: avro_client_result_def call_ok_def transport_result_def initialised_def outcome_def
      greeted_def rx_content_length_def avro_lawD debug_to_string_content)

theorem avro_client_reports_witness:
  "avro_client_result (ref_libs []) ref_codec
     ((avro_client_call (ref_libs []) ref_codec)\<lparr>x_transport_ok := Some False\<rparr>)
   = Inr (Outcome ''127.0.0.1:8090/rest/avro_sample'' False 0)"
  using avro_client_reports [of "ref_libs []" "(avro_client_call (ref_libs []) ref_codec)\<lparr>x_transport_ok := Some False\<rparr>"
      False ref_codec]
  by (simp add: avro_client_call_def create_avro_json_rest_def call_context_new_def)

lemma rounds_total:
  assumes "\<And>s. P s \<Longrightarrow> \<exists>r s'. body s = Inr (r, s') \<and> Q r \<and> P s'" and "P s"
  shows "\<exists>rs s'. rounds n body s = Inr (rs, s') \<and> length rs = n \<and> (\<forall>r \<in> set rs. Q r) \<and> P s'"
  using assms(2)
proof (induction n arbitrary: s)
  case (Suc n)
  from assms(1) [OF Suc.prems] obtain r s1 where "body s = Inr (r, s1)" "Q r" "P s1" by blast
  with Suc.IH [of s1] show ?case by fastforce
qed simp

text \<open>
  A client whose \<^verbatim>\<open>perform\<close> always comes back, with the call completed, reports a thousand
  times; the load client, as many times as it has gone round.
\<close>

theorem avro_clients_report_every_call:
  assumes "avro_law L"
    and "\<And>x v s. P s \<Longrightarrow> \<exists>y s'. perform x v s = Inr (y, s') \<and> x_transport_ok y \<noteq> None \<and> P s'" and "P s"
  shows "\<exists>rs s'. avro_client_main L C perform s = Inr (rs, s') \<and> length rs = 1000
      \<and> (\<forall>r \<in> set rs. \<exists>y. x_transport_ok y \<noteq> None \<and> avro_client_result L C y = Inr r)"
proof -
  have "\<exists>r s'. one_call perform (avro_client_call L C) False (avro_client_result L C) s = Inr (r, s')
      \<and> (\<exists>y. x_transport_ok y \<noteq> None \<and> avro_client_result L C y = Inr r) \<and> P s'" if "P s" for s
  proof -
    from assms(2) [OF that] obtain y s' where y: "perform (avro_client_call L C) False s = Inr (y, s')"
      "x_transport_ok y \<noteq> None" "P s'" by blast
    then obtain t where "x_transport_ok y = Some t" by blast
    with avro_client_reports [OF assms(1) this, of C] y show ?thesis by (auto simp: one_call_def)
  qed
  from rounds_total [of P "one_call perform (avro_client_call L C) False (avro_client_result L C)"
      "\<lambda>r. \<exists>y. x_transport_ok y \<noteq> None \<and> avro_client_result L C y = Inr r", OF this assms(3), of 1000]
  show ?thesis by (auto simp: avro_client_main_def)
qed

text \<open>A hundred calls per round, each posted once, in order; nothing else of the client moves.\<close>

lemma start_calls:
  "fold (start_call x) cids s = s\<lparr>ready := ready s @ map (\<lambda>cid. (Run_perform cid, True)) cids,
     contexts := (\<lambda>cid. if cid \<in> set cids then x\<lparr>x_callback := True\<rparr> else contexts s cid)\<rparr>"
  by (induction cids arbitrary: s)
    (auto simp: start_call_def perform_async_def post_def update_context_def fun_eq_iff)

theorem avro_async_round_posts:
  "avro_async_round L C first s = s\<lparr>
     ready := ready s @ map (\<lambda>cid. (Run_perform cid, True)) [first..<first + 100],
     contexts := (\<lambda>cid. if first \<le> cid \<and> cid < first + 100
                         then (avro_async_call L C)\<lparr>x_callback := True\<rparr> else contexts s cid)\<rparr>"
  by (simp add: avro_async_round_def start_calls)

section \<open>From record to record\<close>

text \<open>The body of a call that carries \<open>v\<close>, as libcurl gets it from the reader.\<close>

lemma request_uploaded:
  assumes "avro_law L" and "x_tx_buffer x = lib_os_write L (lib_os_new L) b" and "x_rx_buffer x = lib_os_new L"
    and "perform_context L x = Inr (opts, x1)" and "read_chunks ns x1 = Inr (outs, x2)"
    and "length b \<le> sum_list ns"
  shows "concat outs = b \<and> os_content L (x_rx_buffer x2) = []"
proof -
  have x1: "x_tx_stream x1 = Some b" "x_rx_buffer x1 = lib_os_new L"
    using assms(4) by (auto simp: perform_context_eq [OF assms(1)] assms(2,3) avro_lawD [OF assms(1)])
  from read_chunks_eq [OF x1(1), of ns] assms(5)
  have "concat outs = take (sum_list ns) b" "x_rx_buffer x2 = x_rx_buffer x1" by auto
  with assms(1,6) x1(2) show ?thesis by (simp add: avro_lawD)
qed

text \<open>The body of the answer, as the writer has collected it when the call completes.\<close>

lemma response_collected:
  assumes "avro_law L" and "os_content L (x_rx_buffer x) = []"
  shows "os_content L (x_rx_buffer (fold (\<lambda>d x. snd (write_callback L d x)) ds x)) = concat ds"
proof -
  have "os_content L (x_rx_buffer (fold (\<lambda>d x. snd (write_callback L d x)) ds x))
      = os_content L (x_rx_buffer x) @ concat ds"
    by (induction ds arbitrary: x) (simp_all add: write_callback_def avro_lawD [OF assms(1)])
  with assms(2) show ?thesis by simp
qed

lemma greeting_reported:
  assumes "avro_law L" and "codec_law C" and "os_content L (x_rx_buffer x2) = []"
    and "contexts s cid = fold (\<lambda>d x. snd (write_callback L d x)) ds x2"
    and "concat ds = co_bytes C (hello_response_encode r)"
  shows "avro_client_result L C (contexts (store_result cid (Some 200) s) cid)
      = Inr (Greeted (rs_message r) (length (concat ds)))"
    and "tls_client_result L C (contexts (store_result cid (Some 200) s) cid)
      = Inr (Greeted (rs_message r) (length (concat ds)))"
proof -
  let ?x = "contexts (store_result cid (Some 200) s) cid"
  have content: "os_content L (x_rx_buffer ?x) = concat ds"
    using response_collected [OF assms(1,3), of ds]
    by (simp add: store_result_def update_context_def assms(4))
  have "avro_json_decode L C hello_response_decode (x_rx_buffer ?x) hello_response_new = Inr r"
    using content assms(5) by (intro response_read [OF assms(1,2)]) simp
  moreover have "call_ok ?x = Inr True" "rx_content_length L ?x = length (concat ds)"
    using content
    by (simp_all add: call_ok_def transport_result_def store_result_def update_context_def reported_def
        rx_content_length_def avro_lawD [OF assms(1)])
  ultimately show "avro_client_result L C ?x = Inr (Greeted (rs_message r) (length (concat ds)))"
    "tls_client_result L C ?x = Inr (Greeted (rs_message r) (length (concat ds)))"
    by (simp_all add: avro_client_result_def tls_client_result_def raw_binary_json greeted_def)
qed

lemma rest_call_buffers:
  "x_tx_buffer (create_avro_json_rest L C hello_request_encode POST uri v hs t)
     = lib_os_write L (lib_os_new L) (co_bytes C (hello_request_encode v))"
  "x_tx_buffer (create_avro_binary_rest L C hello_request_encode uri v hs t)
     = lib_os_write L (lib_os_new L) (co_bytes C (hello_request_encode v))"
  "x_rx_buffer (create_avro_json_rest L C hello_request_encode POST uri v hs t) = lib_os_new L"
  "x_rx_buffer (create_avro_binary_rest L C hello_request_encode uri v hs t) = lib_os_new L"
  by (simp_all add: create_avro_json_rest_def create_avro_binary_rest_def call_context_new_def
      avro_json_encode_def avro_raw_binary_encode_def)

text \<open>For the witnesses: the calls of the samples, taken up by libcurl in two reads.\<close>

lemma sample_upload:
  assumes "avro_law L" and "x_method x = POST" and "x_tx_buffer x = lib_os_write L (lib_os_new L) b"
  obtains opts x1 outs x2 where "perform_context L x = Inr (opts, x1)" "read_chunks [3, 100] x1 = Inr (outs, x2)"
    "length b \<le> 103 \<Longrightarrow> concat outs = b"
proof -
  obtain opts x1 where x1: "perform_context L x = Inr (opts, x1)" "x_tx_stream x1 = Some b"
    using assms by (auto simp: perform_context_eq method_options_def avro_lawD)
  from read_chunks_eq [OF x1(2), of "[3, 100]"] x1(1) that show ?thesis by auto
qed

lemma greeting_bytes:
  "co_bytes ref_codec (hello_request_encode greeting) = ''s16:greeting to you!n0:''"
  by (simp add: ref_codec_def greeting_def hello_request_new_def hello_request_encode_def show_nat.simps digit_def)

lemma greeting_simps [simp]: "rq_message greeting = ''greeting to you!''" "rq_delay greeting = 0"
  by (simp_all add: greeting_def hello_request_new_def)

text \<open>
  C19. From the record of a client to the record of its answer. A call that carries a request
  record without a delay is handed to libcurl, whose reads, with room enough in total, take
  its body out; when the parser of the server sees a \<^verbatim>\<open>POST\<close> of that body to
  \<^verbatim>\<open>/rest/avro_sample\<close>, however it cuts it into pieces, the sample server writes one reply;
  and when the body a reader finds in that reply reaches the client, however cut, and the call
  completes with status 200, what the client reports is a greeting with the message it sent.
\<close>

theorem avro_sample_round_trip:
  assumes "text_law L" and "avro_law L" and "split_law (lib_split L)" and "codec_law C"
    and "perform_context L (create_avro_json_rest L C hello_request_encode POST uri v hdrs timeout) = Inr (opts, x1)"
    and "read_chunks ns x1 = Inr (outs, x2)"
    and "length (co_bytes C (hello_request_encode v)) \<le> sum_list ns" and "rq_delay v = 0"
    and "conn_ok L c" and "\<not> waiting_for_async_reply c" and "io c = []"
    and "acceptable L u uf fs" and "log_peer E1 \<noteq> None" and "log_peer E2 \<noteq> None"
    and "component u (uf_path uf) = ''/rest/avro_sample''"
    and "lib_execute L (c_parser c) buf = calls (request_events u fs n 3 bs k) (length buf, prs)"
    and "concat bs = concat outs"
  shows "\<exists>c' bufs hs body.
      http_handle_read L E1 E2 Success buf (avro_sample L C cnt, c) = Inr (avro_sample L C (cnt + 1), c')
      \<and> io c' = [Timer_cancel, Async_write bufs]
      \<and> read_reply (concat bufs) = Some (status_text ok, hs, body)
      \<and> (\<forall>ds s cid. concat ds = body \<and> contexts s cid = fold (\<lambda>d x. snd (write_callback L d x)) ds x2
           \<longrightarrow> avro_client_result L C (contexts (store_result cid (Some 200) s) cid)
               = Inr (Greeted (rq_message v) (length body)))"
proof -
  from request_uploaded [OF assms(2) rest_call_buffers(1,3) assms(5-7)]
  have up: "concat outs = co_bytes C (hello_request_encode v)" "os_content L (x_rx_buffer x2) = []" by simp_all
  have "concat bs = co_bytes C (hello_request_encode v)" using assms(17) up(1) by simp
  from avro_sample_echoes [OF assms(1-4,9-16) this assms(8)] obtain c' bufs hs body where
    "http_handle_read L E1 E2 Success buf (avro_sample L C cnt, c) = Inr (avro_sample L C (cnt + 1), c')"
    "io c' = [Timer_cancel, Async_write bufs]" "read_reply (concat bufs) = Some (status_text ok, hs, body)"
    "body = co_bytes C (hello_response_encode \<lparr>rs_message = rq_message v\<rparr>)" by blast
  moreover from this(4) have "avro_client_result L C (contexts (store_result cid (Some 200) s) cid)
      = Inr (Greeted (rq_message v) (length body))"
    if "concat ds = body" "contexts s cid = fold (\<lambda>d x. snd (write_callback L d x)) ds x2" for ds s cid
    using greeting_reported(1) [OF assms(2,4) up(2) that(2)] that(1) by simp
  ultimately show ?thesis by blast
qed

theorem avro_sample_round_trip_witness:
  "let L = post_libs ''s16:greeting to you!n0:'' in
   \<exists>opts x1 outs x2 c' bufs hs body.
      perform_context L (avro_client_call L ref_codec) = Inr (opts, x1) \<and> read_chunks [3, 100] x1 = Inr (outs, x2)
      \<and> http_handle_read L peer_env peer_env Success ''..'' (avro_sample L ref_codec 0, fresh_conn L)
          = Inr (avro_sample L ref_codec 1, c')
      \<and> io c' = [Timer_cancel, Async_write bufs] \<and> read_reply (concat bufs) = Some (status_text ok, hs, body)
      \<and> avro_client_result L ref_codec (contexts (store_result 0 (Some 200)
            (http_client_new (\<lambda>cid. snd (write_callback L body x2)))) 0)
          = Inr (Greeted ''greeting to you!'' (length body))"
proof -
  define L where "L = post_libs ''s16:greeting to you!n0:''"
  have laws: "text_law L" "avro_law L" "split_law (lib_split L)" by (simp_all add: L_def)
  obtain opts x1 outs x2 where up: "perform_context L (avro_client_call L ref_codec) = Inr (opts, x1)"
    "read_chunks [3, 100] x1 = Inr (outs, x2)" "concat outs = ''s16:greeting to you!n0:''"
    by (rule sample_upload [OF laws(2), of "avro_client_call L ref_codec" "''s16:greeting to you!n0:''"])
      (simp_all add: avro_client_call_def rest_call_buffers greeting_bytes, simp add: create_avro_json_rest_def call_context_new_def)
  from avro_sample_round_trip [OF laws codec_law_ref up(1) [unfolded avro_client_call_def] up(2) _ _ conn_ok_fresh _ _
      post_libs_run(1) [of "''s16:greeting to you!n0:''", folded L_def] peer_env_peer peer_env_peer post_libs_run(2) post_libs_run(3) [of "''s16:greeting to you!n0:''", folded L_def], of 0]
  obtain c' bufs hs body where run:
      "http_handle_read L peer_env peer_env Success ''..'' (avro_sample L ref_codec 0, fresh_conn L)
          = Inr (avro_sample L ref_codec 1, c')"
      "io c' = [Timer_cancel, Async_write bufs]" "read_reply (concat bufs) = Some (status_text ok, hs, body)"
      "\<And>ds s cid. concat ds = body \<Longrightarrow> contexts s cid = fold (\<lambda>d x. snd (write_callback L d x)) ds x2 \<Longrightarrow>
         avro_client_result L ref_codec (contexts (store_result cid (Some 200) s) cid)
           = Inr (Greeted ''greeting to you!'' (length body))"
    using up(3) by (auto simp: greeting_bytes)
  from run(4) [of "[body]" "http_client_new (\<lambda>cid. snd (write_callback L body x2))" 0]
  have "avro_client_result L ref_codec (contexts (store_result 0 (Some 200)
            (http_client_new (\<lambda>cid. snd (write_callback L body x2)))) 0)
          = Inr (Greeted ''greeting to you!'' (length body))"
    by (simp add: http_client_new_def)
  with run(1-3) up(1,2) show ?thesis unfolding Let_def L_def [symmetric] by blast
qed

text \<open>C20. The same for the TLS client and the TLS server, whose bodies are in the binary encoding.\<close>

theorem tls_sample_round_trip:
  assumes "text_law L" and "avro_law L" and "split_law (lib_split L)" and "codec_law C"
    and "perform_context L (create_avro_binary_rest L C hello_request_encode uri v hdrs timeout) = Inr (opts, x1)"
    and "read_chunks ns x1 = Inr (outs, x2)"
    and "length (co_bytes C (hello_request_encode v)) \<le> sum_list ns" and "rq_delay v = 0"
    and "conn_ok L c" and "\<not> waiting_for_async_reply c" and "io c = []"
    and "acceptable L u uf fs" and "log_peer E1 \<noteq> None" and "log_peer E2 \<noteq> None"
    and "component u (uf_path uf) = ''/rest/avro_sample''"
    and "lib_execute L (c_parser c) buf = calls (request_events u fs n 3 bs k) (length buf, prs)"
    and "concat bs = concat outs"
  shows "\<exists>c' bufs hs body.
      https_handle_read L E1 E2 Success buf (tls_sample L C cnt, c) = Inr (tls_sample L C (cnt + 1), c')
      \<and> io c' = [Async_write bufs]
      \<and> read_reply (concat bufs) = Some (status_text ok, hs, body)
      \<and> (\<forall>ds s cid. concat ds = body \<and> contexts s cid = fold (\<lambda>d x. snd (write_callback L d x)) ds x2
           \<longrightarrow> tls_client_result L C (contexts (store_result cid (Some 200) s) cid)
               = Inr (Greeted (rq_message v) (length body)))"
proof -
  from request_uploaded [OF assms(2) rest_call_buffers(2,4) assms(5-7)]
  have up: "concat outs = co_bytes C (hello_request_encode v)" "os_content L (x_rx_buffer x2) = []" by simp_all
  have "concat bs = co_bytes C (hello_request_encode v)" using assms(17) up(1) by simp
  from tls_sample_echoes [OF assms(1-4,9-16) this assms(8)] obtain c' bufs hs body where
    "https_handle_read L E1 E2 Success buf (tls_sample L C cnt, c) = Inr (tls_sample L C (cnt + 1), c')"
    "io c' = [Async_write bufs]" "read_reply (concat bufs) = Some (status_text ok, hs, body)"
    "body = co_bytes C (hello_response_encode \<lparr>rs_message = rq_message v\<rparr>)" by blast
  moreover from this(4) have "tls_client_result L C (contexts (store_result cid (Some 200) s) cid)
      = Inr (Greeted (rq_message v) (length body))"
    if "concat ds = body" "contexts s cid = fold (\<lambda>d x. snd (write_callback L d x)) ds x2" for ds s cid
    using greeting_reported(2) [OF assms(2,4) up(2) that(2)] that(1) by simp
  ultimately show ?thesis by blast
qed

theorem tls_sample_round_trip_witness:
  "let L = post_libs ''s16:greeting to you!n0:'' in
   \<exists>opts x1 outs x2 c' bufs hs body.
      perform_context L (tls_client_call L ref_codec) = Inr (opts, x1) \<and> read_chunks [3, 100] x1 = Inr (outs, x2)
      \<and> https_handle_read L peer_env peer_env Success ''..'' (tls_sample L ref_codec 0, fresh_conn L)
          = Inr (tls_sample L ref_codec 1, c')
      \<and> io c' = [Async_write bufs] \<and> read_reply (concat bufs) = Some (status_text ok, hs, body)
      \<and> tls_client_result L ref_codec (contexts (store_result 0 (Some 200)
            (http_client_new (\<lambda>cid. snd (write_callback L body x2)))) 0)
          = Inr (Greeted ''greeting to you!'' (length body))"
proof -
  define L where "L = post_libs ''s16:greeting to you!n0:''"
  have laws: "text_law L" "avro_law L" "split_law (lib_split L)" by (simp_all add: L_def)
  obtain opts x1 outs x2 where up: "perform_context L (tls_client_call L ref_codec) = Inr (opts, x1)"
    "read_chunks [3, 100] x1 = Inr (outs, x2)" "concat outs = ''s16:greeting to you!n0:''"
    by (rule sample_upload [OF laws(2), of "tls_client_call L ref_codec" "''s16:greeting to you!n0:''"])
      (simp_all add: tls_client_call_def rest_call_buffers greeting_bytes, simp add: create_avro_binary_rest_def call_context_new_def)
  from tls_sample_round_trip [OF laws codec_law_ref up(1) [unfolded tls_client_call_def] up(2) _ _ conn_ok_fresh _ _
      post_libs_run(1) [of "''s16:greeting to you!n0:''", folded L_def] peer_env_peer peer_env_peer post_libs_run(2) post_libs_run(3) [of "''s16:greeting to you!n0:''", folded L_def], of 0]
  obtain c' bufs hs body where run:
      "https_handle_read L peer_env peer_env Success ''..'' (tls_sample L ref_codec 0, fresh_conn L)
          = Inr (tls_sample L ref_codec 1, c')"
      "io c' = [Async_write bufs]" "read_reply (concat bufs) = Some (status_text ok, hs, body)"
      "\<And>ds s cid. concat ds = body \<Longrightarrow> contexts s cid = fold (\<lambda>d x. snd (write_callback L d x)) ds x2 \<Longrightarrow>
         tls_client_result L ref_codec (contexts (store_result cid (Some 200) s) cid)
           = Inr (Greeted ''greeting to you!'' (length body))"
    using up(3) by (auto simp: greeting_bytes)
  from run(4) [of "[body]" "http_client_new (\<lambda>cid. snd (write_callback L body x2))" 0]
  have "tls_client_result L ref_codec (contexts (store_result 0 (Some 200)
            (http_client_new (\<lambda>cid. snd (write_callback L body x2)))) 0)
          = Inr (Greeted ''greeting to you!'' (length body))"
    by (simp add: http_client_new_def)
  with run(1-3) up(1,2) show ?thesis unfolding Let_def L_def [symmetric] by blast
qed

section \<open>The load client\<close>

text \<open>A second codec, for the witness: what the reference codec writes, after a zero byte.\<close>

definition marked_codec :: "string codec" where
  "marked_codec = ref_codec\<lparr>co_bytes := (\<lambda>ds. NUL # co_bytes ref_codec ds), co_open := tl\<rparr>"

lemma codec_law_marked: "codec_law marked_codec"
proof -
  have "hands_out marked_codec d ds = hands_out ref_codec d ds" for d ds
    by (induction "ref_codec" d ds rule: hands_out.induct) (auto simp: marked_codec_def split: option.splits)
  moreover have "hands_out ref_codec (co_bytes ref_codec ds) ds" for ds
    using codec_lawD(1) [OF codec_law_ref, of ds] by (simp add: ref_codec_def)
  ultimately show ?thesis by (simp add: codec_law_def) (simp add: marked_codec_def ref_codec_def)
qed

text \<open>
  The load client stops the server it is meant for. It posts the binary encoding (under
  \<^verbatim>\<open>Content-Type:avro/json\<close>) to the path of the sample that decodes JSON; where the JSON
  decoder refuses that text, its exception leaves \<^verbatim>\<open>handle_read\<close> and so the loop of the
  server, with the first call.
\<close>

theorem load_client_stops_server:
  assumes "text_law L" and "avro_law L" and "split_law (lib_split L)" and "codec_law C"
    and "perform_context L (load_client_call L B) = Inr (opts, x1)" and "read_chunks ns x1 = Inr (outs, x2)"
    and "length (co_bytes B (hello_request_encode greeting)) \<le> sum_list ns"
    and "co_string C (co_open C (co_bytes B (hello_request_encode greeting))) = None"
    and "conn_ok L c" and "\<not> waiting_for_async_reply c" and "io c = []"
    and "acceptable L u uf fs" and "log_peer E1 \<noteq> None"
    and "component u (uf_path uf) = ''/rest/avro_sample''"
    and "lib_execute L (c_parser c) buf = calls (request_events u fs n 3 bs k) (length buf, prs)"
    and "concat bs = concat outs"
  shows "http_handle_read L E1 E2 Success buf (avro_sample L C cnt, c) = Inl (Exception ''avro'')"
proof -
  from request_uploaded [OF assms(2) rest_call_buffers(2,4) assms(5) [unfolded load_client_call_def] assms(6,7)]
  have "concat bs = co_bytes B (hello_request_encode greeting)" using assms(16) by simp
  then show ?thesis
    using avro_sample_malformed_body [OF assms(1-4,9-15), of E2 cnt] assms(8) by simp
qed

theorem load_client_stops_server_witness:
  "let L = post_libs (NUL # ''s16:greeting to you!n0:'') in
   \<exists>opts x1 outs x2.
      perform_context L (load_client_call L marked_codec) = Inr (opts, x1) \<and> read_chunks [3, 100] x1 = Inr (outs, x2)
      \<and> http_handle_read L peer_env peer_env Success ''..'' (avro_sample L ref_codec 0, fresh_conn L)
          = Inl (Exception ''avro'')"
proof -
  let ?body = "NUL # ''s16:greeting to you!n0:''"
  define L where "L = post_libs ?body"
  have laws: "text_law L" "avro_law L" "split_law (lib_split L)" by (simp_all add: L_def)
  have bytes: "co_bytes marked_codec (hello_request_encode greeting) = ?body"
    by (simp add: marked_codec_def greeting_bytes)
  obtain opts x1 outs x2 where up: "perform_context L (load_client_call L marked_codec) = Inr (opts, x1)"
    "read_chunks [3, 100] x1 = Inr (outs, x2)" "concat outs = ?body"
    by (rule sample_upload [OF laws(2), of "load_client_call L marked_codec" ?body])
      (simp_all add: load_client_call_def rest_call_buffers bytes, simp add: create_avro_binary_rest_def call_context_new_def)
  have refused: "co_string ref_codec (co_open ref_codec (co_bytes marked_codec (hello_request_encode greeting))) = None"
    by (simp add: bytes) (simp add: ref_codec_def ref_string_def split_colon_def NUL_def split: option.split prod.split)
  from load_client_stops_server [OF laws codec_law_ref up(1,2) _ refused conn_ok_fresh _ _
      post_libs_run(1) [of ?body, folded L_def] peer_env_peer post_libs_run(2) post_libs_run(3) [of ?body, folded L_def],
      of peer_env 0]
  have "http_handle_read L peer_env peer_env Success ''..'' (avro_sample L ref_codec 0, fresh_conn L)
          = Inl (Exception ''avro'')"
    using up(3) by (simp add: bytes)
  with up(1,2) show ?thesis unfolding Let_def L_def [symmetric] by blast
qed

section \<open>The json_spirit client and its server\<close>

text \<open>
  The post of the json_spirit client is understood by the server it goes to, which defers
  it, and answered with an empty 200 by its service. The callback reports it with the delay
  asked for as long as the body of the loop that made it still runs; when the answer takes
  longer than the tenth of a second that body sleeps, the callback reads a dead variable.
\<close>

theorem spirit_client_served:
  assumes "avro_law L" and "split_law (lib_split L)" and "json_law J" and "r_method (c_request c) = Some POST"
    and "conn_url c = ''/rest/sample''"
    and "os_content L (r_rx (c_request c)) = os_content L (x_tx_buffer (create_json_spirit_request L J (json_encode J)
           POST uri spirit_payload hs t))"
  shows "conn_handle_request L (spirit_sample L J n) c = Inr (spirit_sample L J (n + 1), http_wait_for_async_reply c)
    \<and> (let x = contexts (store_result cid (Some 200) s) cid in
        spirit_async_result (Some spirit_payload) x = Inr (Posted (x_uri (contexts s cid)) 200 1)
        \<and> spirit_async_result None x = Inl Dangling_pointer)"
proof -
  have "os_content L (r_rx (c_request c)) = js_write J (json_encode J spirit_payload)"
    using assms(1,6) by (simp add: create_json_spirit_request_def json_spirit_encode_def call_context_new_def avro_lawD)
  moreover have "js_get_obj J (js_read J (js_write J (json_encode J spirit_payload))) = Some (json_encode J spirit_payload)"
    using assms(3) by (simp add: json_law_def json_encode_def)
  moreover have "\<exists>sd. json_decode J (json_encode J spirit_payload) sample_data_req1_new = (True, sd)"
    using assms(3) by (simp add: json_law_def json_decode_def json_encode_def)
  ultimately have "spirit_handle_request L J http_wait_for_async_reply c = Inr (http_wait_for_async_reply c)"
    using assms(1,4) by (auto simp: spirit_handle_request_def json_spirit_decode_eq spirit_service_post_def)
  then show ?thesis
    using registered_hit [OF assms(2,5), of "\<lambda>ps. spirit_handle_request L J http_wait_for_async_reply" n]
    by (simp add: spirit_sample_def spirit_async_result_def store_result_def update_context_def reported_def spirit_payload_def)
qed

theorem spirit_client_served_witness:
  "let L = ref_libs [];
       x = create_json_spirit_request L ref_json (json_encode ref_json) POST ''/rest/sample'' spirit_payload [] 1000;
       c = (fresh_conn L)\<lparr>c_request := (request_new L)\<lparr>r_url := ''/rest/sample'', r_method := Some POST,
                            r_rx := x_tx_buffer x\<rparr>\<rparr>
   in conn_handle_request L (spirit_sample L ref_json 0) c = Inr (spirit_sample L ref_json 1, http_wait_for_async_reply c)"
proof -
  let ?x = "create_json_spirit_request (ref_libs []) ref_json (json_encode ref_json) POST ''/rest/sample'' spirit_payload [] 1000"
  let ?c = "(fresh_conn (ref_libs []))\<lparr>c_request := (request_new (ref_libs []))\<lparr>r_url := ''/rest/sample'',
              r_method := Some POST, r_rx := x_tx_buffer ?x\<rparr>\<rparr>"
  have "split_law (lib_split (ref_libs []))" "conn_url ?c = ''/rest/sample''"
    by (simp_all add: conn_url_def split_law_split_slash)
  from spirit_client_served [OF avro_law_ref_libs this(1) json_law_ref _ this(2), of "''/rest/sample''" "[]" 1000 0]
  show ?thesis unfolding Let_def by simp blast
qed

end
