(* ===== verification/Timeouts.thy ===== *)
theory Timeouts
  imports Https_Connection
begin

text \<open>
  Which waits for the peer a timer bounds. A read is guarded while a wait of the
  connection's timer is pending and not cancelled. The locale \<open>guarding_handlers\<close> extends
  \<open>serial_handlers\<close> by what the handlers of a connection have to do with the timer, and shows
  that a read is guarded from its start until it completes or the timer fires; both
  connections are instances. The reads, handshakes and writes that are not guarded follow.
\<close>

section \<open>Guarded reads\<close>

definition guarded :: "pending \<Rightarrow> bool" where
  "guarded p \<longleftrightarrow> (Handle_timer, False) \<in> set (waits p)"

text \<open>A handler that starts a read arms the timer first, and does no more; others leave it alone.\<close>

definition arms :: "io_req list \<Rightarrow> bool" where
  "arms rs \<longleftrightarrow> Async_read \<notin> set rs \<or> (\<exists>qs. rs = qs @ [Timer_wait Handle_timer, Async_read])"

fun disarms :: "io_req \<Rightarrow> bool" where
  "disarms Timer_cancel = True"
| "disarms (Timer_expires d) = True"
| "disarms _ = False"

definition leaves_timer :: "io_req list \<Rightarrow> bool" where
  "leaves_timer rs \<longleftrightarrow> Async_read \<notin> set rs \<and> (\<forall>r \<in> set rs. \<not> disarms r)"

lemma reads_fold: "Async_read \<notin> set rs \<Longrightarrow> reads (fold apply_io rs p) = reads p"
proof (induction rs arbitrary: p)
  case (Cons r rs)
  then have "reads (apply_io r p) = reads p" by (cases r) auto
  with Cons show ?case by simp
qed simp

lemma guarded_fold: "\<forall>r \<in> set rs. \<not> disarms r \<Longrightarrow> guarded p \<Longrightarrow> guarded (fold apply_io rs p)"
proof (induction rs arbitrary: p)
  case (Cons r rs)
  then have "guarded (apply_io r p)" by (cases r) (auto simp: guarded_def)
  with Cons show ?case by simp
qed simp

lemma settle_reads: "reads (settle c c' p) = reads (fold apply_io (io c') p)"
  by (simp add: settle_def Let_def)

lemma guarded_settle: "guarded (settle c c' p) = guarded (fold apply_io (io c') p)"
  by (simp add: settle_def Let_def guarded_def)

lemma arms_settle:
  assumes "arms (io c')" and "reads (settle c c' p) > reads p"
  shows "guarded (settle c c' p)"
proof -
  from assms reads_fold [of "io c'" p] have "Async_read \<in> set (io c')" by (auto simp: settle_reads)
  with assms(1) obtain qs where "io c' = qs @ [Timer_wait Handle_timer, Async_read]"
    by (auto simp: arms_def)
  then show ?thesis by (simp add: guarded_settle) (simp add: guarded_def)
qed

lemma transfers_0: "transfers rs = 0 \<Longrightarrow> Async_read \<notin> set rs"
  by (auto simp: transfers_def filter_empty_conv)

locale guarding_handlers = serial_handlers H good defers
  for H :: "('os, 'p) handlers" and good :: "('os, 'p) conn_server \<Rightarrow> bool" and defers :: bool +
  assumes read_arms: "good hs \<Longrightarrow> io c = [] \<Longrightarrow> \<not> waiting_for_async_reply c \<Longrightarrow>
      H (Read_done E E' e buf) (hs, c) = Inr (hs', c') \<Longrightarrow> arms (io c')"
    and write_arms: "good hs \<Longrightarrow> io c = [] \<Longrightarrow> H (Write_done E e) (hs, c) = Inr (hs', c') \<Longrightarrow> arms (io c')"
    and post_arms: "good hs \<Longrightarrow> io c = [] \<Longrightarrow> H (Post_done E) (hs, c) = Inr (hs', c') \<Longrightarrow> arms (io c')"
    and notify_arms: "good hs \<Longrightarrow> io c = [] \<Longrightarrow> H (Notify E) (hs, c) = Inr (hs', c') \<Longrightarrow> arms (io c')"
    and shutdown_leaves: "good hs \<Longrightarrow> io c = [] \<Longrightarrow> H (Shutdown_done e) (hs, c) = Inr (hs', c') \<Longrightarrow>
      leaves_timer (io c')"
    and wait_leaves: "good hs \<Longrightarrow> io c = [] \<Longrightarrow> defers \<or> h = Handle_timer \<Longrightarrow>
      H (Wait_done h E e) (hs, c) = Inr (hs', c') \<Longrightarrow> leaves_timer (io c')"
begin

lemma leaves_settle:
  assumes "leaves_timer (io c')" and "reads (settle c c' p) > 0"
  shows "reads p > 0 \<and> (guarded p \<longrightarrow> guarded (settle c c' p))"
  using assms reads_fold [of "io c'" p] guarded_fold [of "io c'" p]
  by (auto simp: leaves_timer_def settle_reads guarded_settle)

text \<open>A step that ends with a read outstanding: it is guarded, or one of three excuses holds.\<close>

lemma read_guarded:
  assumes "serial_inv ((hs, c), p)" and "conn_step H ((hs, c), p) ((hs', c'), p')" and "reads p' > 0"
  shows "guarded p' \<or> (\<exists>e. H (Handshake_done e) (hs, c\<lparr>io := []\<rparr>) = Inr (hs', c')) \<or> (reads p > 0 \<and> \<not> guarded p)
    \<or> (\<exists>ws ws' E e. waits p = ws @ (Handle_timer, False) # ws'
         \<and> H (Wait_done Handle_timer E e) (hs, c\<lparr>io := []\<rparr>) = Inr (hs', c'))"
proof -
  have good: "good hs" using assms(1) by (simp add: serial_inv_def)
  have one: "tokens p \<le> 1" using assms(1) by (simp add: serial_inv_def)
  have io: "io (c\<lparr>io := []\<rparr>) = []" by simp
  from assms(2) show ?thesis
  proof (cases rule: conn_step.cases)
    case (shutdown e)
    have p': "p' = settle c c' (p\<lparr>shutdowns := shutdowns p - 1\<rparr>)" using shutdown by simp
    show ?thesis
      using leaves_settle [of c' c "p\<lparr>shutdowns := shutdowns p - 1\<rparr>"]
        shutdown_leaves [OF good io] shutdown assms(3) by (auto simp: p' guarded_def)
  next
    case (read E E' e buf)
    then have "reads (p\<lparr>reads := reads p - 1\<rparr>) = 0" "\<not> waiting_for_async_reply (c\<lparr>io := []\<rparr>)"
      using one assms(1) by (auto simp: tokens_def serial_inv_def)
    then show ?thesis
      using arms_settle [of c' "p\<lparr>reads := reads p - 1\<rparr>" c] read_arms [OF good io, of E E' e buf hs' c'] read assms(3)
      by simp
  next
    case (written E e)
    then have "reads (p\<lparr>writes := writes p - 1\<rparr>) = 0" using one by (simp add: tokens_def)
    then show ?thesis
      using arms_settle [of c' "p\<lparr>writes := writes p - 1\<rparr>" c] write_arms [OF good io, of E e hs' c'] written assms(3)
      by simp
  next
    case (wait ws h x ws' e E)
    have ws: "waits p = ws @ (h, x) # ws'" using wait by simp
    have h: "defers \<or> h = Handle_timer" using assms(1) wait by (auto simp: serial_inv_def)
    have p': "p' = settle c c' (p\<lparr>waits := ws @ ws'\<rparr>)" using wait by simp
    have kept: "reads p > 0 \<and> (guarded (p\<lparr>waits := ws @ ws'\<rparr>) \<longrightarrow> guarded p')"
      using leaves_settle [of c' c "p\<lparr>waits := ws @ ws'\<rparr>"] wait_leaves [OF good io h, of E e hs' c'] wait assms(3)
      by (simp add: p')
    show ?thesis
    proof (cases "(h, x) = (Handle_timer, False)")
      case True
      with wait show ?thesis by auto
    next
      case False
      with ws have "guarded p \<longleftrightarrow> guarded (p\<lparr>waits := ws @ ws'\<rparr>)" by (auto simp: guarded_def)
      with kept show ?thesis by blast
    qed
  next
    case (post E)
    then have "reads (p\<lparr>posts := posts p - 1\<rparr>) = 0" using one by (simp add: tokens_def)
    then show ?thesis
      using arms_settle [of c' "p\<lparr>posts := posts p - 1\<rparr>" c] post_arms [OF good io, of E hs' c'] post assms(3)
      by simp
  next
    case (notify E)
    then have "reads (p\<lparr>owed := owed p - 1\<rparr>) = 0" using one by (simp add: tokens_def)
    then show ?thesis
      using arms_settle [of c' "p\<lparr>owed := owed p - 1\<rparr>" c] notify_arms [OF good io, of E hs' c'] notify assms(3)
      by simp
  qed (use assms(3) in auto)
qed

end

section \<open>Both connections\<close>

lemma http_handle_read_arms:
  assumes "http_handle_read L E1 E2 e buf (hs, c) = Inr (hs', c')" and "quiet_server hs" and "io c = []"
  shows "arms (io c')"
  using assms(1)
proof (cases rule: http_handle_read_cases)
  case (bad n c1 c2)
  then have "io c2 = [Timer_cancel]" using http_parse_io conn_create_io assms(3) by fastforce
  then show ?thesis using http_send_reply_io [OF bad(5)] by (auto simp: arms_def)
next
  case (incomplete c1)
  then have "io c1 = [Timer_cancel]" using http_parse_io assms(3) by fastforce
  then show ?thesis using incomplete by (auto simp: arms_def)
next
  case (waiting c1 c2 c3)
  then have "io c1 = [Timer_cancel]" using http_parse_io assms(3) by fastforce
  then have "io c2 = [Timer_cancel]" using log_request_begin_cases [OF waiting(4)] by auto
  then have "transfers (io c3) = 0" using conn_handle_request_quiet [OF waiting(5) assms(2)] by simp
  then show ?thesis using waiting transfers_0 [of "io c3"] by (simp add: arms_def)
next
  case (replied c1 c2 c3)
  then have "io c1 = [Timer_cancel]" using http_parse_io assms(3) by fastforce
  then have "io c2 = [Timer_cancel]" using log_request_begin_cases [OF replied(4)] by auto
  then have "transfers (io c3) = 0" using conn_handle_request_quiet [OF replied(5) assms(2)] by simp
  then show ?thesis using http_send_reply_io [OF replied(7)] transfers_0 [of "io c3"] by (auto simp: arms_def)
qed (use assms in \<open>simp_all add: arms_def\<close>)

lemma http_handle_write_arms: "io c = [] \<Longrightarrow> arms (io (http_handle_write L e c))"
  by (simp add: http_handle_write_io arms_def)

interpretation http_guard: guarding_handlers "http_handlers L" quiet_server True for L
proof (unfold_locales, goal_cases)
  case (1 hs c E E' e buf hs' c')
  then show ?case using http_handle_read_arms [of L E E' e buf hs c hs' c'] by simp
next
  case (2 hs c E e hs' c')
  then show ?case using http_handle_write_arms by auto
next
  case (3 hs c E hs' c')
  then have "http_send_reply L E (issue [Timer_cancel] c) = Inr c'"
    by (cases "http_handle_async_reply_done L E c") (auto simp: http_handle_async_reply_done_def)
  then show ?case using http_send_reply_io [of L E "issue [Timer_cancel] c" c'] 3(2) by (auto simp: arms_def)
next
  case (4 hs c E hs' c')
  then show ?case by (auto simp: http_notify_frame arms_def)
next
  case (5 hs c e hs' c')
  then show ?case by (cases "e = Success") (auto simp: http_handle_shutdown_def leaves_timer_def)
next
  case (6 hs c h E e hs' c')
  then show ?case by (cases e) (auto simp: http_handle_timer_def leaves_timer_def)
qed

interpretation https_guard: guarding_handlers "https_handlers L" prompt_server False for L
proof (unfold_locales, goal_cases)
  case (1 hs c E E' e buf hs' c')
  then consider "io c' = []" | bufs where "io c' = [Async_write bufs]"
    | "io c' = [Timer_expires 5, Timer_wait Handle_timer, Async_read]"
    using https_handle_read_io [of L E E' e buf hs c hs' c'] by auto
  then show ?case by cases (simp_all add: arms_def)
next
  case (2 hs c E e hs' c')
  then show ?case by (cases e) (auto simp: https_handle_write_complete_def Let_def arms_def)
next
  case (3 hs c E hs' c')
  then show ?case by simp
next
  case (4 hs c E hs' c')
  then show ?case by (cases "log_info E") (auto simp: https_notify_async_reply_done_def Let_def arms_def)
next
  case (5 hs c e hs' c')
  then show ?case by (auto simp: https_handle_shutdown_def leaves_timer_def)
next
  case (6 hs c h E e hs' c')
  then show ?case by (cases e) (auto simp: https_handle_timer_def leaves_timer_def)
qed

section \<open>Properties\<close>

text \<open>
  C16. A plain connection bounds the time it reads for, once it has begun to talk: whenever a
  step leaves a read outstanding, a wait of the timer is pending for it, unless the read was
  there before without one, or the timer has just fired, and then its handler has cancelled
  the socket and shut it down.
\<close>

theorem http_reads_guarded:
  assumes "quiet_server hs0"
    and "reachable (http_handlers L) (http_initial L hs0 tag key value) ((hs, c), p)"
    and "conn_step (http_handlers L) ((hs, c), p) ((hs', c'), p')" and "reads p' > 0"
  shows "guarded p' \<or> (reads p > 0 \<and> \<not> guarded p) \<or> (\<exists>e. c' = http_handle_timer e (c\<lparr>io := []\<rparr>))"
proof -
  have "http.serial_inv ((hs, c), p)" using http_reachable_inv [OF assms(2,1)] .
  from http_guard.read_guarded [OF this assms(3,4)] show ?thesis by auto
qed

theorem http_reads_guarded_witness:
  "\<exists>c p c' p'. reachable (http_handlers sample_libs) sample_start (([], c), p)
     \<and> conn_step (http_handlers sample_libs) (([], c), p) (([], c'), p') \<and> reads p' = 1 \<and> guarded p'"
proof -
  obtain c p where run: "reachable (http_handlers sample_libs) sample_start (([], c), p)" "writes p = 1"
    "c_keep_alive c"
    using sample_writing by blast
  define c' where "c' = http_handle_write sample_libs Success (c\<lparr>io := []\<rparr>)"
  define p' where "p' = settle c c' (p\<lparr>writes := writes p - 1\<rparr>)"
  have step: "conn_step (http_handlers sample_libs) (([], c), p) (([], c'), p')"
    unfolding p'_def c'_def using run(2)
    by (intro conn_step.written [where e = Success and E = sample_env]) auto
  have q: "quiet_server []" by (simp add: quiet_server_def)
  have "http.serial_inv (([], c), p)"
    using http_reachable_inv [OF run(1) [unfolded sample_start_def] q] .
  then have p: "reads p = 0" using run(2) by (simp add: http.serial_inv_def tokens_def)
  have c': "io c' = [Timer_cancel, Timer_expires 5, Timer_wait Handle_timer, Async_read]"
    using run(3) by (simp add: c'_def http_handle_write_io)
  then have r: "reads p' = 1" using p by (simp add: p'_def settle_def Let_def)
  have "c' \<noteq> http_handle_timer e (c\<lparr>io := []\<rparr>)" for e
    using c' by (cases e) (auto simp: http_handle_timer_def dest: arg_cong [of _ _ io])
  with http_reads_guarded [OF q run(1) [unfolded sample_start_def] step] r p have "guarded p'" by auto
  with run(1) step r show ?thesis by blast
qed

text \<open>So does a TLS connection whose handlers answer at once, but for the read the handshake starts.\<close>

theorem https_reads_guarded:
  assumes "prompt_server hs0"
    and "reachable (https_handlers L) (https_initial L hs0 tag key value) ((hs, c), p)"
    and "conn_step (https_handlers L) ((hs, c), p) ((hs', c'), p')" and "reads p' > 0"
  shows "guarded p' \<or> (reads p > 0 \<and> \<not> guarded p)
    \<or> (\<exists>e. c' = https_handle_timer e (c\<lparr>io := []\<rparr>)) \<or> (\<exists>e. c' = https_handle_handshake e (c\<lparr>io := []\<rparr>))"
proof -
  have "https.serial_inv ((hs, c), p)" using https_reachable_inv [OF assms(2,1)] .
  from https_guard.read_guarded [OF this assms(3,4)] show ?thesis by auto
qed

text \<open>With no wait, post or promised reply about, the peer alone decides when the next step happens.\<close>

lemma only_the_peer:
  assumes "waits p = []" and "posts p = 0" and "owed p = 0" and "shutdowns p = 0"
    and "conn_step H ((hs, c), p) t"
  shows "handshakes p > 0 \<and> (\<exists>e. H (Handshake_done e) (hs, c\<lparr>io := []\<rparr>) = Inr (fst t))
    \<or> reads p > 0 \<and> (\<exists>E E' e buf. H (Read_done E E' e buf) (hs, c\<lparr>io := []\<rparr>) = Inr (fst t))
    \<or> writes p > 0 \<and> (\<exists>E e. H (Write_done E e) (hs, c\<lparr>io := []\<rparr>) = Inr (fst t))"
  using assms(5)
proof (cases rule: conn_step.cases)
  case (handshake e hs' c')
  then show ?thesis by fastforce
next
  case (read E E' e buf hs' c')
  then show ?thesis by fastforce
next
  case (written E e hs' c')
  then show ?thesis by fastforce
qed (use assms(1-4) in simp_all)

lemma http_initial_eq:
  "http_initial L hs tag key value = ((hs, issue [Async_read] (async_conn_new L tag key value)), no_pending\<lparr>reads := 1\<rparr>)"
  by (simp add: http_initial_def http_start_def Let_def settle_def async_conn_new_def connection_new_def
      connection.defs async_conn.defs issue_def no_pending_def)

lemma https_initial_eq:
  "https_initial L hs tag key value
     = ((hs, issue [Async_handshake] (async_conn_new L tag key value)), no_pending\<lparr>handshakes := 1\<rparr>)"
  by (simp add: https_initial_def https_start_def Let_def settle_def async_conn_new_def connection_new_def
      connection.defs async_conn.defs issue_def no_pending_def)

lemma issue_clear [simp]: "(issue rs (async_conn_new L tag key value))\<lparr>io := []\<rparr> = async_conn_new L tag key value"
  by (simp add: issue_def async_conn_new_def connection_new_def connection.defs async_conn.defs)

text \<open>
  C33. A client that connects and keeps silent is never timed out: \<^verbatim>\<open>start\<close> arms no timer, so
  the first step of a plain connection is the completion of its first read, the first step
  of a TLS connection is the end of the handshake, and the next step after a handshake that
  succeeded is the completion of the read it started.
\<close>

theorem silent_client_holds_connection:
  "(conn_step (http_handlers L) (http_initial L hs tag key value) t
      \<longrightarrow> (\<exists>E E' e buf. http_handle_read L E E' e buf (hs, async_conn_new L tag key value) = Inr (fst t)))
   \<and> (conn_step (https_handlers L) (https_initial L hs tag key value) t
      \<longrightarrow> (\<exists>e. fst t = (hs, https_handle_handshake e (async_conn_new L tag key value))))
   \<and> (conn_step (https_handlers L) (https_initial L hs tag key value) t
        \<and> fst t = (hs, https_handle_handshake Success (async_conn_new L tag key value))
        \<and> conn_step (https_handlers L) t t'
      \<longrightarrow> (\<exists>E E' e buf. https_handle_read L E E' e buf (hs, async_conn_new L tag key value) = Inr (fst t')))"
proof -
  let ?c = "async_conn_new L tag key value"
  have "\<exists>E E' e buf. http_handle_read L E E' e buf (hs, ?c) = Inr (fst t)"
    if "conn_step (http_handlers L) (http_initial L hs tag key value) t"
    using only_the_peer [OF _ _ _ _ that [unfolded http_initial_eq]] by (simp add: no_pending_def)
  moreover have "\<exists>e. fst t = (hs, https_handle_handshake e ?c)"
    if "conn_step (https_handlers L) (https_initial L hs tag key value) t"
    using only_the_peer [OF _ _ _ _ that [unfolded https_initial_eq]] by (simp add: no_pending_def eq_commute [of _ "fst t"])
  moreover have "\<exists>E E' e buf. https_handle_read L E E' e buf (hs, ?c) = Inr (fst t')"
    if step: "conn_step (https_handlers L) (https_initial L hs tag key value) t"
      and t: "fst t = (hs, https_handle_handshake Success ?c)" and next_step: "conn_step (https_handlers L) t t'"
  proof -
    have c1: "https_handle_handshake Success ?c = issue [Async_read] ?c" by (simp add: https_handle_handshake_def)
    from step have "snd t = no_pending\<lparr>reads := 1\<rparr>"
      unfolding https_initial_eq
      by (cases rule: conn_stepE)
        (use t c1 in \<open>auto simp: no_pending_def settle_def Let_def async_conn_new_def connection_new_def
          connection.defs async_conn.defs issue_def\<close>)
    with t have "t = ((hs, issue [Async_read] ?c), no_pending\<lparr>reads := 1\<rparr>)" by (simp add: prod_eq_iff c1)
    with only_the_peer [of "no_pending\<lparr>reads := 1\<rparr>" "https_handlers L" hs "issue [Async_read] ?c" t'] next_step
    show ?thesis by (simp add: no_pending_def)
  qed
  ultimately show ?thesis by blast
qed

theorem silent_client_holds_connection_witness:
  "\<exists>t E E' e buf. conn_step (http_handlers sample_libs) sample_start t
     \<and> http_handle_read sample_libs E E' e buf ([], async_conn_new sample_libs ''request_id''
          (replicate MAX_HEADER_SIZE NUL) (replicate MAX_HEADER_SIZE NUL)) = Inr (fst t)"
proof -
  define c where "c = issue [Async_read] (async_conn_new sample_libs ''request_id''
     (replicate MAX_HEADER_SIZE NUL) (replicate MAX_HEADER_SIZE NUL))"
  have start: "sample_start = (([], c), no_pending\<lparr>reads := 1\<rparr>)" by (simp add: sample_start_def http_initial_eq c_def)
  obtain c' where "http_handle_read sample_libs sample_env sample_env Success ''GET /'' ([], c\<lparr>io := []\<rparr>) = Inr ([], c')"
    using sample_read by (auto simp: start)
  then have "conn_step (http_handlers sample_libs) sample_start
      (([], c'), settle c c' ((no_pending\<lparr>reads := 1\<rparr>)\<lparr>reads := reads (no_pending\<lparr>reads := 1\<rparr>) - 1\<rparr>))"
    unfolding start
    by (intro conn_step.read [where e = Success and buf = "''GET /''" and E = sample_env and E' = sample_env]) simp_all
  then obtain t where t: "conn_step (http_handlers sample_libs) sample_start t" by blast
  from silent_client_holds_connection [of sample_libs "[]" "''request_id''" "replicate MAX_HEADER_SIZE NUL"
      "replicate MAX_HEADER_SIZE NUL" t] t
  show ?thesis unfolding sample_start_def by blast
qed

text \<open>
  A client that does not read its reply is not timed out either: the write starts with the
  timer of the read cancelled and none armed.
\<close>

theorem http_write_unguarded:
  assumes "prompt_server hs" and "http_handle_read L E1 E2 e buf (hs, c) = Inr (hs', c')" and "io c = []"
    and "Async_write bufs \<in> set (io c')"
  shows "\<not> guarded (settle c c' p)"
proof -
  have "\<exists>bs. io c' = [Timer_cancel, Async_write bs]"
    using assms(2)
  proof (cases rule: http_handle_read_cases)
    case (bad n c1 c2)
    then have "io c2 = [Timer_cancel]" using http_parse_io conn_create_io assms(3) by fastforce
    then show ?thesis using http_send_reply_io [OF bad(5)] by auto
  next
    case (incomplete c1)
    then have "io c1 = [Timer_cancel]" using http_parse_io assms(3) by fastforce
    then show ?thesis using incomplete assms(4) by simp
  next
    case (waiting c1 c2 c3)
    then have "io c1 = [Timer_cancel]" using http_parse_io assms(3) by fastforce
    then have "io c2 = [Timer_cancel]" using log_request_begin_cases [OF waiting(4)] by auto
    then have "io c3 = [Timer_cancel]" using conn_handle_request_prompt [OF waiting(5) assms(1)] by simp
    then show ?thesis using waiting assms(4) by simp
  next
    case (replied c1 c2 c3)
    then have "io c1 = [Timer_cancel]" using http_parse_io assms(3) by fastforce
    then have "io c2 = [Timer_cancel]" using log_request_begin_cases [OF replied(4)] by auto
    then have "io c3 = [Timer_cancel]" using conn_handle_request_prompt [OF replied(5) assms(1)] by simp
    then show ?thesis using http_send_reply_io [OF replied(7)] by auto
  qed (use assms(3,4) in simp_all)
  then obtain bs where "io c' = [Timer_cancel, Async_write bs]" by blast
  then show ?thesis by (simp add: guarded_settle) (auto simp: guarded_def)
qed

theorem http_write_unguarded_witness:
  "\<exists>c' bufs. http_handle_read sample_libs sample_env sample_env Success ''GET /''
       ([], (snd (fst sample_start))\<lparr>io := []\<rparr>) = Inr ([], c')
     \<and> Async_write bufs \<in> set (io c') \<and> \<not> guarded (settle ((snd (fst sample_start))\<lparr>io := []\<rparr>) c' no_pending)"
proof -
  obtain c' bufs where run: "http_handle_read sample_libs sample_env sample_env Success ''GET /''
       ([], (snd (fst sample_start))\<lparr>io := []\<rparr>) = Inr ([], c')" "Async_write bufs \<in> set (io c')"
    using sample_read by fastforce
  have "prompt_server []" by (simp add: prompt_server_def)
  from http_write_unguarded [OF this run(1) _ run(2)] run show ?thesis by auto
qed

section \<open>The duration in the log\<close>

text \<open>
  \<^verbatim>\<open>total_microseconds\<close> of both connections: the microseconds since the request was complete,
  cast to 32 bits.
\<close>

definition total_microseconds :: "int \<Rightarrow> int \<Rightarrow> 32 word" where
  "total_microseconds now request_start = word_of_int (now - request_start)"

text \<open>
  What is logged is the duration as long as it is below 2 to the 32 microseconds, a little
  over an hour and eleven minutes; a reply that is deferred as long as the timer of
  \<^verbatim>\<open>handle_read\<close> allows, 3605 seconds, is still logged right, and so is one within the
  3660 seconds of the TLS connection.
\<close>

theorem duration_logged:
  "uint (total_microseconds now request_start) = (now - request_start) mod 2 ^ 32
   \<and> (0 \<le> now - request_start \<and> now - request_start \<le> 3660 * 1000000
        \<longrightarrow> uint (total_microseconds now request_start) = now - request_start)"
proof -
  have "uint (total_microseconds now request_start) = (now - request_start) mod 2 ^ 32"
    unfolding total_microseconds_def uint_word_of_int by simp
  then show ?thesis by simp
qed

end
