(* ===== verification/Sample_Servers.thy ===== *)
theory Sample_Servers
  imports Server_Process Sample_Clients Timeouts
begin

text \<open>
  The three sample servers as programs: \<^verbatim>\<open>main\<close> of \<^verbatim>\<open>samples/avro_http_server_sample\<close>,
  \<^verbatim>\<open>samples/avro_https_server_sample\<close> and \<^verbatim>\<open>samples/json_spirit_http_server_sample\<close>, from the
  command line to the end of \<^verbatim>\<open>io_service::run\<close>, on the processes of theory \<open>Server_Process\<close>.
  The third argument, a number of threads, is read by all three and used by none. The thread
  that prints statistics only reads; it is \<open>print_stat\<close> of theory \<open>Samples\<close>.
\<close>

section \<open>The programs\<close>

text \<open>
  How \<^verbatim>\<open>main\<close> ends after the completions \<open>es\<close>: not yet, or with 0 because nothing was
  outstanding any more, or with 0 after it has printed an exception. A fault as the result is
  undefined behaviour, or an exception that nothing catches.
\<close>

datatype 's main_end = Running 's | Returned | Exiting string

definition ios_run ::
  "('os, 'p) server_class \<Rightarrow> process_event list \<Rightarrow> ('os, 'p) process \<Rightarrow> ('os, 'p) process main_end res" where
  "ios_run K es s = bindE (run_process K es s) (\<lambda>s. Inr (if out_of_work s then Returned else Running s))"

definition my_address :: "string list \<Rightarrow> string option" where
  "my_address args = (case args of [] \<Rightarrow> None | a # _ \<Rightarrow> Some a)"

definition avro_class :: "('os, 'p) libs \<Rightarrow> 'd codec \<Rightarrow> ('os, 'p) server_class" where
  "avro_class L C = http_class L
     (\<lambda>E. avro_service_handle_post L C (http_notify_async_reply_done L E)) default_request_id_header"

definition avro_server_main ::
  "('os, 'p) libs \<Rightarrow> 'd codec \<Rightarrow> (acceptor_call \<Rightarrow> bool) \<Rightarrow> char list \<Rightarrow> char list \<Rightarrow> 64 word \<Rightarrow>
   string list \<Rightarrow> process_event list \<Rightarrow> ('os, 'p) process main_end res" where
  "avro_server_main L C fails key value garbage args es =
     (let (address, port) = server_address (my_address args) in
      catch_exception
        (bindE (http_server_new_at fails (async_conn_new L default_request_id_header key value) address port) (\<lambda>l.
           let s1 = process_new l;
               s1 = s1\<lparr>registered := add_handler (lib_split L) ''/rest/avro_sample''
                      (\<lambda>ps. avro_handle_request L C http_wait_for_async_reply) garbage (registered s1)\<rparr>
           in ios_run (avro_class L C) es s1))
        (\<lambda>what. Inr (Exiting what)))"

definition spirit_class :: "('os, 'p) libs \<Rightarrow> ('os, 'p) server_class" where
  "spirit_class L = http_class L
     (\<lambda>E. spirit_service_handle_post L (http_notify_async_reply_done L E)) default_request_id_header"

definition spirit_server_main ::
  "('os, 'p) libs \<Rightarrow> 'v json \<Rightarrow> (acceptor_call \<Rightarrow> bool) \<Rightarrow> char list \<Rightarrow> char list \<Rightarrow> 64 word \<Rightarrow>
   string list \<Rightarrow> process_event list \<Rightarrow> ('os, 'p) process main_end res" where
  "spirit_server_main L J fails key value garbage args es =
     (let (address, port) = server_address (my_address args) in
      catch_exception
        (bindE (http_server_new_at fails (async_conn_new L default_request_id_header key value) address port) (\<lambda>l.
           let s1 = process_new l;
               s1 = s1\<lparr>registered := add_handler (lib_split L) ''/rest/sample''
                      (\<lambda>ps. spirit_handle_request L J http_wait_for_async_reply) garbage (registered s1)\<rparr>
           in ios_run (spirit_class L) es s1))
        (\<lambda>what. Inr (Exiting what)))"

text \<open>
  The TLS server first loads certificate and key, each of which may throw; these calls stand
  before the \<^verbatim>\<open>try\<close>. The options and the password callback cannot fail.
\<close>

datatype tls_call = Use_certificate_file string | Use_private_key_file string

definition load_file :: "(tls_call \<Rightarrow> bool) \<Rightarrow> tls_call \<Rightarrow> unit res" where
  "load_file bad call = (if bad call then Inl (Exception ''ssl'') else Inr ())"

definition tls_class :: "('os, 'p) libs \<Rightarrow> 'd codec \<Rightarrow> ('os, 'p) server_class" where
  "tls_class L C = https_class L
     (\<lambda>E. tls_service_handle_post L C (https_notify_async_reply_done L E)) default_request_id_header"

definition tls_server_main ::
  "('os, 'p) libs \<Rightarrow> 'd codec \<Rightarrow> (tls_call \<Rightarrow> bool) \<Rightarrow> (acceptor_call \<Rightarrow> bool) \<Rightarrow> char list \<Rightarrow> char list \<Rightarrow> 64 word \<Rightarrow>
   string list \<Rightarrow> process_event list \<Rightarrow> ('os, 'p) process main_end res" where
  "tls_server_main L C bad fails key value garbage args es =
     (let (address, port) = server_address (my_address args) in
      bindE (load_file bad (Use_certificate_file ''server.pem'')) (\<lambda>_.
      bindE (load_file bad (Use_private_key_file ''server.pem'')) (\<lambda>_.
        catch_exception
          (bindE (https_server_new fails (async_conn_new L default_request_id_header key value) address port) (\<lambda>l.
             let s1 = process_new l;
                 s1 = s1\<lparr>registered := add_handler (lib_split L) ''/rest/avro_sample''
                        (\<lambda>ps. tls_handle_request L C https_wait_for_async_reply) garbage (registered s1)\<rparr>
             in ios_run (tls_class L C) es s1))
          (\<lambda>what. Inr (Exiting what)))))"

section \<open>Runs\<close>

lemma encode_reply_reply: "encode_reply L encode v c = Inr c' \<Longrightarrow> \<exists>r. c' = c\<lparr>c_reply := r\<rparr>"
  by (auto simp: encode_reply_def)

lemma conn_create_reply:
  fixes c :: "('os, 'p) async_conn"
  shows "conn_create L s c = Inr c' \<Longrightarrow> \<exists>r. c' = c\<lparr>c_reply := r\<rparr>"
  by (auto simp: conn_create_def)

lemma avro_service_notifies: "notifying (avro_class L C)"
  unfolding notifying_def
proof (intro allI impI)
  fix E c c'
  assume "sc_service (avro_class L C) E c = Inr c'"
  then obtain c1 c2 where c1: "encode_reply L (avro_json_encode L C hello_response_encode)
        (hello_response_new\<lparr>rs_message := ''hello to you!''\<rparr>) c = Inr c1"
    and c2: "conn_create L ok c1 = Inr c2" and c': "c' = http_notify_async_reply_done L E c2"
    by (auto simp: avro_class_def http_class_def avro_service_handle_post_def Let_def)
  from encode_reply_reply [OF c1] conn_create_reply [OF c2] obtain r where "c2 = c\<lparr>c_reply := r\<rparr>" by auto
  with c' have "\<forall>hs. sc_handlers (avro_class L C) (Notify E) (hs, c\<lparr>c_reply := r\<rparr>) = Inr (hs, c')"
    by (simp only: avro_class_def http_class_def server_class.select_convs http_handlers.simps simp_thms)
  then show "\<exists>r E'. \<forall>hs. sc_handlers (avro_class L C) (Notify E') (hs, c\<lparr>c_reply := r\<rparr>) = Inr (hs, c')" by blast
qed

text \<open>Accepting ends with the first accept that fails, and not before.\<close>

lemma accepting_step:
  assumes "accepts_with K start" and "accepting (front s)" and "process_step K e s = Inr t"
    and "\<And>key value. e \<noteq> Accept_done key value False"
  shows "accepting (front t)"
proof (cases e)
  case (Accept_done key val b)
  with assms(4) have b by (cases b) auto
  obtain c where "sc_accept K key val True ((front s)\<lparr>accepting := False\<rparr>) = \<lparr>new_connection = c, accepting = True,
      sessions = sessions ((front s)\<lparr>accepting := False\<rparr>) @ [start (new_connection ((front s)\<lparr>accepting := False\<rparr>))]\<rparr>"
    using assms(1) unfolding accepts_with_def by blast
  with assms(2,3) Accept_done \<open>b\<close> show ?thesis by auto
next
  case (On_connection i ev)
  with assms(2,3) show ?thesis by (auto split: if_splits)
qed

lemma accepting_run:
  "accepts_with K start \<Longrightarrow> accepting (front s) \<Longrightarrow> run_process K es s = Inr t \<Longrightarrow>
   \<forall>key value. Accept_done key value False \<notin> set es \<Longrightarrow> accepting (front t)"
proof (induction es arbitrary: s)
  case Nil
  then show ?case by simp
next
  case (Cons e es)
  from Cons.prems(3) obtain s1 where s1: "process_step K e s = Inr s1" "run_process K es s1 = Inr t" by auto
  have "accepting (front s1)"
    by (rule accepting_step [OF Cons.prems(1,2) s1(1)]) (use Cons.prems(4) in auto)
  from Cons.IH [OF Cons.prems(1) this s1(2)] Cons.prems(4) show ?case by auto
qed

lemma ios_run_stays:
  assumes "accepts_with K start" and "accepting (front s)" and "\<forall>key value. Accept_done key value False \<notin> set es"
  shows "ios_run K es s \<noteq> Inr Returned"
  using accepting_run [OF assms(1,2) _ assms(3)] by (auto simp: ios_run_def out_of_work_def)

lemma catch_exception_Returned:
  "catch_exception m (\<lambda>what. Inr (Exiting what)) = Inr Returned \<longleftrightarrow> m = Inr Returned"
  by (auto simp: catch_exception_def split: sum.splits fault.splits)

lemma listening_accepts:
  "http_server_new_at fails c address port = Inr l \<Longrightarrow> accepting l"
  "https_server_new fails c address port = Inr l \<Longrightarrow> accepting l"
  by (auto simp: http_server_new_at_def https_server_new_def listener_new_def)

section \<open>Properties\<close>

text \<open>
  A sample server does not return from \<^verbatim>\<open>main\<close> unless an accept has failed: with every
  connection closed it goes on waiting for the next one.
\<close>

theorem servers_stay:
  assumes "\<forall>key value. Accept_done key value False \<notin> set es"
  shows "avro_server_main L C fails key value garbage args es \<noteq> Inr Returned
    \<and> tls_server_main L C bad fails key value garbage args es \<noteq> Inr Returned
    \<and> spirit_server_main L J fails key value garbage args es \<noteq> Inr Returned"
proof -
  note stays = ios_run_stays [OF _ _ assms]
  have K: "accepts_with (avro_class L C) http_start" "accepts_with (spirit_class L) http_start"
    "accepts_with (tls_class L C) https_start"
    by (simp_all add: avro_class_def spirit_class_def tls_class_def accepts_http accepts_https)
  have new: "accepting (front ((process_new l)\<lparr>registered := hs\<rparr>))" if "accepting l"
    for l :: "('a, 'b) async_conn listener" and hs
    using that by (simp add: process_new_def)
  note on = stays [OF K(1) new] stays [OF K(2) new] stays [OF K(3) new]
  show ?thesis
    unfolding avro_server_main_def tls_server_main_def spirit_server_main_def Let_def case_prod_beta
      catch_exception_Returned bindE_eq_Inr_iff
    by (intro conjI notI; elim exE conjE)
      (simp_all add: on listening_accepts catch_exception_Returned)
qed

theorem servers_stay_witness:
  "avro_server_main (ref_libs []) ref_codec (\<lambda>_. False) [] [] 0 [''localhost:80''] [Accept_done [] [] True] \<noteq> Inr Returned"
  using servers_stay [of "[Accept_done [] [] True]" "ref_libs []" ref_codec "\<lambda>_. False" "[]" "[]" 0
    "[''localhost:80'']" "\<lambda>_. False" ref_json] by simp

text \<open>What stands before the \<^verbatim>\<open>try\<close> is not caught; what stands in it ends the program with 0.\<close>

theorem startup_failures:
  assumes "bad (Use_certificate_file ''server.pem'') \<or> bad (Use_private_key_file ''server.pem'')"
    and "fails (Resolve (fst (server_address (my_address args))) (show_int (snd (server_address (my_address args)))))"
  shows "tls_server_main L C bad fails key value garbage args es = Inl (Exception ''ssl'')
    \<and> avro_server_main L C fails key value garbage args es = Inr (Exiting ''acceptor'')
    \<and> spirit_server_main L J fails key value garbage args es = Inr (Exiting ''acceptor'')"
  using assms
  by (auto simp: tls_server_main_def avro_server_main_def spirit_server_main_def load_file_def
      http_server_new_at_def split: prod.splits)

theorem startup_failures_witness:
  "tls_server_main (ref_libs []) ref_codec (\<lambda>_. True) (\<lambda>_. True) [] [] 0 [] [] = Inl (Exception ''ssl'')"
  using startup_failures [of "\<lambda>_. True" "\<lambda>_. True" "[]" "ref_libs []" ref_codec "[]" "[]" 0 "[]" ref_json] by simp

section \<open>One request\<close>

text \<open>
  C39. One client can end the Avro server, at any moment and whatever the others do: its
  connection is accepted, and its first request, a \<^verbatim>\<open>POST\<close> to the path of the sample with a
  body that Avro cannot decode, throws an exception that is caught in \<^verbatim>\<open>main\<close> only. The
  program prints it and exits with 0; all connections are gone.
\<close>

theorem one_request_ends_server:
  assumes "text_law L" and "avro_law L" and "split_law (lib_split L)" and "codec_law C"
    and "avro_server_main L C fails key value garbage args es = Inr (Running s)" and "accepting (front s)"
    and "length key = MAX_HEADER_SIZE" and "length value = MAX_HEADER_SIZE" and "list_all sized es"
    and "acceptable L u uf fs" and "log_peer E1 \<noteq> None"
    and "component u (uf_path uf) = ''/rest/avro_sample''"
    and "lib_execute L (lib_parser_init L) buf = calls (request_events u fs n 3 bs k) (length buf, prs)"
    and "co_string C (co_open C (concat bs)) = None"
  shows "avro_server_main L C fails key value garbage args (es @ [Accept_done k' v' True,
      On_connection (length (sessions (front s))) (Delivered 0 (Read_done E1 E2 Success buf))])
    = Inr (Exiting ''avro'')"
proof -
  obtain address port where addr: "server_address (my_address args) = (address, port)" by fastforce
  let ?K = "avro_class L C" and ?c0 = "async_conn_new L default_request_id_header key value"
  let ?read = "Read_done E1 E2 Success buf" and ?i = "length (sessions (front s))"
  let ?s0 = "\<lambda>l. (process_new l)\<lparr>registered := avro_sample L C garbage\<rparr>"
  have main: "avro_server_main L C fails key value garbage args evs
      = catch_exception (bindE (http_server_new_at fails ?c0 address port) (\<lambda>l. ios_run ?K evs (?s0 l)))
          (\<lambda>what. Inr (Exiting what))" for evs
    by (simp add: avro_server_main_def addr process_new_def add_handler_def avro_sample_def)
  from assms(5) obtain l where l: "http_server_new_at fails ?c0 address port = Inr l"
    "run_process ?K es (?s0 l) = Inr s"
    unfolding main by (auto simp: catch_exception_def ios_run_def split: sum.splits fault.splits if_splits)
  then have l': "l = listener_new ?c0" by (auto simp: http_server_new_at_def)
  have "fresh_front L (?s0 l)"
    using assms(7,8) by (auto simp: fresh_front_def l' process_new_def listener_new_def process_ok_def fresh_on_new)
  from fresh_front_run [OF assms(9) this] l(2) have "fresh_front L s" by (simp add: avro_class_def)
  from next_client [OF this assms(6), where k = k' and v = v']
  obtain c t where c: "fresh_on L c" and t: "process_step ?K (Accept_done k' v' True) s = Inr t"
    "registered t = registered s" "?i < length (sessions (front t))" "sessions (front t) ! ?i = http_start c"
    "reads (outstanding t ! ?i) = 1" unfolding avro_class_def by blast
  have "uncounted (registered s) = uncounted (avro_sample L C garbage)"
    using http_isolated.run_respects [OF _ l(2)] by (simp add: avro_class_def http_class_def)
  then obtain cnt where reg: "registered s = avro_sample L C cnt"
    unfolding avro_sample_def by (rule uncounted_single)
  note c' = fresh_on_ok [OF c]
  have "http_handle_read L E1 E2 Success buf (avro_sample L C cnt, c) = Inl (Exception ''avro'')"
    by (rule avro_sample_malformed_body [OF assms(1-4) _ _ _ assms(10,11,12) _ assms(14)])
      (use assms(13) c' in simp_all)
  moreover have "(http_start c)\<lparr>io := []\<rparr> = c" using c' by (simp add: http_start_def issue_def)
  ultimately have "process_step ?K (On_connection ?i (Delivered 0 ?read)) t = Inl (Exception ''avro'')"
    using t(2-5) reg by (simp add: deliver_def avro_class_def http_class_def)
  with t(1) l have "ios_run ?K (es @ [Accept_done k' v' True, On_connection ?i (Delivered 0 ?read)]) (?s0 l) = Inl (Exception ''avro'')"
    by (simp add: ios_run_def run_process_append del: process_step.simps)
  with l(1) show ?thesis unfolding main by (simp add: catch_exception_def)
qed

theorem one_request_ends_server_witness:
  "let L = post_libs []; mem = replicate MAX_HEADER_SIZE NUL in
   avro_server_main L ref_codec (\<lambda>_. False) mem mem 0 [] [Accept_done mem mem True,
      On_connection 0 (Delivered 0 (Read_done peer_env peer_env Success ''..''))] = Inr (Exiting ''avro'')"
proof -
  let ?L = "post_libs []" and ?mem = "replicate MAX_HEADER_SIZE NUL"
  define s where "s = (process_new (listener_new (async_conn_new ?L default_request_id_header ?mem ?mem)))
      \<lparr>registered := avro_sample ?L ref_codec 0\<rparr>"
  have s: "accepting (front s)" "sessions (front s) = []"
    by (simp_all add: s_def process_new_def listener_new_def)
  then have "\<not> out_of_work s" by (simp add: out_of_work_def)
  moreover have "do_calls (\<lambda>_. False) cs = Inr ()" for cs by (induction cs) simp_all
  ultimately have run: "avro_server_main ?L ref_codec (\<lambda>_. False) ?mem ?mem 0 [] [] = Inr (Running s)"
    by (simp add: avro_server_main_def http_server_new_at_def ios_run_def add_handler_def s_def avro_sample_def
        process_new_def case_prod_beta del: do_calls.simps)
  have "lib_execute ?L (lib_parser_init ?L) ''..'' = calls (request_events ''/rest/avro_sample'' [] 0 3 [[]] 1) (length ''..'', [])"
    using post_libs_run(3) [of "[]"] by simp
  from one_request_ends_server [OF post_libs_simps(1-3) codec_law_ref run s(1) _ _ _ post_libs_run(1) peer_env_peer
      post_libs_run(2) this, of ?mem ?mem] s(2)
  show ?thesis by (simp add: ref_codec_def ref_string_def Let_def)
qed

end
